theory Spec2Isabelle
  imports Main
begin

section \<open>Errors\<close>

text \<open>
  The exceptions that keri.vdr.eventing raises or lets through. A function that may
  raise returns \<open>error + 'a\<close>, with \<open>Inl\<close> for the exception. \<open>DatabaseError\<close> stands for
  whatever the key-value store raises when a write does not succeed.
\<close>

datatype error =
    ValueError
  | ValidationError
  | KeyError
  | TypeError
  | AttributeError
  | MissingAnchorError
  | MissingWitnessSignatureError
  | OutOfOrderError
  | LikelyDuplicitousError
  | DatabaseError

section \<open>Ordered sets\<close>

text \<open>
  The module works on \<open>OrderedSet\<close> values (package orderedset, imported as \<open>oset\<close>).
  An ordered set is a duplicate-free list: \<open>oset\<close> keeps the first occurrence of every
  member, \<open>a & b\<close> lists the members of \<open>b\<close> that are in \<open>a\<close>, \<open>a - b\<close> the members of
  \<open>a\<close> that are not in \<open>b\<close>, \<open>a | b\<close> the members of \<open>a\<close> followed by the new members of
  \<open>b\<close>; two ordered sets are equal when their lists are.
\<close>

definition oset :: "'a list \<Rightarrow> 'a list" where
  "oset xs = rev (remdups (rev xs))"

definition oset_and :: "'a list \<Rightarrow> 'a list \<Rightarrow> 'a list" where
  "oset_and a b = filter (\<lambda>x. x \<in> set a) b"

definition oset_sub :: "'a list \<Rightarrow> 'a list \<Rightarrow> 'a list" where
  "oset_sub a b = filter (\<lambda>x. x \<notin> set b) a"

definition oset_or :: "'a list \<Rightarrow> 'a list \<Rightarrow> 'a list" where
  "oset_or a b = oset (a @ b)"

section \<open>Event dictionaries\<close>

text \<open>
  A seal is a dictionary of strings (\<open>{i, s, d}\<close> for an event seal). The event
  dictionary \<open>ked\<close> of a TEL event is a record of its labels; \<open>None\<close> is a label that is
  not in the dictionary, so that \<open>k not in ked\<close> and the \<open>KeyError\<close> of \<open>ked[k]\<close> are
  both visible. Every label that is present holds a value of its schema type.
\<close>

type_synonym seal = "(string \<times> string) list"

record ked =
  k_v :: "string option"
  k_i :: "string option"
  k_ii :: "string option"
  k_s :: "string option"
  k_t :: "string option"
  k_p :: "string option"
  k_ri :: "string option"
  k_ra :: "seal option"
  k_dt :: "string option"
  k_c :: "string list option"
  k_bt :: "string option"
  k_b :: "string list option"
  k_br :: "string list option"
  k_ba :: "string list option"

definition ked0 :: ked where
  "ked0 = \<lparr>k_v = None, k_i = None, k_ii = None, k_s = None, k_t = None, k_p = None,
           k_ri = None, k_ra = None, k_dt = None, k_c = None, k_bt = None, k_b = None,
           k_br = None, k_ba = None\<rparr>"

text \<open>The event kinds (\<open>Ilks\<close>) and the configuration trait \<open>TraitDex.NoBackers\<close>.\<close>

definition Ilks_vcp :: string where "Ilks_vcp = ''vcp''"
definition Ilks_vrt :: string where "Ilks_vrt = ''vrt''"
definition Ilks_iss :: string where "Ilks_iss = ''iss''"
definition Ilks_rev :: string where "Ilks_rev = ''rev''"
definition Ilks_bis :: string where "Ilks_bis = ''bis''"
definition Ilks_brv :: string where "Ilks_brv = ''brv''"

definition NoBackers :: string where "NoBackers = ''NB''"

lemmas Ilks_defs = Ilks_vcp_def Ilks_vrt_def Ilks_iss_def Ilks_rev_def Ilks_bis_def Ilks_brv_def

section \<open>Lowercase hexadecimal\<close>

text \<open>\<open>"{:x}".format(n)\<close> for an integer \<open>n\<close>.\<close>

definition hexdigit :: "nat \<Rightarrow> char" where
  "hexdigit d = ''0123456789abcdef'' ! d"

fun hexnat :: "nat \<Rightarrow> string" where
  "hexnat n = (if n < 16 then [hexdigit n] else hexnat (n div 16) @ [hexdigit (n mod 16)])"

declare hexnat.simps [simp del]

definition format_x :: "int \<Rightarrow> string" where
  "format_x n = (if n < 0 then CHR ''-'' # hexnat (nat (- n)) else hexnat (nat n))"

section \<open>External collaborators\<close>

text \<open>
  A signature with its index (\<open>Siger\<close>), and an element of a backer list as
  \<open>valAnchorBigs\<close> receives it: a \<open>str\<close> when the list comes from an event dictionary, a
  \<open>bytes\<close> when \<open>getBackerState\<close> read it from the store.
\<close>

type_synonym siger = "nat \<times> string"

datatype pstr = PStr string | PBytes string

text \<open>
  A parsed event (\<open>Serder\<close>): its dictionary, its sequence number \<open>Serder.sn\<close> and its
  digest \<open>Serder.dig\<close>. The raw bytes of an event are identified with the \<open>Serder\<close> they
  deserialize to.
\<close>

record serder =
  s_ked :: ked
  s_sn :: int
  s_dig :: string

text \<open>
  The functions of other modules that the code calls, taken as parameters:
  \<^item> \<open>Prefixer_ok p\<close>: \<open>Prefixer(qb64b=p)\<close> does not raise;
  \<^item> \<open>Prefixer_verify k p\<close>: \<open>Prefixer(qb64=p).verify(ked=k, prefixed=True)\<close>;
  \<^item> \<open>derive k\<close>: the identifier \<open>Prefixer(ked=k, code=code, allows=[Blake3_256]).qb64\<close>;
  \<^item> \<open>validateSN s inceptive\<close> of keri.core.eventing;
  \<^item> \<open>verifySigs s sigers baks\<close>: \<open>verifySigs(serder, sigers, verfers)\<close> of
    keri.core.eventing on the verifiers \<open>[Verfer(qb64=bak) for bak in baks]\<close>;
  \<^item> \<open>int16 s\<close>: Python's \<open>int(s, 16)\<close>, \<open>None\<close> where it raises \<open>ValueError\<close>;
  \<^item> \<open>ample n\<close> of keri.core.eventing.
\<close>

record env =
  Prefixer_ok :: "string \<Rightarrow> bool"
  Prefixer_verify :: "ked \<Rightarrow> string \<Rightarrow> bool"
  derive :: "ked \<Rightarrow> error + string"
  validateSN :: "string \<Rightarrow> bool \<Rightarrow> error + int"
  verifySigs :: "serder \<Rightarrow> siger list option \<Rightarrow> pstr list \<Rightarrow> error + (siger list \<times> nat list)"
  int16 :: "string \<Rightarrow> int option"
  ample :: "nat \<Rightarrow> int"

section \<open>Event constructors\<close>

text \<open>
  The \<open>toad\<close> argument of \<open>incept\<close> and \<open>rotate\<close>: omitted, an \<open>int\<close> or a \<open>str\<close>.
  \<open>"{:x}".format(toad)\<close> on a \<open>str\<close> raises \<open>ValueError\<close> (unknown format code).
\<close>

datatype toad_arg = ToadNone | ToadInt int | ToadStr string

definition toad_default :: "env \<Rightarrow> toad_arg \<Rightarrow> string list \<Rightarrow> error + int" where
  "toad_default E toad baks =
     (case toad of
        ToadStr s \<Rightarrow> Inl ValueError
      | ToadNone \<Rightarrow> Inr (if baks = [] then 0 else ample E (length baks))
      | ToadInt n \<Rightarrow> Inr n)"

definition toad_bad :: "int \<Rightarrow> 'a list \<Rightarrow> bool" where
  "toad_bad toad baks =
     (if baks \<noteq> [] then toad < 1 \<or> toad > int (length baks) else toad \<noteq> 0)"

text \<open>\<open>incept\<close>; \<open>vs\<close> is the version string \<open>Versify(version, kind, size=0)\<close>.\<close>

definition incept_ked :: "string \<Rightarrow> string \<Rightarrow> string list \<Rightarrow> int \<Rightarrow> string list \<Rightarrow> ked" where
  "incept_ked vs pre cnfg toad baks =
     ked0\<lparr>k_v := Some vs, k_i := Some [], k_ii := Some pre, k_s := Some (format_x 0),
          k_t := Some Ilks_vcp, k_c := Some cnfg, k_bt := Some (format_x toad),
          k_b := Some baks\<rparr>"

definition incept_derive :: "env \<Rightarrow> ked \<Rightarrow> error + ked" where
  "incept_derive E k = (case derive E k of Inl e \<Rightarrow> Inl e | Inr p \<Rightarrow> Inr (k\<lparr>k_i := Some p\<rparr>))"

definition incept ::
  "env \<Rightarrow> string \<Rightarrow> toad_arg \<Rightarrow> string list option \<Rightarrow> string list option \<Rightarrow> string
     \<Rightarrow> error + ked" where
  "incept E pre toad baks cnfg vs =
     (let cnfg = (case cnfg of None \<Rightarrow> [] | Some c \<Rightarrow> c);
          baks = (case baks of None \<Rightarrow> [] | Some b \<Rightarrow> b)
      in if NoBackers \<in> set cnfg \<and> length baks > 0 then Inl ValueError
         else if length (oset baks) \<noteq> length baks then Inl ValueError
         else (case toad_default E toad baks of
                 Inl e \<Rightarrow> Inl e
               | Inr toad \<Rightarrow>
                   (if toad_bad toad baks then Inl ValueError
                    else incept_derive E (incept_ked vs pre cnfg toad baks))))"

text \<open>
  \<open>rotate\<close>. \<open>rotate_newbakset\<close> is the value of the local \<open>newbakset\<close>,
  \<open>(bakset - cutset) | addset\<close>.
\<close>

definition rotate_newbakset :: "string list \<Rightarrow> string list \<Rightarrow> string list \<Rightarrow> string list" where
  "rotate_newbakset baks cuts adds = oset_or (oset_sub (oset baks) (oset cuts)) (oset adds)"

definition rotate_ked ::
  "string \<Rightarrow> string \<Rightarrow> string \<Rightarrow> int \<Rightarrow> int \<Rightarrow> string list \<Rightarrow> string list \<Rightarrow> ked" where
  "rotate_ked vs regk dig sn toad cuts adds =
     ked0\<lparr>k_v := Some vs, k_i := Some regk, k_p := Some dig, k_s := Some (format_x sn),
          k_t := Some Ilks_vrt, k_bt := Some (format_x toad), k_br := Some cuts,
          k_ba := Some adds\<rparr>"

definition rotate_toad ::
  "env \<Rightarrow> string \<Rightarrow> string \<Rightarrow> int \<Rightarrow> toad_arg \<Rightarrow> string list \<Rightarrow> string list \<Rightarrow> string list
     \<Rightarrow> string \<Rightarrow> error + ked" where
  "rotate_toad E regk dig sn toad newbakset cuts adds vs =
     (case toad_default E toad newbakset of
        Inl e \<Rightarrow> Inl e
      | Inr toad \<Rightarrow>
          (if toad_bad toad newbakset then Inl ValueError
           else Inr (rotate_ked vs regk dig sn toad cuts adds)))"

definition rotate ::
  "env \<Rightarrow> string \<Rightarrow> string \<Rightarrow> int \<Rightarrow> toad_arg \<Rightarrow> string list option \<Rightarrow> string list option
     \<Rightarrow> string list option \<Rightarrow> string \<Rightarrow> error + ked" where
  "rotate E regk dig sn toad baks cuts adds vs =
     (if sn < 1 then Inl ValueError
      else
        (let baks = (case baks of None \<Rightarrow> [] | Some b \<Rightarrow> b);
             bakset = oset baks;
             cuts = (case cuts of None \<Rightarrow> [] | Some b \<Rightarrow> b);
             cutset = oset cuts;
             adds = (case adds of None \<Rightarrow> [] | Some b \<Rightarrow> b);
             addset = oset adds;
             newbakset = rotate_newbakset baks cuts adds
         in if length bakset \<noteq> length baks then Inl ValueError
            else if length cutset \<noteq> length cuts then Inl ValueError
            else if oset_and bakset cutset \<noteq> cutset then Inl ValueError
            else if length addset \<noteq> length adds then Inl ValueError
            else if oset_and cutset addset \<noteq> [] then Inl ValueError
            else if oset_and bakset addset \<noteq> [] then Inl ValueError
            else if int (length newbakset) \<noteq> int (length baks) - int (length cuts) + int (length adds)
              then Inl ValueError
            else rotate_toad E regk dig sn toad newbakset cuts adds vs))"

text \<open>
  Modelled from the spec: \<open>core.eventing.query\<close>, the KEL query builder that \<open>query\<close>
  delegates to, is not in the sources; it builds the routed query envelope, which holds
  the route, the reply route, the stamp and the query mapping it is given.
\<close>

record qmsg =
  q_r :: string
  q_rr :: string
  q_stamp :: "string option"
  q_q :: "(string \<times> string option) list"

definition core_query :: "string \<Rightarrow> string \<Rightarrow> (string \<times> string option) list \<Rightarrow> string option \<Rightarrow> qmsg" where
  "core_query route replyRoute qry stamp =
     \<lparr>q_r = route, q_rr = replyRoute, q_stamp = stamp, q_q = qry\<rparr>"

text \<open>
  \<open>d[k] = v\<close> on a dictionary kept as an association list in insertion order. A value
  \<open>None\<close> is Python's \<open>None\<close>.
\<close>

fun dict_set :: "('k \<times> 'v) list \<Rightarrow> 'k \<Rightarrow> 'v \<Rightarrow> ('k \<times> 'v) list" where
  "dict_set [] k v = [(k, v)]"
| "dict_set ((k', v') # d) k v = (if k' = k then (k, v) # d else (k', v') # dict_set d k v)"

definition query ::
  "string \<Rightarrow> string \<Rightarrow> string \<Rightarrow> string \<Rightarrow> string option \<Rightarrow> string option \<Rightarrow> string option
     \<Rightarrow> string option \<Rightarrow> qmsg" where
  "query regk vcid route replyRoute dt dta dtb stamp =
     (let qry = [(''i'', Some vcid), (''ri'', Some regk)];
          qry = (if dt \<noteq> None then dict_set qry ''dt'' dt else qry);
          qry = (if dta \<noteq> None then dict_set qry ''dta'' dt else qry);
          qry = (if dtb \<noteq> None then dict_set qry ''dtb'' dt else qry)
      in core_query route replyRoute qry stamp)"

section \<open>Exceptions with state\<close>

text \<open>
  A method that mutates its object or the store and may raise is a function from the
  state to an outcome and the state it leaves behind: Python keeps every mutation that
  was made before an exception.
\<close>

definition ret :: "'a \<Rightarrow> 's \<Rightarrow> (error + 'a) \<times> 's" where
  "ret a s = (Inr a, s)"

definition raise :: "error \<Rightarrow> 's \<Rightarrow> (error + 'a) \<times> 's" where
  "raise e s = (Inl e, s)"

definition bnd ::
  "('s \<Rightarrow> (error + 'a) \<times> 's) \<Rightarrow> ('a \<Rightarrow> 's \<Rightarrow> (error + 'b) \<times> 's) \<Rightarrow> 's \<Rightarrow> (error + 'b) \<times> 's" where
  "bnd m f s = (case m s of (Inl e, s') \<Rightarrow> (Inl e, s') | (Inr a, s') \<Rightarrow> f a s')"

definition pure :: "error + 'a \<Rightarrow> 's \<Rightarrow> (error + 'a) \<times> 's" where
  "pure x s = (x, s)"

text \<open>\<open>d[k]\<close> on a dictionary: \<open>KeyError\<close> for a missing key.\<close>

definition getitem :: "'a option \<Rightarrow> error + 'a" where
  "getitem x = (case x of None \<Rightarrow> Inl KeyError | Some a \<Rightarrow> Inr a)"

text \<open>The truth value of an optional list: \<open>None\<close> and \<open>[]\<close> are false.\<close>

definition truthy :: "'a list option \<Rightarrow> bool" where
  "truthy x = (case x of None \<Rightarrow> False | Some xs \<Rightarrow> xs \<noteq> [])"

definition truthy_str :: "string option \<Rightarrow> bool" where
  "truthy_str x = (case x of None \<Rightarrow> False | Some xs \<Rightarrow> xs \<noteq> [])"

section \<open>State notices\<close>

text \<open>
  The dictionary built by \<open>state\<close>, without the version string and the time stamp
  (\<open>helping.nowIso8601()\<close>).
\<close>

record ksn =
  n_i :: string
  n_s :: string
  n_d :: string
  n_ii :: string
  n_et :: string
  n_a :: "int \<times> string"
  n_bt :: string
  n_br :: "string list"
  n_ba :: "string list"
  n_b :: "string list"
  n_c :: "string list"

definition state_toad :: "int option \<Rightarrow> string list \<Rightarrow> int" where
  "state_toad toad witset =
     (case toad of
        Some n \<Rightarrow> n
      | None \<Rightarrow> (if witset = [] then 0 else max 1 ((int (length witset) + 1) div 2)))"

definition state ::
  "string \<Rightarrow> string \<Rightarrow> int \<Rightarrow> string \<Rightarrow> string \<Rightarrow> string list \<Rightarrow> string list \<Rightarrow> int \<times> string
     \<Rightarrow> int option \<Rightarrow> string list option \<Rightarrow> string list option \<Rightarrow> error + ksn" where
  "state pre dig sn ri eilk br ba a toad wits cnfg =
     (let wits = (case wits of None \<Rightarrow> [] | Some w \<Rightarrow> w);
          witset = oset wits;
          toad = state_toad toad witset;
          cnfg = (case cnfg of None \<Rightarrow> [] | Some c \<Rightarrow> c)
      in if sn < 0 then Inl ValueError
         else if eilk \<notin> {Ilks_vcp, Ilks_vrt} then Inl ValueError
         else if length witset \<noteq> length wits then Inl ValueError
         else if toad_bad toad witset then Inl ValueError
         else if length (oset br) \<noteq> length br then Inl ValueError
         else if length (oset ba) \<noteq> length ba then Inl ValueError
         else Inr \<lparr>n_i = ri, n_s = format_x sn, n_d = dig, n_ii = pre, n_et = eilk, n_a = a,
                   n_bt = format_x toad, n_br = br, n_ba = ba, n_b = wits, n_c = cnfg\<rparr>)"

section \<open>The stores\<close>

text \<open>
  Modelled from the spec: the key event store (\<open>Baser\<close>) is not in the sources. Section 6
  gives the two namespaces the verifier reads: \<open>getKeLast(snKey(pre, sn))\<close>, the latest
  digest at a sequence number, and \<open>getEvt(dgKey(pre, dig))\<close>, the raw event. A key
  \<open>snKey(pre, sn)\<close> is the pair \<open>(pre, sn)\<close>, a key \<open>dgKey(pre, dig)\<close> the pair
  \<open>(pre, dig)\<close>. Of a key event only its digest and its field \<open>a\<close> are read: the label
  may be missing, hold \<open>null\<close> or hold a list of seals.
\<close>

type_synonym dgkey = "string \<times> string"
type_synonym snkey = "string \<times> int"

datatype anchors = ANoKey | ANull | ASeals "seal list"

record kevent =
  ke_dig :: string
  ke_a :: anchors

record baser =
  kels :: "snkey \<Rightarrow> string option"
  evts :: "dgkey \<Rightarrow> kevent option"

text \<open>
  Modelled from the spec: the registry store (\<open>Registry\<close> of keri.vdr.viring) is not in the
  sources. Section 6 lists its namespaces: \<open>tvt[dgKey]\<close> the event, \<open>tel[snKey]\<close> the
  digest, \<open>anc[dgKey]\<close> the anchor couple, \<open>tib[dgKey]\<close> the backer signatures,
  \<open>bak[dgKey]\<close> the backers (\<open>bakdb\<close>), \<open>tets[(pre, dig)]\<close> the first-seen stamp (here only the fact
  that it is set), the escrows \<open>tae\<close>, \<open>twe\<close>, \<open>oot\<close> from \<open>snKey\<close> to a digest, and
  \<open>states[regk]\<close>. A put writes only where the key holds nothing and returns whether it
  wrote (section 4.2: idempotent writes; \<open>logEvent\<close>: will not write dup at key if already
  exists; \<open>escrowALEvent\<close>: False if already escrowed); \<open>putTibs\<close> adds the signatures that
  the key does not hold yet; \<open>pin\<close> overwrites. The namespaces that the code iterates or
  counts (\<open>tel\<close>, \<open>tae\<close>, \<open>oot\<close>) are association lists, read in list order. Section 5
  speaks of store writes that succeed; \<open>wfail\<close> holds for a store whose writes raise.
\<close>

record reger =
  tvts :: "dgkey \<Rightarrow> serder option"
  tels :: "(snkey \<times> string) list"
  ancs :: "dgkey \<Rightarrow> (int \<times> string) option"
  tibs :: "dgkey \<Rightarrow> siger list option"
  bakdb :: "dgkey \<Rightarrow> string list option"
  tets :: "dgkey set"
  taes :: "(snkey \<times> string) list"
  twes :: "snkey \<Rightarrow> string option"
  oots :: "(snkey \<times> string) list"
  states :: "string \<Rightarrow> ksn option"
  wfail :: bool

definition put_new :: "('k \<Rightarrow> 'v option) \<Rightarrow> 'k \<Rightarrow> 'v \<Rightarrow> ('k \<Rightarrow> 'v option)" where
  "put_new m k v = (if m k = None then m(k \<mapsto> v) else m)"

definition aput_new :: "('k \<times> 'v) list \<Rightarrow> 'k \<Rightarrow> 'v \<Rightarrow> ('k \<times> 'v) list" where
  "aput_new al k v = (if map_of al k = None then al @ [(k, v)] else al)"

definition writing :: "(reger \<Rightarrow> 'a \<times> reger) \<Rightarrow> reger \<Rightarrow> (error + 'a) \<times> reger" where
  "writing f r = (if wfail r then (Inl DatabaseError, r) else (case f r of (a, r') \<Rightarrow> (Inr a, r')))"

definition putTvt :: "dgkey \<Rightarrow> serder \<Rightarrow> reger \<Rightarrow> (error + bool) \<times> reger" where
  "putTvt k v = writing (\<lambda>r. (tvts r k = None, r\<lparr>tvts := put_new (tvts r) k v\<rparr>))"

definition putAnc :: "dgkey \<Rightarrow> int \<times> string \<Rightarrow> reger \<Rightarrow> (error + bool) \<times> reger" where
  "putAnc k v = writing (\<lambda>r. (ancs r k = None, r\<lparr>ancs := put_new (ancs r) k v\<rparr>))"

definition putTel :: "snkey \<Rightarrow> string \<Rightarrow> reger \<Rightarrow> (error + bool) \<times> reger" where
  "putTel k v = writing (\<lambda>r. (map_of (tels r) k = None, r\<lparr>tels := aput_new (tels r) k v\<rparr>))"

definition putTae :: "snkey \<Rightarrow> string \<Rightarrow> reger \<Rightarrow> (error + bool) \<times> reger" where
  "putTae k v = writing (\<lambda>r. (map_of (taes r) k = None, r\<lparr>taes := aput_new (taes r) k v\<rparr>))"

definition putOot :: "snkey \<Rightarrow> string \<Rightarrow> reger \<Rightarrow> (error + bool) \<times> reger" where
  "putOot k v = writing (\<lambda>r. (map_of (oots r) k = None, r\<lparr>oots := aput_new (oots r) k v\<rparr>))"

definition putTwe :: "snkey \<Rightarrow> string \<Rightarrow> reger \<Rightarrow> (error + bool) \<times> reger" where
  "putTwe k v = writing (\<lambda>r. (twes r k = None, r\<lparr>twes := put_new (twes r) k v\<rparr>))"

definition getTibs :: "reger \<Rightarrow> dgkey \<Rightarrow> siger list" where
  "getTibs r k = (case tibs r k of None \<Rightarrow> [] | Some xs \<Rightarrow> xs)"

definition putTibs :: "dgkey \<Rightarrow> siger list \<Rightarrow> reger \<Rightarrow> (error + bool) \<times> reger" where
  "putTibs k vs = writing (\<lambda>r.
     (\<exists>v \<in> set vs. v \<notin> set (getTibs r k),
      r\<lparr>tibs := (tibs r)(k \<mapsto> oset (getTibs r k @ vs))\<rparr>))"

definition getBaks :: "reger \<Rightarrow> dgkey \<Rightarrow> string list" where
  "getBaks r k = (case bakdb r k of None \<Rightarrow> [] | Some xs \<Rightarrow> xs)"

definition delBaks :: "dgkey \<Rightarrow> reger \<Rightarrow> (error + bool) \<times> reger" where
  "delBaks k = writing (\<lambda>r. (bakdb r k \<noteq> None, r\<lparr>bakdb := (bakdb r)(k := None)\<rparr>))"

definition putBaks :: "dgkey \<Rightarrow> string list \<Rightarrow> reger \<Rightarrow> (error + bool) \<times> reger" where
  "putBaks k vs = writing (\<lambda>r.
     (\<exists>v \<in> set vs. v \<notin> set (getBaks r k),
      r\<lparr>bakdb := (bakdb r)(k \<mapsto> oset (getBaks r k @ vs))\<rparr>))"

definition pinTets :: "dgkey \<Rightarrow> reger \<Rightarrow> (error + bool) \<times> reger" where
  "pinTets k = writing (\<lambda>r. (True, r\<lparr>tets := insert k (tets r)\<rparr>))"

definition pinStates :: "string \<Rightarrow> ksn \<Rightarrow> reger \<Rightarrow> (error + bool) \<times> reger" where
  "pinStates k v = writing (\<lambda>r. (True, r\<lparr>states := (states r)(k \<mapsto> v)\<rparr>))"

definition delTae :: "snkey \<Rightarrow> reger \<Rightarrow> (error + bool) \<times> reger" where
  "delTae k = writing (\<lambda>r.
     (map_of (taes r) k \<noteq> None, r\<lparr>taes := filter (\<lambda>kv. fst kv \<noteq> k) (taes r)\<rparr>))"

definition cntTels :: "reger \<Rightarrow> string \<Rightarrow> nat" where
  "cntTels r pre = length (filter (\<lambda>kv. fst (fst kv) = pre) (tels r))"

text \<open>\<open>nsKey([regk, vcpre])\<close> of keri.vdr.viring joins its parts with a colon.\<close>

definition nsKey :: "string \<Rightarrow> string \<Rightarrow> string" where
  "nsKey regk vcpre = regk @ '':'' @ vcpre"

section \<open>Tever\<close>

text \<open>
  The in-memory fields of a \<open>Tever\<close>. Its methods run on a \<open>tctx\<close>: the fields, the
  registry store \<open>self.reger\<close> and the cue queue \<open>self.cues\<close>, both shared with the
  \<open>Tevery\<close>; the key event store \<open>self.db\<close> is only read. A query cue
  \<open>dict(kin="query", q=dict(pre=pre, sn=sn))\<close> is \<open>CueQuery pre sn\<close>. An anchor is the
  sequence number of a \<open>Seqner\<close> and the digest of a \<open>Diger\<close>.
\<close>

datatype cue = CueQuery string int

record tever =
  t_regk :: "string option"
  t_local :: bool
  t_pre :: string
  t_prefixer :: string
  t_sn :: int
  t_serder :: serder
  t_ilk :: string
  t_toad :: int
  t_baks :: "string list"
  t_cuts :: "string list"
  t_adds :: "string list"
  t_noBackers :: bool

record tctx =
  c_tever :: tever
  c_reger :: reger
  c_cues :: "cue list"

definition on_reger :: "(reger \<Rightarrow> (error + 'a) \<times> reger) \<Rightarrow> tctx \<Rightarrow> (error + 'a) \<times> tctx" where
  "on_reger f c = (case f (c_reger c) of (x, r) \<Rightarrow> (x, c\<lparr>c_reger := r\<rparr>))"

definition reading :: "('s \<Rightarrow> error + 'a) \<Rightarrow> 's \<Rightarrow> (error + 'a) \<times> 's" where
  "reading f c = (f c, c)"

definition olist :: "'a list option \<Rightarrow> 'a list" where
  "olist x = (case x of None \<Rightarrow> [] | Some xs \<Rightarrow> xs)"

text \<open>\<open>Serder.pre\<close> is \<open>ked["i"]\<close>.\<close>

definition Serder_pre :: "serder \<Rightarrow> error + string" where
  "Serder_pre srd = getitem (k_i (s_ked srd))"

text \<open>
  Modelled from the spec: \<open>Serder.compare(dig=dig)\<close> is not in the sources; section 4.2
  reads it as \<open>p == digest(self.serder)\<close>.
\<close>

definition Serder_compare :: "serder \<Rightarrow> string \<Rightarrow> bool" where
  "Serder_compare srd dig = (s_dig srd = dig)"

subsection \<open>state\<close>

definition Tever_state :: "tever \<Rightarrow> reger \<Rightarrow> error + ksn" where
  "Tever_state t r =
     (case t_regk t of
        None \<Rightarrow> Inl TypeError
      | Some rk \<Rightarrow>
          (case ancs r (rk, s_dig (t_serder t)) of
             None \<Rightarrow> Inl TypeError
           | Some a \<Rightarrow>
               state (t_pre t) (s_dig (t_serder t)) (t_sn t) rk (t_ilk t) (t_cuts t) (t_adds t) a
                 (Some (t_toad t)) (Some (t_baks t))
                 (Some (if t_noBackers t then [NoBackers] else []))))"

text \<open>\<open>self.reger.states.pin(keys=self.regk, val=self.state())\<close>\<close>

definition pin_state :: "tctx \<Rightarrow> (error + unit) \<times> tctx" where
  "pin_state =
     bnd (reading (\<lambda>c. Tever_state (c_tever c) (c_reger c))) (\<lambda>k.
     bnd (reading (\<lambda>c. getitem (t_regk (c_tever c)))) (\<lambda>rk.
     bnd (on_reger (pinStates rk k)) (\<lambda>_. ret ())))"

subsection \<open>verifyAnchor\<close>

definition seal_matches :: "seal \<Rightarrow> serder \<Rightarrow> error + bool" where
  "seal_matches seal srd =
     (case map_of seal ''i'' of
        None \<Rightarrow> Inl KeyError
      | Some spre \<Rightarrow>
     (case map_of seal ''s'' of
        None \<Rightarrow> Inl KeyError
      | Some ssn \<Rightarrow>
     (case map_of seal ''d'' of
        None \<Rightarrow> Inl KeyError
      | Some sdig \<Rightarrow>
     (case k_i (s_ked srd) of
        None \<Rightarrow> Inl KeyError
      | Some i \<Rightarrow>
          (if spre \<noteq> i then Inr False
           else (case k_s (s_ked srd) of
                   None \<Rightarrow> Inl KeyError
                 | Some s \<Rightarrow> Inr (ssn = s \<and> s_dig srd = sdig)))))))"

definition verifyAnchor :: "baser \<Rightarrow> tever \<Rightarrow> serder \<Rightarrow> int \<Rightarrow> string \<Rightarrow> error + bool" where
  "verifyAnchor db t srd seqner diger =
     (case kels db (t_pre t, seqner) of
        None \<Rightarrow> Inr False
      | Some dig \<Rightarrow>
          (if dig = [] then Inr False
           else (case evts db (t_pre t, dig) of
                   None \<Rightarrow> Inr False
                 | Some e \<Rightarrow>
                     (if ke_dig e \<noteq> diger then Inr False
                      else (case ke_a e of
                              ANoKey \<Rightarrow> Inl KeyError
                            | ANull \<Rightarrow> Inr False
                            | ASeals seals \<Rightarrow>
                                (if length seals \<noteq> 1 then Inr False
                                 else seal_matches (hd seals) srd))))))"

subsection \<open>Escrows and logEvent\<close>

text \<open>\<open>bak.encode("utf-8")\<close>: a \<open>bytes\<close> has no attribute \<open>encode\<close>.\<close>

fun encode :: "pstr \<Rightarrow> error + string" where
  "encode (PStr s) = Inr s"
| "encode (PBytes b) = Inl AttributeError"

fun encode_all :: "pstr list \<Rightarrow> error + string list" where
  "encode_all [] = Inr []"
| "encode_all (b # bs) =
     (case encode b of
        Inl e \<Rightarrow> Inl e
      | Inr x \<Rightarrow> (case encode_all bs of Inl e \<Rightarrow> Inl e | Inr xs \<Rightarrow> Inr (x # xs)))"

definition escrowPWEvent ::
  "serder \<Rightarrow> int \<Rightarrow> string \<Rightarrow> siger list \<Rightarrow> reger \<Rightarrow> (error + unit) \<times> reger" where
  "escrowPWEvent srd seqner diger bigers =
     bnd (pure (Serder_pre srd)) (\<lambda>pre.
     bnd (putAnc (pre, s_dig srd) (seqner, diger)) (\<lambda>_.
     bnd (putTibs (pre, s_dig srd) bigers) (\<lambda>_.
     bnd (putTvt (pre, s_dig srd) srd) (\<lambda>_.
     bnd (putTwe (pre, s_sn srd) (s_dig srd)) (\<lambda>_. ret ())))))"

definition replace_baks :: "dgkey \<Rightarrow> pstr list \<Rightarrow> reger \<Rightarrow> (error + bool) \<times> reger" where
  "replace_baks key bs =
     bnd (delBaks key) (\<lambda>_.
     bnd (pure (encode_all bs)) (\<lambda>xs. putBaks key xs))"

definition escrowALEvent ::
  "serder \<Rightarrow> int \<Rightarrow> string \<Rightarrow> siger list option \<Rightarrow> pstr list option \<Rightarrow> reger
     \<Rightarrow> (error + bool) \<times> reger" where
  "escrowALEvent srd seqner diger bigers bs =
     bnd (pure (Serder_pre srd)) (\<lambda>pre.
     bnd (putAnc (pre, s_dig srd) (seqner, diger)) (\<lambda>_.
     bnd (if truthy bigers then putTibs (pre, s_dig srd) (olist bigers) else ret False) (\<lambda>_.
     bnd (if truthy bs then replace_baks (pre, s_dig srd) (olist bs) else ret False) (\<lambda>_.
     bnd (putTvt (pre, s_dig srd) srd) (\<lambda>_.
     putTae (pre, s_sn srd) (s_dig srd))))))"

definition logEvent ::
  "string \<Rightarrow> int \<Rightarrow> serder \<Rightarrow> int \<Rightarrow> string \<Rightarrow> siger list option \<Rightarrow> string list option \<Rightarrow> reger
     \<Rightarrow> (error + unit) \<times> reger" where
  "logEvent pre sn srd seqner diger bigers bs =
     bnd (putAnc (pre, s_dig srd) (seqner, diger)) (\<lambda>_.
     bnd (if truthy bigers then putTibs (pre, s_dig srd) (olist bigers) else ret False) (\<lambda>_.
     bnd (if truthy bs then replace_baks (pre, s_dig srd) (map PStr (olist bs)) else ret False) (\<lambda>_.
     bnd (pinTets (pre, s_dig srd)) (\<lambda>_.
     bnd (putTvt (pre, s_dig srd) srd) (\<lambda>_.
     bnd (putTel (pre, sn) (s_dig srd)) (\<lambda>_. ret ()))))))"

subsection \<open>valAnchorBigs\<close>

text \<open>The \<open>toad\<close> argument of \<open>valAnchorBigs\<close>: an \<open>int\<close>, or the \<open>str\<close> of a stored event.\<close>

datatype toadv = TInt int | TStr string

definition toad_int :: "env \<Rightarrow> toadv \<Rightarrow> error + int" where
  "toad_int E toad =
     (case toad of
        TInt n \<Rightarrow> Inr n
      | TStr s \<Rightarrow> (case int16 E s of None \<Rightarrow> Inl ValueError | Some n \<Rightarrow> Inr n))"

text \<open>
  The condition under which the threshold is checked:
  \<open>(baks and not self.regk) or (baks and not self.local and self.regk and self.regk not in baks)\<close>.
  A \<open>str\<close> is never equal to a \<open>bytes\<close>.
\<close>

definition external_event :: "tever \<Rightarrow> pstr list \<Rightarrow> bool" where
  "external_event t bs =
     ((bs \<noteq> [] \<and> \<not> truthy_str (t_regk t)) \<or>
      (bs \<noteq> [] \<and> \<not> t_local t \<and> truthy_str (t_regk t) \<and> PStr (olist (t_regk t)) \<notin> set bs))"

definition append_cue :: "cue \<Rightarrow> tctx \<Rightarrow> (error + unit) \<times> tctx" where
  "append_cue q c = (Inr (), c\<lparr>c_cues := c_cues c @ [q]\<rparr>)"

text \<open>
  The anchorless exit, shared by \<open>valAnchorBigs\<close>, \<open>issue\<close> and \<open>revoke\<close>:
  \<open>if self.escrowALEvent(...): self.cues.append(...)\<close>, then \<open>raise MissingAnchorError\<close>.
\<close>

definition missing_anchor ::
  "serder \<Rightarrow> int \<Rightarrow> string \<Rightarrow> siger list option \<Rightarrow> pstr list option \<Rightarrow> tctx
     \<Rightarrow> (error + 'a) \<times> tctx" where
  "missing_anchor srd seqner diger bigers bs =
     bnd (on_reger (escrowALEvent srd seqner diger bigers bs)) (\<lambda>ok.
     bnd (\<lambda>c. if ok then append_cue (CueQuery (t_pre (c_tever c)) seqner) c else ret () c) (\<lambda>_.
     raise MissingAnchorError))"

definition check_witnessed ::
  "env \<Rightarrow> serder \<Rightarrow> int \<Rightarrow> string \<Rightarrow> siger list \<Rightarrow> nat list \<Rightarrow> toadv \<Rightarrow> pstr list \<Rightarrow> tctx
     \<Rightarrow> (error + unit) \<times> tctx" where
  "check_witnessed E srd seqner diger bigers bindices toad bs =
     bnd (pure (toad_int E toad)) (\<lambda>n.
       if n < 0 \<or> int (length bs) < n then raise ValidationError
       else if int (length bindices) < n
         then bnd (on_reger (escrowPWEvent srd seqner diger bigers))
                (\<lambda>_. raise MissingWitnessSignatureError)
       else ret ())"

definition valAnchorBigs ::
  "env \<Rightarrow> baser \<Rightarrow> serder \<Rightarrow> int \<Rightarrow> string \<Rightarrow> siger list option \<Rightarrow> toadv \<Rightarrow> pstr list \<Rightarrow> tctx
     \<Rightarrow> (error + siger list) \<times> tctx" where
  "valAnchorBigs E db srd seqner diger bigers toad bs =
     bnd (pure (verifySigs E srd bigers bs)) (\<lambda>vs.
     bnd (reading (\<lambda>c. verifyAnchor db (c_tever c) srd seqner diger)) (\<lambda>anchored.
       if \<not> anchored then missing_anchor srd seqner diger (Some (fst vs)) (Some bs)
       else
         bnd (\<lambda>c. if external_event (c_tever c) bs
                   then check_witnessed E srd seqner diger (fst vs) (snd vs) toad bs c
                   else ret () c) (\<lambda>_.
         ret (fst vs))))"

subsection \<open>getBackerState\<close>

definition getBackerState :: "ked \<Rightarrow> tever \<Rightarrow> reger \<Rightarrow> error + (toadv \<times> pstr list)" where
  "getBackerState k t r =
     (case k_ra k of
        None \<Rightarrow> Inl KeyError
      | Some rega \<Rightarrow>
     (case map_of rega ''i'' of
        None \<Rightarrow> Inl KeyError
      | Some regi \<Rightarrow>
     (case map_of rega ''d'' of
        None \<Rightarrow> Inl KeyError
      | Some regd \<Rightarrow>
          (if regi \<noteq> t_prefixer t then Inl ValidationError
           else (case tvts r (regi, regd) of
                   None \<Rightarrow> Inl ValidationError
                 | Some rserder \<Rightarrow>
                     (case k_bt (s_ked rserder) of
                        None \<Rightarrow> Inl KeyError
                      | Some rtoad \<Rightarrow>
                          Inr (TStr rtoad, map PBytes (getBaks r (regi, regd)))))))))"

subsection \<open>rotate\<close>

definition hex_toad :: "env \<Rightarrow> string \<Rightarrow> string list \<Rightarrow> error + int" where
  "hex_toad E bt bs =
     (case int16 E bt of
        None \<Rightarrow> Inl ValueError
      | Some toad \<Rightarrow> (if toad_bad toad bs then Inl ValidationError else Inr toad))"

definition rotate_baks :: "string list \<Rightarrow> string list \<Rightarrow> string list \<Rightarrow> string list" where
  "rotate_baks prev cuts adds = oset_or (oset_sub (oset prev) (oset cuts)) (oset adds)"

text \<open>
  \<open>Tever.rotate\<close>. The labels are read where the source reads them: \<open>ked["p"]\<close> first,
  \<open>ked["br"]\<close> before the checks of the cuts, \<open>ked["ba"]\<close> after them, \<open>ked["bt"]\<close> last.
\<close>

definition Tever_rotate ::
  "env \<Rightarrow> tever \<Rightarrow> serder \<Rightarrow> int \<Rightarrow> error + (int \<times> string list \<times> string list \<times> string list)" where
  "Tever_rotate E t srd sn =
     (case k_p (s_ked srd) of
        None \<Rightarrow> Inl KeyError
      | Some dig \<Rightarrow>
     (case Serder_pre srd of
        Inl e \<Rightarrow> Inl e
      | Inr pre \<Rightarrow>
          (if pre \<noteq> t_prefixer t then Inl ValidationError
           else if sn \<noteq> t_sn t + 1 then Inl ValidationError
           else if \<not> Serder_compare (t_serder t) dig then Inl ValidationError
           else (case k_br (s_ked srd) of
                   None \<Rightarrow> Inl KeyError
                 | Some cuts \<Rightarrow>
                     (if length (oset cuts) \<noteq> length cuts then Inl ValidationError
                      else if oset_and (oset (t_baks t)) (oset cuts) \<noteq> oset cuts
                        then Inl ValidationError
                      else (case k_ba (s_ked srd) of
                              None \<Rightarrow> Inl KeyError
                            | Some adds \<Rightarrow>
                                (if length (oset adds) \<noteq> length adds then Inl ValidationError
                                 else if oset_and (oset cuts) (oset adds) \<noteq> [] then Inl ValidationError
                                 else if oset_and (oset (t_baks t)) (oset adds) \<noteq> []
                                   then Inl ValidationError
                                 else if int (length (rotate_baks (t_baks t) cuts adds)) \<noteq>
                                           int (length (t_baks t)) - int (length cuts) + int (length adds)
                                   then Inl ValidationError
                                 else (case k_bt (s_ked srd) of
                                         None \<Rightarrow> Inl KeyError
                                       | Some bt \<Rightarrow>
                                           (case hex_toad E bt (rotate_baks (t_baks t) cuts adds) of
                                              Inl e \<Rightarrow> Inl e
                                            | Inr toad \<Rightarrow>
                                                Inr (toad, rotate_baks (t_baks t) cuts adds, cuts, adds))))))))))"

subsection \<open>issue, revoke, update\<close>

definition VCP_LABELS :: "string list" where
  "VCP_LABELS = [''v'', ''i'', ''s'', ''t'', ''bt'', ''b'', ''c'']"
definition ISS_LABELS :: "string list" where
  "ISS_LABELS = [''v'', ''i'', ''s'', ''t'', ''ri'', ''dt'']"
definition BIS_LABELS :: "string list" where
  "BIS_LABELS = [''v'', ''i'', ''s'', ''t'', ''ra'', ''dt'']"
definition REV_LABELS :: "string list" where
  "REV_LABELS = [''v'', ''i'', ''s'', ''t'', ''p'', ''dt'']"
definition BRV_LABELS :: "string list" where
  "BRV_LABELS = [''v'', ''i'', ''s'', ''t'', ''ra'', ''p'', ''dt'']"

text \<open>\<open>l in ked\<close>, and the loop that raises at the first label that is not.\<close>

definition has_label :: "ked \<Rightarrow> string \<Rightarrow> bool" where
  "has_label k l =
     ((l = ''v'' \<and> k_v k \<noteq> None) \<or> (l = ''i'' \<and> k_i k \<noteq> None) \<or>
      (l = ''ii'' \<and> k_ii k \<noteq> None) \<or> (l = ''s'' \<and> k_s k \<noteq> None) \<or>
      (l = ''t'' \<and> k_t k \<noteq> None) \<or> (l = ''p'' \<and> k_p k \<noteq> None) \<or>
      (l = ''ri'' \<and> k_ri k \<noteq> None) \<or> (l = ''ra'' \<and> k_ra k \<noteq> None) \<or>
      (l = ''dt'' \<and> k_dt k \<noteq> None) \<or> (l = ''c'' \<and> k_c k \<noteq> None) \<or>
      (l = ''bt'' \<and> k_bt k \<noteq> None) \<or> (l = ''b'' \<and> k_b k \<noteq> None) \<or>
      (l = ''br'' \<and> k_br k \<noteq> None) \<or> (l = ''ba'' \<and> k_ba k \<noteq> None))"

definition missing_label :: "ked \<Rightarrow> string list \<Rightarrow> bool" where
  "missing_label k ls = (\<exists>l \<in> set ls. \<not> has_label k l)"

definition raise_if :: "bool \<Rightarrow> error \<Rightarrow> 's \<Rightarrow> (error + unit) \<times> 's" where
  "raise_if b e = (if b then raise e else ret ())"

definition issue_iss ::
  "baser \<Rightarrow> serder \<Rightarrow> int \<Rightarrow> string \<Rightarrow> int \<Rightarrow> string \<Rightarrow> tctx \<Rightarrow> (error + unit) \<times> tctx" where
  "issue_iss db srd seqner diger sn vci =
     bnd (\<lambda>c. raise_if (\<not> t_noBackers (c_tever c)) ValidationError c) (\<lambda>_.
     bnd (pure (getitem (k_ri (s_ked srd)))) (\<lambda>regi.
     bnd (\<lambda>c. raise_if (regi \<noteq> t_prefixer (c_tever c)) ValidationError c) (\<lambda>_.
     bnd (reading (\<lambda>c. verifyAnchor db (c_tever c) srd seqner diger)) (\<lambda>anchored.
       if \<not> anchored then missing_anchor srd seqner diger None None
       else on_reger (logEvent vci sn srd seqner diger None None)))))"

definition issue_bis ::
  "env \<Rightarrow> baser \<Rightarrow> serder \<Rightarrow> int \<Rightarrow> string \<Rightarrow> int \<Rightarrow> siger list option \<Rightarrow> string \<Rightarrow> tctx
     \<Rightarrow> (error + unit) \<times> tctx" where
  "issue_bis E db srd seqner diger sn bigers vci =
     bnd (\<lambda>c. raise_if (t_noBackers (c_tever c)) ValidationError c) (\<lambda>_.
     bnd (reading (\<lambda>c. getBackerState (s_ked srd) (c_tever c) (c_reger c))) (\<lambda>st.
     bnd (valAnchorBigs E db srd seqner diger bigers (fst st) (snd st)) (\<lambda>vbigers.
     on_reger (logEvent vci sn srd seqner diger (Some vbigers) None))))"

definition issue ::
  "env \<Rightarrow> baser \<Rightarrow> serder \<Rightarrow> int \<Rightarrow> string \<Rightarrow> int \<Rightarrow> siger list option \<Rightarrow> tctx
     \<Rightarrow> (error + unit) \<times> tctx" where
  "issue E db srd seqner diger sn bigers =
     bnd (pure (getitem (k_i (s_ked srd)))) (\<lambda>vcpre.
     bnd (pure (getitem (k_t (s_ked srd)))) (\<lambda>ilk.
     bnd (reading (\<lambda>c. Inr (nsKey (t_prefixer (c_tever c)) vcpre))) (\<lambda>vci.
       if missing_label (s_ked srd) (if ilk = Ilks_iss then ISS_LABELS else BIS_LABELS)
         then raise ValidationError
       else if ilk = Ilks_iss then issue_iss db srd seqner diger sn vci
       else if ilk = Ilks_bis then issue_bis E db srd seqner diger sn bigers vci
       else raise ValidationError)))"

text \<open>
  The issuance event that \<open>revoke\<close> compares with: \<open>getTel(snKey(vci, sn - 1))\<close>, then
  \<open>getTvt(dgKey(vci, dig))\<close>. \<open>dgKey\<close> of keri.db.dbing formats its arguments as bytes,
  which raises \<open>TypeError\<close> on the \<open>None\<close> of a missing entry.
\<close>

definition prior_event :: "reger \<Rightarrow> string \<Rightarrow> int \<Rightarrow> error + serder" where
  "prior_event r vci sn =
     (case map_of (tels r) (vci, sn - 1) of
        None \<Rightarrow> Inl TypeError
      | Some dig \<Rightarrow>
          (case tvts r (vci, dig) of
             None \<Rightarrow> Inl ValidationError
           | Some ievt \<Rightarrow> Inr ievt))"

definition revoke_rev ::
  "baser \<Rightarrow> serder \<Rightarrow> int \<Rightarrow> string \<Rightarrow> int \<Rightarrow> string \<Rightarrow> tctx \<Rightarrow> (error + unit) \<times> tctx" where
  "revoke_rev db srd seqner diger sn vci =
     bnd (\<lambda>c. raise_if (\<not> t_noBackers (c_tever c)) ValidationError c) (\<lambda>_.
     bnd (reading (\<lambda>c. verifyAnchor db (c_tever c) srd seqner diger)) (\<lambda>anchored.
       if \<not> anchored then missing_anchor srd seqner diger None None
       else on_reger (logEvent vci sn srd seqner diger None None)))"

definition revoke_brv ::
  "env \<Rightarrow> baser \<Rightarrow> serder \<Rightarrow> int \<Rightarrow> string \<Rightarrow> int \<Rightarrow> siger list option \<Rightarrow> string \<Rightarrow> tctx
     \<Rightarrow> (error + unit) \<times> tctx" where
  "revoke_brv E db srd seqner diger sn bigers vci =
     bnd (\<lambda>c. raise_if (t_noBackers (c_tever c)) ValidationError c) (\<lambda>_.
     bnd (reading (\<lambda>c. getBackerState (s_ked srd) (c_tever c) (c_reger c))) (\<lambda>st.
     bnd (valAnchorBigs E db srd seqner diger bigers (fst st) (snd st)) (\<lambda>vbigers.
     on_reger (logEvent vci sn srd seqner diger (Some vbigers) None))))"

definition revoke ::
  "env \<Rightarrow> baser \<Rightarrow> serder \<Rightarrow> int \<Rightarrow> string \<Rightarrow> int \<Rightarrow> siger list option \<Rightarrow> tctx
     \<Rightarrow> (error + unit) \<times> tctx" where
  "revoke E db srd seqner diger sn bigers =
     bnd (pure (getitem (k_i (s_ked srd)))) (\<lambda>vcpre.
     bnd (pure (getitem (k_t (s_ked srd)))) (\<lambda>ilk.
     bnd (raise_if (missing_label (s_ked srd) (if ilk = Ilks_rev then REV_LABELS else BRV_LABELS))
            ValidationError) (\<lambda>_.
     bnd (reading (\<lambda>c. Inr (nsKey (t_prefixer (c_tever c)) vcpre))) (\<lambda>vci.
     bnd (reading (\<lambda>c. prior_event (c_reger c) vci sn)) (\<lambda>iserder.
     bnd (pure (getitem (k_p (s_ked srd)))) (\<lambda>p.
     bnd (raise_if (\<not> Serder_compare iserder p) ValidationError) (\<lambda>_.
       if ilk = Ilks_rev then revoke_rev db srd seqner diger sn vci
       else if ilk = Ilks_brv then revoke_brv E db srd seqner diger sn bigers vci
       else raise ValidationError)))))))"

text \<open>
  The assignments \<open>self.sn = sn; ...; self.adds = adds\<close> of \<open>update\<close>, and the rest of its
  \<open>vrt\<close> branch.
\<close>

definition assign_rotation ::
  "int \<Rightarrow> serder \<Rightarrow> string \<Rightarrow> int \<times> string list \<times> string list \<times> string list \<Rightarrow> tever \<Rightarrow> tever" where
  "assign_rotation sn srd ilk rot t =
     (case rot of (toad, bs, cuts, adds) \<Rightarrow>
        t\<lparr>t_sn := sn, t_serder := srd, t_ilk := ilk, t_toad := toad, t_baks := bs,
          t_cuts := cuts, t_adds := adds\<rparr>)"

definition update_vrt ::
  "env \<Rightarrow> baser \<Rightarrow> serder \<Rightarrow> int \<Rightarrow> string \<Rightarrow> siger list option \<Rightarrow> string \<Rightarrow> int \<Rightarrow> tctx
     \<Rightarrow> (error + unit) \<times> tctx" where
  "update_vrt E db srd seqner diger bigers ilk sn =
     bnd (\<lambda>c. raise_if (t_noBackers (c_tever c)) ValidationError c) (\<lambda>_.
     bnd (reading (\<lambda>c. Tever_rotate E (c_tever c) srd sn)) (\<lambda>rot.
     bnd (valAnchorBigs E db srd seqner diger bigers (TInt (fst rot)) (map PStr (fst (snd rot))))
       (\<lambda>vbigers.
     bnd (\<lambda>c. ret () (c\<lparr>c_tever := assign_rotation sn srd ilk rot (c_tever c)\<rparr>)) (\<lambda>_.
     bnd (\<lambda>c. on_reger (logEvent (t_prefixer (c_tever c)) sn srd seqner diger (Some vbigers)
                           (Some (t_baks (c_tever c)))) c) (\<lambda>_.
     pin_state)))))"

definition update ::
  "env \<Rightarrow> baser \<Rightarrow> serder \<Rightarrow> int \<Rightarrow> string \<Rightarrow> siger list option \<Rightarrow> tctx
     \<Rightarrow> (error + unit) \<times> tctx" where
  "update E db srd seqner diger bigers =
     bnd (pure (getitem (k_t (s_ked srd)))) (\<lambda>ilk.
     bnd (pure (getitem (k_s (s_ked srd)))) (\<lambda>s.
     bnd (pure (validateSN E s (ilk \<in> {Ilks_iss, Ilks_bis}))) (\<lambda>sn.
       if ilk = Ilks_vrt then update_vrt E db srd seqner diger bigers ilk sn
       else if ilk \<in> {Ilks_iss, Ilks_bis} then issue E db srd seqner diger sn bigers
       else if ilk \<in> {Ilks_rev, Ilks_brv} then revoke E db srd seqner diger sn bigers
       else raise ValidationError)))"

subsection \<open>Construction from an inception event\<close>

definition ebind :: "error + 'a \<Rightarrow> ('a \<Rightarrow> error + 'b) \<Rightarrow> error + 'b" where
  "ebind x f = (case x of Inl e \<Rightarrow> Inl e | Inr a \<Rightarrow> f a)"

definition efail_if :: "bool \<Rightarrow> error \<Rightarrow> error + unit" where
  "efail_if b e = (if b then Inl e else Inr ())"

text \<open>
  \<open>Tever.__init__\<close> on a \<open>serder\<close> (no \<open>state\<close>), up to and including \<open>self.incept\<close> and
  \<open>self.config\<close>: the checks of the kind and of \<open>VCP_LABELS\<close>, then the fields. An
  identifier that \<open>Prefixer(qb64=serder.pre)\<close> does not accept ends the construction.
  The class attribute \<open>NoBackers\<close> is \<open>False\<close>.
\<close>

definition Tever_incept ::
  "env \<Rightarrow> serder \<Rightarrow> string option \<Rightarrow> bool \<Rightarrow> bool option \<Rightarrow> error + tever" where
  "Tever_incept E srd regk local noBackers =
     ebind (getitem (k_t (s_ked srd))) (\<lambda>ilk.
     ebind (efail_if (ilk \<noteq> Ilks_vcp) ValidationError) (\<lambda>_.
     ebind (efail_if (missing_label (s_ked srd) VCP_LABELS) ValidationError) (\<lambda>_.
     ebind (getitem (k_ii (s_ked srd))) (\<lambda>pre.
     ebind (Serder_pre srd) (\<lambda>i.
     ebind (efail_if (\<not> Prefixer_ok E i) ValidationError) (\<lambda>_.
     ebind (efail_if (\<not> Prefixer_verify E (s_ked srd) i) ValidationError) (\<lambda>_.
     ebind (getitem (k_s (s_ked srd))) (\<lambda>s.
     ebind (validateSN E s True) (\<lambda>sn.
     ebind (getitem (k_b (s_ked srd))) (\<lambda>bs.
     ebind (efail_if (length (oset bs) \<noteq> length bs) ValidationError) (\<lambda>_.
     ebind (getitem (k_bt (s_ked srd))) (\<lambda>bt.
     ebind (hex_toad E bt bs) (\<lambda>toad.
     ebind (getitem (k_c (s_ked srd))) (\<lambda>cnfg.
       Inr \<lparr>t_regk = regk, t_local = local, t_pre = pre, t_prefixer = i, t_sn = sn,
            t_serder = srd, t_ilk = ilk, t_toad = toad, t_baks = bs, t_cuts = [], t_adds = [],
            t_noBackers =
              (if NoBackers \<in> set cnfg then True
               else (case noBackers of None \<Rightarrow> False | Some b \<Rightarrow> b))\<rparr>))))))))))))))"

text \<open>The rest of \<open>Tever.__init__\<close>: \<open>valAnchorBigs\<close>, \<open>logEvent\<close> at 0, \<open>self.regk\<close>, the state.\<close>

definition Tever_first ::
  "env \<Rightarrow> baser \<Rightarrow> serder \<Rightarrow> int \<Rightarrow> string \<Rightarrow> siger list option \<Rightarrow> tctx
     \<Rightarrow> (error + unit) \<times> tctx" where
  "Tever_first E db srd seqner diger bigers =
     bnd (\<lambda>c. valAnchorBigs E db srd seqner diger bigers (TInt (t_toad (c_tever c)))
                 (map PStr (t_baks (c_tever c))) c) (\<lambda>vbigers.
     bnd (\<lambda>c. on_reger (logEvent (t_prefixer (c_tever c)) 0 srd seqner diger (Some vbigers)
                           (Some (t_baks (c_tever c)))) c) (\<lambda>_.
     bnd (\<lambda>c. ret () (c\<lparr>c_tever := (c_tever c)\<lparr>t_regk := Some (t_prefixer (c_tever c))\<rparr>\<rparr>)) (\<lambda>_.
     pin_state)))"

text \<open>
  The constructor returns the new \<open>Tever\<close>, or raises; the store and the cues keep what
  was written before an exception.
\<close>

definition Tever_init ::
  "env \<Rightarrow> baser \<Rightarrow> serder \<Rightarrow> int \<Rightarrow> string \<Rightarrow> siger list option \<Rightarrow> string option \<Rightarrow> bool
     \<Rightarrow> bool option \<Rightarrow> reger \<Rightarrow> cue list \<Rightarrow> (error + tever) \<times> reger \<times> cue list" where
  "Tever_init E db srd seqner diger bigers regk local noBackers r q =
     (case Tever_incept E srd regk local noBackers of
        Inl e \<Rightarrow> (Inl e, r, q)
      | Inr t \<Rightarrow>
          (case Tever_first E db srd seqner diger bigers \<lparr>c_tever = t, c_reger = r, c_cues = q\<rparr> of
             (Inl e, c) \<Rightarrow> (Inl e, c_reger c, c_cues c)
           | (Inr u, c) \<Rightarrow> (Inr (c_tever c), c_reger c, c_cues c)))"

subsection \<open>vcSn\<close>

definition vcSn :: "tever \<Rightarrow> reger \<Rightarrow> string \<Rightarrow> int option" where
  "vcSn t r vcpre =
     (let cnt = cntTels r (nsKey (t_prefixer t) vcpre)
      in if cnt = 0 then None else Some (int cnt - 1))"

section \<open>Tevery\<close>

text \<open>
  Modelled from the spec: \<open>Tevery.tevers\<close> is \<open>reger.tevers\<close>, whose class is not in the
  sources; section 6 gives it as the in-memory map \<open>tevers[regk]\<close> from a registry
  identifier to its \<open>Tever\<close>. A cached \<open>Tever\<close> shares the store and the cues of the
  \<open>Tevery\<close>, so the cache holds the in-memory fields only.
\<close>

record tevery =
  y_reger :: reger
  y_regk :: "string option"
  y_local :: bool
  y_cues :: "cue list"
  y_tevers :: "string \<Rightarrow> tever option"

definition on_yreger :: "(reger \<Rightarrow> (error + 'a) \<times> reger) \<Rightarrow> tevery \<Rightarrow> (error + 'a) \<times> tevery" where
  "on_yreger f y = (case f (y_reger y) of (x, r) \<Rightarrow> (x, y\<lparr>y_reger := r\<rparr>))"

definition registryKey :: "serder \<Rightarrow> error + string" where
  "registryKey srd =
     ebind (getitem (k_t (s_ked srd))) (\<lambda>ilk.
       if ilk \<in> {Ilks_vcp, Ilks_vrt} then Serder_pre srd
       else if ilk \<in> {Ilks_iss, Ilks_rev} then getitem (k_ri (s_ked srd))
       else if ilk \<in> {Ilks_bis, Ilks_brv}
         then ebind (getitem (k_ra (s_ked srd))) (\<lambda>rega. getitem (map_of rega ''i''))
       else Inl ValidationError)"

definition escrowOOEvent :: "serder \<Rightarrow> int \<Rightarrow> string \<Rightarrow> reger \<Rightarrow> (error + unit) \<times> reger" where
  "escrowOOEvent srd seqner diger =
     bnd (pure (Serder_pre srd)) (\<lambda>pre.
     bnd (putTvt (pre, s_dig srd) srd) (\<lambda>_.
     bnd (putAnc (pre, s_dig srd) (seqner, diger)) (\<lambda>_.
     bnd (putOot (pre, s_sn srd) (s_dig srd)) (\<lambda>_. ret ()))))"

text \<open>The locality gate raises \<open>ValueError\<close> when this holds.\<close>

definition nonlocal_event :: "tevery \<Rightarrow> string \<Rightarrow> bool" where
  "nonlocal_event y regk =
     (truthy_str (y_regk y) \<and>
      (if y_local y then y_regk y \<noteq> Some regk else y_regk y = Some regk))"

text \<open>\<open>Prefixer(qb64b=serder.preb)\<close> in its \<open>try\<close>: every exception becomes \<open>ValidationError\<close>.\<close>

definition valid_pre :: "env \<Rightarrow> serder \<Rightarrow> error + string" where
  "valid_pre E srd =
     (case Serder_pre srd of
        Inl e \<Rightarrow> Inl ValidationError
      | Inr p \<Rightarrow> (if Prefixer_ok E p then Inr p else Inl ValidationError))"

text \<open>The branch \<open>regk not in self.tevers\<close>.\<close>

definition first_seen ::
  "env \<Rightarrow> baser \<Rightarrow> serder \<Rightarrow> int \<Rightarrow> string \<Rightarrow> siger list option \<Rightarrow> string \<Rightarrow> string \<Rightarrow> tevery
     \<Rightarrow> (error + unit) \<times> tevery" where
  "first_seen E db srd seqner diger wigers regk ilk y =
     (if ilk = Ilks_vcp then
        (case Tever_init E db srd seqner diger wigers (y_regk y) (y_local y) None
                (y_reger y) (y_cues y) of
           (Inl e, r, q) \<Rightarrow> (Inl e, y\<lparr>y_reger := r, y_cues := q\<rparr>)
         | (Inr t, r, q) \<Rightarrow>
             (Inr (), y\<lparr>y_reger := r, y_cues := q, y_tevers := (y_tevers y)(regk \<mapsto> t)\<rparr>))
      else bnd (on_yreger (escrowOOEvent srd seqner diger)) (\<lambda>_. raise OutOfOrderError) y)"

text \<open>
  A method of the cached \<open>Tever\<close>, run on the store and the cues of the \<open>Tevery\<close>
  (\<open>tever.cues = self.cues\<close>); the object in the cache keeps its mutations.
\<close>

definition with_tever ::
  "string \<Rightarrow> tever \<Rightarrow> (tctx \<Rightarrow> (error + 'a) \<times> tctx) \<Rightarrow> tevery \<Rightarrow> (error + 'a) \<times> tevery" where
  "with_tever regk t m y =
     (case m \<lparr>c_tever = t, c_reger = y_reger y, c_cues = y_cues y\<rparr> of
        (x, c) \<Rightarrow>
          (x, y\<lparr>y_reger := c_reger c, y_cues := c_cues c,
                y_tevers := (y_tevers y)(regk \<mapsto> c_tever c)\<rparr>))"

text \<open>The sequence number \<open>sno\<close> that a known registry expects next.\<close>

definition expected_sn :: "tever \<Rightarrow> reger \<Rightarrow> string \<Rightarrow> string \<Rightarrow> int" where
  "expected_sn t r ilk pre =
     (if ilk = Ilks_vrt then t_sn t + 1
      else (case vcSn t r pre of None \<Rightarrow> 0 | Some esn \<Rightarrow> esn + 1))"

text \<open>The branch of a registry that is in \<open>self.tevers\<close>.\<close>

definition known ::
  "env \<Rightarrow> baser \<Rightarrow> serder \<Rightarrow> int \<Rightarrow> string \<Rightarrow> siger list option \<Rightarrow> string \<Rightarrow> string \<Rightarrow> string
     \<Rightarrow> int \<Rightarrow> tever \<Rightarrow> tevery \<Rightarrow> (error + unit) \<times> tevery" where
  "known E db srd seqner diger wigers regk pre ilk sn t y =
     (if ilk = Ilks_vcp then raise LikelyDuplicitousError y
      else if sn > expected_sn t (y_reger y) ilk pre
        then bnd (on_yreger (escrowOOEvent srd seqner diger)) (\<lambda>_. raise OutOfOrderError) y
      else if sn = expected_sn t (y_reger y) ilk pre
        then with_tever regk t (update E db srd seqner diger wigers) y
      else raise LikelyDuplicitousError y)"

definition processEvent ::
  "env \<Rightarrow> baser \<Rightarrow> serder \<Rightarrow> int \<Rightarrow> string \<Rightarrow> siger list option \<Rightarrow> tevery
     \<Rightarrow> (error + unit) \<times> tevery" where
  "processEvent E db srd seqner diger wigers =
     bnd (pure (valid_pre E srd)) (\<lambda>pre.
     bnd (pure (registryKey srd)) (\<lambda>regk.
     bnd (pure (getitem (k_s (s_ked srd)))) (\<lambda>s.
     bnd (pure (getitem (k_t (s_ked srd)))) (\<lambda>ilk.
     bnd (pure (validateSN E s (ilk \<in> {Ilks_vcp, Ilks_iss, Ilks_bis}))) (\<lambda>sn.
     bnd (\<lambda>y. raise_if (nonlocal_event y regk) ValueError y) (\<lambda>_.
     (\<lambda>y. case y_tevers y regk of
             None \<Rightarrow> first_seen E db srd seqner diger wigers regk ilk y
           | Some t \<Rightarrow> known E db srd seqner diger wigers regk pre ilk sn t y)))))))"

subsection \<open>Escrow processing\<close>

text \<open>What \<open>processEscrowAnchorless\<close> loads for an escrowed event before it reprocesses it.\<close>

definition reload_escrowed ::
  "reger \<Rightarrow> string \<Rightarrow> string \<Rightarrow> error + (serder \<times> siger list option \<times> int \<times> string)" where
  "reload_escrowed r pre dig =
     (case tvts r (pre, dig) of
        None \<Rightarrow> Inl ValidationError
      | Some tserder \<Rightarrow>
          (case ancs r (pre, dig) of
             None \<Rightarrow> Inl ValidationError
           | Some couple \<Rightarrow>
               Inr (tserder,
                    (if getTibs r (pre, dig) \<noteq> [] then Some (getTibs r (pre, dig)) else None),
                    fst couple, snd couple)))"

text \<open>
  One turn of the loop of \<open>processEscrowAnchorless\<close>: \<open>MissingAnchorError\<close> leaves the
  entry, every other outcome deletes it.
\<close>

definition unescrow_tae ::
  "env \<Rightarrow> baser \<Rightarrow> snkey \<times> string \<Rightarrow> tevery \<Rightarrow> (error + unit) \<times> tevery" where
  "unescrow_tae E db item y =
     (case bnd (reading (\<lambda>y. reload_escrowed (y_reger y) (fst (fst item)) (snd item)))
             (\<lambda>l. processEvent E db (fst l) (fst (snd (snd l))) (snd (snd (snd l))) (fst (snd l))) y of
        (x, y') \<Rightarrow>
          (if x = Inl MissingAnchorError then (Inr (), y')
           else bnd (on_yreger (delTae (fst item))) (\<lambda>_. ret ()) y'))"

fun unescrow_all ::
  "env \<Rightarrow> baser \<Rightarrow> (snkey \<times> string) list \<Rightarrow> tevery \<Rightarrow> (error + unit) \<times> tevery" where
  "unescrow_all E db [] y = (Inr (), y)"
| "unescrow_all E db (item # items) y =
     (case unescrow_tae E db item y of
        (Inl e, y') \<Rightarrow> (Inl e, y')
      | (Inr u, y') \<Rightarrow> unescrow_all E db items y')"

text \<open>The loop runs over the entries that the escrow held when it started.\<close>

definition processEscrowAnchorless :: "env \<Rightarrow> baser \<Rightarrow> tevery \<Rightarrow> (error + unit) \<times> tevery" where
  "processEscrowAnchorless E db y = unescrow_all E db (taes (y_reger y)) y"

text \<open>\<open>processEscrowOutOfOrders\<close> prints the prefix of every entry and changes nothing.\<close>

definition processEscrowOutOfOrders :: "tevery \<Rightarrow> (error + unit) \<times> tevery" where
  "processEscrowOutOfOrders y = fold (\<lambda>item st. st) (oots (y_reger y)) (Inr (), y)"

text \<open>\<open>processEscrows\<close> logs any exception of the two and returns.\<close>

definition processEscrows :: "env \<Rightarrow> baser \<Rightarrow> tevery \<Rightarrow> tevery" where
  "processEscrows E db y =
     snd (bnd (processEscrowAnchorless E db) (\<lambda>_. processEscrowOutOfOrders) y)"

section \<open>A concrete environment and scenario\<close>

text \<open>
  An environment on which the definitions above compute: sequence numbers and thresholds
  are read as hexadecimal digits, every non-empty identifier is accepted, and a signature
  verifies when its index names a backer.
\<close>

definition hexdig :: "char \<Rightarrow> int option" where
  "hexdig c =
     (let n = (of_char c :: nat)
      in if 48 \<le> n \<and> n \<le> 57 then Some (int n - 48)
         else if 97 \<le> n \<and> n \<le> 102 then Some (int n - 87)
         else None)"

fun hexacc :: "int \<Rightarrow> string \<Rightarrow> int option" where
  "hexacc a [] = Some a"
| "hexacc a (c # cs) = (case hexdig c of None \<Rightarrow> None | Some d \<Rightarrow> hexacc (16 * a + d) cs)"

definition ex_int16 :: "string \<Rightarrow> int option" where
  "ex_int16 s = (if s = [] then None else hexacc 0 s)"

definition ex_validateSN :: "string \<Rightarrow> bool \<Rightarrow> error + int" where
  "ex_validateSN s inceptive =
     (case ex_int16 s of
        None \<Rightarrow> Inl ValueError
      | Some n \<Rightarrow>
          (if inceptive then (if n \<noteq> 0 then Inl ValidationError else Inr n)
           else (if n < 1 then Inl ValidationError else Inr n)))"

fun ex_verify :: "nat \<Rightarrow> siger list \<Rightarrow> nat list \<Rightarrow> siger list \<times> nat list" where
  "ex_verify n [] seen = ([], [])"
| "ex_verify n (g # gs) seen =
     (if fst g < n \<and> fst g \<notin> set seen
      then (case ex_verify n gs (fst g # seen) of (vs, is) \<Rightarrow> (g # vs, fst g # is))
      else ex_verify n gs seen)"

definition ex_verifySigs ::
  "serder \<Rightarrow> siger list option \<Rightarrow> pstr list \<Rightarrow> error + (siger list \<times> nat list)" where
  "ex_verifySigs srd sigers bs = Inr (ex_verify (length bs) (olist sigers) [])"

definition ex_env :: env where
  "ex_env = \<lparr>Prefixer_ok = (\<lambda>p. p \<noteq> []), Prefixer_verify = (\<lambda>k p. True),
             derive = (\<lambda>k. Inr ''Eregistry''), validateSN = ex_validateSN,
             verifySigs = ex_verifySigs, int16 = ex_int16, ample = (\<lambda>n. int n)\<rparr>"

text \<open>
  A backerless registry \<open>Eregistry\<close> of the issuer \<open>Eissuer\<close> and a credential
  \<open>Ecredential\<close>: the inception \<open>vcp\<close>, the issuance \<open>iss\<close> and the revocation \<open>rev\<close>,
  anchored by the key events 1, 2 and 3 of the issuer. The key events 4 and 5 anchor the
  inception and the rotation of the registry \<open>Ebackreg\<close> below; the key event 6 holds
  one digest seal.
\<close>

definition ex_vcp :: serder where
  "ex_vcp = \<lparr>s_ked = ked0\<lparr>k_v := Some ''KERI10JSON000000_'', k_i := Some ''Eregistry'',
                            k_ii := Some ''Eissuer'', k_s := Some ''0'', k_t := Some ''vcp'',
                            k_c := Some [''NB''], k_bt := Some ''0'', k_b := Some []\<rparr>,
              s_sn = 0, s_dig = ''Dvcp''\<rparr>"

definition ex_iss :: serder where
  "ex_iss = \<lparr>s_ked = ked0\<lparr>k_v := Some ''KERI10JSON000000_'', k_i := Some ''Ecredential'',
                            k_s := Some ''0'', k_t := Some ''iss'', k_ri := Some ''Eregistry'',
                            k_dt := Some ''2021-01-01T00:00:00.000000+00:00''\<rparr>,
              s_sn = 0, s_dig = ''Diss''\<rparr>"

definition ex_rev :: serder where
  "ex_rev = \<lparr>s_ked = ked0\<lparr>k_v := Some ''KERI10JSON000000_'', k_i := Some ''Ecredential'',
                            k_s := Some ''1'', k_t := Some ''rev'', k_ri := Some ''Eregistry'',
                            k_p := Some ''Diss'',
                            k_dt := Some ''2021-01-02T00:00:00.000000+00:00''\<rparr>,
              s_sn = 1, s_dig = ''Drev''\<rparr>"

definition ex_seal :: "string \<Rightarrow> string \<Rightarrow> string \<Rightarrow> seal" where
  "ex_seal i s d = [(''i'', i), (''s'', s), (''d'', d)]"

definition ex_db :: baser where
  "ex_db =
     \<lparr>kels = [(''Eissuer'', 1) \<mapsto> ''K1'', (''Eissuer'', 2) \<mapsto> ''K2'', (''Eissuer'', 3) \<mapsto> ''K3'',
              (''Eissuer'', 4) \<mapsto> ''K4'', (''Eissuer'', 5) \<mapsto> ''K5'', (''Eissuer'', 6) \<mapsto> ''K6''],
      evts = [(''Eissuer'', ''K1'') \<mapsto> \<lparr>ke_dig = ''K1'', ke_a = ASeals [ex_seal ''Eregistry'' ''0'' ''Dvcp'']\<rparr>,
              (''Eissuer'', ''K2'') \<mapsto> \<lparr>ke_dig = ''K2'', ke_a = ASeals [ex_seal ''Ecredential'' ''0'' ''Diss'']\<rparr>,
              (''Eissuer'', ''K3'') \<mapsto> \<lparr>ke_dig = ''K3'', ke_a = ASeals [ex_seal ''Ecredential'' ''1'' ''Drev'']\<rparr>,
              (''Eissuer'', ''K4'') \<mapsto> \<lparr>ke_dig = ''K4'', ke_a = ASeals [ex_seal ''Ebackreg'' ''0'' ''Dvcpb'']\<rparr>,
              (''Eissuer'', ''K5'') \<mapsto> \<lparr>ke_dig = ''K5'', ke_a = ASeals [ex_seal ''Ebackreg'' ''1'' ''Dvrt'']\<rparr>,
              (''Eissuer'', ''K6'') \<mapsto> \<lparr>ke_dig = ''K6'', ke_a = ASeals [[(''d'', ''Eanydigest'')]]\<rparr>]\<rparr>"

definition reger0 :: reger where
  "reger0 = \<lparr>tvts = Map.empty, tels = [], ancs = Map.empty, tibs = Map.empty, bakdb = Map.empty,
             tets = {}, taes = [], twes = Map.empty, oots = [], states = Map.empty,
             wfail = False\<rparr>"

definition tevery0 :: tevery where
  "tevery0 = \<lparr>y_reger = reger0, y_regk = None, y_local = False, y_cues = [],
              y_tevers = Map.empty\<rparr>"

text \<open>
  A registry \<open>Ebackreg\<close> with the backers \<open>B1\<close>, \<open>B2\<close>, \<open>B3\<close> and threshold 2, as its
  verifier holds it after the inception, the store after that inception, and two
  rotations: one cuts \<open>B2\<close> and adds \<open>B4\<close>, the other cuts \<open>B9\<close>, which is no backer.
\<close>

definition ex_vcp_b :: serder where
  "ex_vcp_b = \<lparr>s_ked = ked0\<lparr>k_v := Some ''KERI10JSON000000_'', k_i := Some ''Ebackreg'',
                              k_ii := Some ''Eissuer'', k_s := Some ''0'', k_t := Some ''vcp'',
                              k_c := Some [], k_bt := Some ''2'',
                              k_b := Some [''B1'', ''B2'', ''B3'']\<rparr>,
                s_sn = 0, s_dig = ''Dvcpb''\<rparr>"

definition ex_tever_b :: tever where
  "ex_tever_b = \<lparr>t_regk = Some ''Ebackreg'', t_local = False, t_pre = ''Eissuer'',
                  t_prefixer = ''Ebackreg'', t_sn = 0, t_serder = ex_vcp_b, t_ilk = ''vcp'',
                  t_toad = 2, t_baks = [''B1'', ''B2'', ''B3''], t_cuts = [], t_adds = [],
                  t_noBackers = False\<rparr>"

definition reger_b :: reger where
  "reger_b = reger0\<lparr>tvts := [(''Ebackreg'', ''Dvcpb'') \<mapsto> ex_vcp_b],
                     tels := [((''Ebackreg'', 0), ''Dvcpb'')],
                     ancs := [(''Ebackreg'', ''Dvcpb'') \<mapsto> (4, ''K4'')],
                     bakdb := [(''Ebackreg'', ''Dvcpb'') \<mapsto> [''B1'', ''B2'', ''B3'']],
                     tets := {(''Ebackreg'', ''Dvcpb'')}\<rparr>"

definition ctx_b :: tctx where
  "ctx_b = \<lparr>c_tever = ex_tever_b, c_reger = reger_b, c_cues = []\<rparr>"

definition ex_vrt :: serder where
  "ex_vrt = \<lparr>s_ked = ked0\<lparr>k_v := Some ''KERI10JSON000000_'', k_i := Some ''Ebackreg'',
                            k_p := Some ''Dvcpb'', k_s := Some ''1'', k_t := Some ''vrt'',
                            k_bt := Some ''2'', k_br := Some [''B2''], k_ba := Some [''B4'']\<rparr>,
              s_sn = 1, s_dig = ''Dvrt''\<rparr>"

definition ex_vrt_bad :: serder where
  "ex_vrt_bad = \<lparr>s_ked = ked0\<lparr>k_v := Some ''KERI10JSON000000_'', k_i := Some ''Ebackreg'',
                                k_p := Some ''Dvcpb'', k_s := Some ''1'', k_t := Some ''vrt'',
                                k_bt := Some ''2'', k_br := Some [''B9''], k_ba := Some [''B4'']\<rparr>,
                  s_sn = 1, s_dig = ''Dvrtx''\<rparr>"

text \<open>
  The verifier of the backerless registry \<open>Eregistry\<close> and the store, after the inception
  of the registry.
\<close>

definition ex_tever_nb :: tever where
  "ex_tever_nb = \<lparr>t_regk = Some ''Eregistry'', t_local = False, t_pre = ''Eissuer'',
                   t_prefixer = ''Eregistry'', t_sn = 0, t_serder = ex_vcp, t_ilk = ''vcp'',
                   t_toad = 0, t_baks = [], t_cuts = [], t_adds = [], t_noBackers = True\<rparr>"

definition reger_nb :: reger where
  "reger_nb = reger0\<lparr>tvts := [(''Eregistry'', ''Dvcp'') \<mapsto> ex_vcp],
                      tels := [((''Eregistry'', 0), ''Dvcp'')],
                      ancs := [(''Eregistry'', ''Dvcp'') \<mapsto> (1, ''K1'')],
                      tets := {(''Eregistry'', ''Dvcp'')}\<rparr>"

definition ctx_nb :: tctx where
  "ctx_nb = \<lparr>c_tever = ex_tever_nb, c_reger = reger_nb, c_cues = []\<rparr>"

text \<open>
  A \<open>Tevery\<close> in promiscuous mode that knows the backerless registry, before and after the
  issuance of the credential.
\<close>

definition tevery_nb :: tevery where
  "tevery_nb = \<lparr>y_reger = reger_nb, y_regk = None, y_local = False, y_cues = [],
                 y_tevers = [''Eregistry'' \<mapsto> ex_tever_nb]\<rparr>"

definition reger_iss :: reger where
  "reger_iss = reger_nb\<lparr>tvts := (tvts reger_nb)((''Eregistry:Ecredential'', ''Diss'') \<mapsto> ex_iss),
                         tels := tels reger_nb @ [((''Eregistry:Ecredential'', 0), ''Diss'')],
                         ancs := (ancs reger_nb)((''Eregistry:Ecredential'', ''Diss'') \<mapsto> (2, ''K2'')),
                         tets := insert (''Eregistry:Ecredential'', ''Diss'') (tets reger_nb)\<rparr>"

definition tevery_iss :: tevery where
  "tevery_iss = tevery_nb\<lparr>y_reger := reger_iss\<rparr>"

definition ctx_iss :: tctx where
  "ctx_iss = \<lparr>c_tever = ex_tever_nb, c_reger = reger_iss, c_cues = []\<rparr>"

text \<open>The rotation and the revocation with a prior digest that is not in the log.\<close>

definition ex_vrt_unchained :: serder where
  "ex_vrt_unchained = ex_vrt\<lparr>s_ked := (s_ked ex_vrt)\<lparr>k_p := Some ''Dother''\<rparr>, s_dig := ''Dvrtu''\<rparr>"

definition ex_rev_unchained :: serder where
  "ex_rev_unchained = ex_rev\<lparr>s_ked := (s_ked ex_rev)\<lparr>k_p := Some ''Dother''\<rparr>, s_dig := ''Drevu''\<rparr>"

text \<open>
  The store of \<open>Ebackreg\<close> in which the rotation is already in the anchorless escrow, and
  the verifier on it.
\<close>

definition ctx_b_escrowed :: tctx where
  "ctx_b_escrowed = ctx_b\<lparr>c_reger := reger_b\<lparr>taes := [((''Ebackreg'', 1), ''Dvrt'')]\<rparr>\<rparr>"

text \<open>The verifier of \<open>Ebackreg\<close> on a store whose writes raise.\<close>

definition ctx_b_wfail :: tctx where
  "ctx_b_wfail = ctx_b\<lparr>c_reger := reger_b\<lparr>wfail := True\<rparr>\<rparr>"

text \<open>
  The issuance arrives at the empty \<open>Tevery\<close> before the inception of its registry; then
  the inception arrives; then the escrows are processed.
\<close>

definition tevery_early_iss :: tevery where
  "tevery_early_iss = snd (processEvent ex_env ex_db ex_iss 2 ''K2'' None tevery0)"

definition tevery_then_vcp :: tevery where
  "tevery_then_vcp = snd (processEvent ex_env ex_db ex_vcp 1 ''K1'' None tevery_early_iss)"

definition tevery_drained :: tevery where
  "tevery_drained = processEscrows ex_env ex_db tevery_then_vcp"

section \<open>Ordered sets: basic facts\<close>

lemma set_oset [simp]: "set (oset xs) = set xs"
  by (simp add: oset_def)

lemma distinct_oset [simp]: "distinct (oset xs)"
  by (simp add: oset_def)

lemma length_oset_eq: "length (oset xs) = length xs \<longleftrightarrow> distinct xs"
proof -
  have "length (oset xs) = card (set xs)"
    by (simp add: oset_def length_remdups_card_conv)
  then show ?thesis
    using card_distinct [of xs] distinct_card [of xs] by auto
qed

lemma oset_distinct: "distinct xs \<Longrightarrow> oset xs = xs"
  by (simp add: oset_def distinct_remdups_id)

lemma oset_and_eq_iff: "oset_and a b = b \<longleftrightarrow> set b \<subseteq> set a"
  unfolding oset_and_def filter_id_conv by blast

lemma oset_and_empty_iff: "oset_and a b = [] \<longleftrightarrow> set a \<inter> set b = {}"
  unfolding oset_and_def filter_empty_conv by blast

section \<open>Sequencing\<close>

lemma bnd_pure [simp]:
  "bnd (pure (Inl e)) f s = (Inl e, s)"
  "bnd (pure (Inr a)) f s = f a s"
  by (simp_all add: bnd_def pure_def)

lemma bnd_pure_case:
  "bnd (pure x) f s = (case x of Inl e \<Rightarrow> (Inl e, s) | Inr a \<Rightarrow> f a s)"
  by (simp add: bnd_def pure_def split: sum.splits)

lemma bnd_reading:
  "bnd (reading g) f s = (case g s of Inl e \<Rightarrow> (Inl e, s) | Inr a \<Rightarrow> f a s)"
  by (simp add: bnd_def reading_def split: sum.splits)

lemma bnd_ret [simp]: "bnd (ret a) f s = f a s"
  by (simp add: bnd_def ret_def)

lemma bnd_raise [simp]: "bnd (raise e) f s = (Inl e, s)"
  by (simp add: bnd_def raise_def)

lemma bnd_raise_if:
  "bnd (\<lambda>c. raise_if (b c) e c) f s = (if b s then (Inl e, s) else f () s)"
  "bnd (raise_if b' e) f s = (if b' then (Inl e, s) else f () s)"
  by (simp_all add: bnd_def raise_if_def raise_def ret_def)


lemma bnd_Inr:
  "bnd m f c = (Inr x, c') \<longleftrightarrow> (\<exists>a c1. m c = (Inr a, c1) \<and> f a c1 = (Inr x, c'))"
  by (auto simp: bnd_def split: prod.splits sum.splits)

lemma reading_Inr: "reading g c = (Inr a, c1) \<longleftrightarrow> g c = Inr a \<and> c1 = c"
  by (auto simp: reading_def)

lemma pure_Inr: "pure v c = (Inr a, c1) \<longleftrightarrow> v = Inr a \<and> c1 = c"
  by (auto simp: pure_def)

lemma raise_if_Inr: "raise_if b e c = (Inr a, c1) \<longleftrightarrow> \<not> b \<and> c1 = c"
  by (auto simp: raise_if_def raise_def ret_def)

lemma raise_not_Inr [simp]: "raise e c \<noteq> (Inr a, c1)"
  by (simp add: raise_def)

lemmas ex_defs = ex_env_def ex_validateSN_def ex_int16_def hexdig_def ex_verifySigs_def
  ex_vcp_def ex_iss_def ex_rev_def ex_seal_def ex_db_def reger0_def tevery0_def
  ex_vcp_b_def ex_tever_b_def reger_b_def ctx_b_def ex_vrt_def ex_vrt_bad_def ked0_def
  ex_tever_nb_def reger_nb_def ctx_nb_def tevery_nb_def reger_iss_def tevery_iss_def
  ctx_iss_def ex_vrt_unchained_def ex_rev_unchained_def ctx_b_escrowed_def
  ctx_b_wfail_def

lemmas monad_defs = bnd_def pure_def ret_def raise_def reading_def raise_if_def on_reger_def
  getitem_def ebind_def efail_if_def writing_def

lemmas eval_defs = update_def update_vrt_def issue_def issue_iss_def issue_bis_def revoke_def
  revoke_rev_def revoke_brv_def Tever_rotate_def valAnchorBigs_def missing_anchor_def
  check_witnessed_def external_event_def toad_int_def verifyAnchor_def seal_matches_def
  logEvent_def escrowALEvent_def escrowPWEvent_def replace_baks_def pin_state_def Tever_state_def
  state_def state_toad_def assign_rotation_def prior_event_def getBackerState_def
  putAnc_def putTvt_def putTel_def putTae_def putTwe_def putOot_def putTibs_def putBaks_def
  delBaks_def pinTets_def pinStates_def getTibs_def getBaks_def
  truthy_def truthy_str_def olist_def put_new_def aput_new_def append_cue_def
  missing_label_def has_label_def ISS_LABELS_def BIS_LABELS_def REV_LABELS_def BRV_LABELS_def
  VCP_LABELS_def nsKey_def Serder_pre_def Serder_compare_def hex_toad_def toad_bad_def
  rotate_baks_def oset_def oset_and_def oset_or_def oset_sub_def Ilks_defs NoBackers_def


section \<open>Cuts and adds\<close>

lemma length_filter_notin:
  assumes "distinct B" "distinct C" "set C \<subseteq> set B"
  shows "length (filter (\<lambda>x. x \<notin> set C) B) + length C = length B"
proof -
  have "distinct (filter (\<lambda>x. x \<notin> set C) B)"
    using assms(1) by simp
  then have "length (filter (\<lambda>x. x \<notin> set C) B) = card (set (filter (\<lambda>x. x \<notin> set C) B))"
    by (rule distinct_card [symmetric])
  also have "set (filter (\<lambda>x. x \<notin> set C) B) = set B - set C" by auto
  also have "card (set B - set C) = card (set B) - card (set C)"
    using assms(3) by (simp add: card_Diff_subset)
  finally have "length (filter (\<lambda>x. x \<notin> set C) B) = length B - length C"
    using assms(1,2) by (simp add: distinct_card)
  moreover have "length C \<le> length B"
    using assms by (metis card_mono distinct_card List.finite_set)
  ultimately show ?thesis by simp
qed

lemma rotate_baks_eq:
  assumes "distinct C" "distinct A" "set C \<inter> set A = {}" "set B \<inter> set A = {}"
  shows "rotate_baks B C A = filter (\<lambda>x. x \<notin> set C) (oset B) @ A"
proof -
  have d: "distinct (filter (\<lambda>x. x \<notin> set C) (oset B) @ A)"
    using assms by auto
  show ?thesis
    unfolding rotate_baks_def oset_or_def oset_sub_def
    using d assms(1,2) by (simp add: oset_distinct)
qed

lemma rotate_baks_props:
  assumes "distinct C" "distinct A" "set C \<subseteq> set B" "set C \<inter> set A = {}" "set B \<inter> set A = {}"
    and len: "int (length (rotate_baks B C A)) = int (length B) - int (length C) + int (length A)"
  shows "distinct B" and "rotate_baks B C A = filter (\<lambda>x. x \<notin> set C) B @ A"
proof -
  have e: "rotate_baks B C A = filter (\<lambda>x. x \<notin> set C) (oset B) @ A"
    using assms by (simp add: rotate_baks_eq)
  have "length (filter (\<lambda>x. x \<notin> set C) (oset B)) + length C = length (oset B)"
    using assms by (intro length_filter_notin) auto
  with len e have "length (oset B) = length B" by simp
  then show "distinct B" by (simp add: length_oset_eq)
  then show "rotate_baks B C A = filter (\<lambda>x. x \<notin> set C) B @ A"
    using e by (simp add: oset_distinct)
qed

lemma rotate_baks_len:
  assumes "distinct B" "distinct C" "distinct A" "set C \<subseteq> set B" "set C \<inter> set A = {}" "set B \<inter> set A = {}"
  shows "int (length (rotate_baks B C A)) = int (length B) - int (length C) + int (length A)"
proof -
  have e: "rotate_baks B C A = filter (\<lambda>x. x \<notin> set C) (oset B) @ A"
    using assms by (simp add: rotate_baks_eq)
  have "length (filter (\<lambda>x. x \<notin> set C) B) + length C = length B"
    using assms by (intro length_filter_notin) auto
  then show ?thesis using e assms(1) by (simp add: oset_distinct)
qed

lemma rotate_newbakset_eq: "rotate_newbakset B C A = rotate_baks B C A"
  by (simp add: rotate_newbakset_def rotate_baks_def)

lemma rotate_ctor_accept:
  assumes "rotate E regk dig sn toad baks cuts adds vs = Inr k"
  shows "distinct (olist baks) \<and> distinct (olist cuts) \<and> distinct (olist adds) \<and>
         set (olist cuts) \<subseteq> set (olist baks) \<and>
         set (olist cuts) \<inter> set (olist adds) = {} \<and>
         set (olist baks) \<inter> set (olist adds) = {} \<and>
         k_br k = Some (olist cuts) \<and> k_ba k = Some (olist adds)"
  using assms
  by (auto simp: rotate_def rotate_toad_def rotate_ked_def Let_def olist_def length_oset_eq
      oset_and_eq_iff oset_and_empty_iff
      split: if_splits sum.splits option.splits)

lemma rotate_ctor_reject:
  assumes "\<not> (distinct (olist baks) \<and> set (olist cuts) \<subseteq> set (olist baks) \<and>
         set (olist cuts) \<inter> set (olist adds) = {} \<and>
         set (olist baks) \<inter> set (olist adds) = {})"
  shows "rotate E regk dig sn toad baks cuts adds vs = Inl ValueError"
  using assms
  by (auto simp: rotate_def rotate_toad_def Let_def olist_def length_oset_eq
      oset_and_eq_iff oset_and_empty_iff
      split: if_splits sum.splits option.splits)

lemma Tever_rotate_Inr:
  assumes "Tever_rotate E t srd sn = Inr r"
  shows "\<exists>cuts adds bt toad.
           k_br (s_ked srd) = Some cuts \<and> k_ba (s_ked srd) = Some adds \<and>
           k_bt (s_ked srd) = Some bt \<and>
           k_i (s_ked srd) = Some (t_prefixer t) \<and> sn = t_sn t + 1 \<and>
           k_p (s_ked srd) = Some (s_dig (t_serder t)) \<and>
           distinct cuts \<and> distinct adds \<and> set cuts \<subseteq> set (t_baks t) \<and>
           set cuts \<inter> set adds = {} \<and> set (t_baks t) \<inter> set adds = {} \<and>
           int (length (rotate_baks (t_baks t) cuts adds)) =
             int (length (t_baks t)) - int (length cuts) + int (length adds) \<and>
           hex_toad E bt (rotate_baks (t_baks t) cuts adds) = Inr toad \<and>
           r = (toad, rotate_baks (t_baks t) cuts adds, cuts, adds)"
  using assms
  by (auto simp: Tever_rotate_def Serder_pre_def Serder_compare_def getitem_def length_oset_eq
      oset_and_eq_iff oset_and_empty_iff
      split: if_splits sum.splits option.splits)

lemma Tever_rotate_reject:
  assumes "k_p (s_ked srd) \<noteq> None" "k_i (s_ked srd) \<noteq> None"
    and "k_br (s_ked srd) = Some cuts" "k_ba (s_ked srd) = Some adds"
    and "\<not> (distinct (t_baks t) \<and> set cuts \<subseteq> set (t_baks t) \<and> set cuts \<inter> set adds = {} \<and>
           set (t_baks t) \<inter> set adds = {})"
  shows "Tever_rotate E t srd sn = Inl ValidationError"
proof (cases "Tever_rotate E t srd sn")
  case (Inr r)
  from Tever_rotate_Inr [OF Inr] assms(3,4)
  have c: "distinct cuts" "distinct adds" "set cuts \<subseteq> set (t_baks t)"
    "set cuts \<inter> set adds = {}" "set (t_baks t) \<inter> set adds = {}"
    "int (length (rotate_baks (t_baks t) cuts adds)) =
             int (length (t_baks t)) - int (length cuts) + int (length adds)"
    by auto
  from rotate_baks_props(1) [OF c] c assms(5) show ?thesis by blast
next
  case (Inl e)
  have "e = ValidationError"
    using Inl assms(1-5) rotate_baks_props(1) [of cuts adds "t_baks t"]
    by (auto simp: Tever_rotate_def Serder_pre_def Serder_compare_def getitem_def length_oset_eq
      oset_and_eq_iff oset_and_empty_iff hex_toad_def
      split: if_splits sum.splits option.splits)
  with Inl show ?thesis by simp
qed

lemma update_vrt_rotate_fails:
  assumes "k_t (s_ked srd) = Some Ilks_vrt"
    and "\<And>sn. \<exists>e. Tever_rotate E (c_tever c) srd sn = Inl e"
  shows "\<exists>e. update E db srd seqner diger bigers c = (Inl e, c)"
proof (cases "k_s (s_ked srd)")
  case None
  then show ?thesis using assms(1) by (simp add: update_def getitem_def)
next
  case (Some s)
  show ?thesis
  proof (cases "validateSN E s (Ilks_vrt \<in> {Ilks_iss, Ilks_bis})")
    case (Inl e)
    then show ?thesis using assms(1) Some by (simp add: update_def getitem_def)
  next
    case (Inr sn)
    from assms(2) obtain e where "Tever_rotate E (c_tever c) srd sn = Inl e" by blast
    then show ?thesis using Inr assms(1) Some
      by (simp add: update_def getitem_def update_vrt_def bnd_raise_if bnd_reading)
  qed
qed

lemma Tever_rotate_violation:
  assumes "\<not> (distinct (t_baks t) \<and> set (olist (k_br (s_ked srd))) \<subseteq> set (t_baks t) \<and>
              set (olist (k_br (s_ked srd))) \<inter> set (olist (k_ba (s_ked srd))) = {} \<and>
              set (t_baks t) \<inter> set (olist (k_ba (s_ked srd))) = {})"
  shows "\<exists>e. Tever_rotate E t srd sn = Inl e"
proof (cases "Tever_rotate E t srd sn")
  case (Inr r)
  from Tever_rotate_Inr [OF Inr] obtain cuts adds where
    c: "k_br (s_ked srd) = Some cuts" "k_ba (s_ked srd) = Some adds"
       "distinct cuts" "distinct adds" "set cuts \<subseteq> set (t_baks t)"
       "set cuts \<inter> set adds = {}" "set (t_baks t) \<inter> set adds = {}"
       "int (length (rotate_baks (t_baks t) cuts adds)) =
             int (length (t_baks t)) - int (length cuts) + int (length adds)"
    by blast
  have "distinct (t_baks t)" using c(3-8) by (rule rotate_baks_props(1))
  with c assms show ?thesis by (simp add: olist_def)
qed blast

lemma Tever_rotate_accept:
  assumes "Tever_rotate E t srd sn = Inr (toad, bs, cuts, adds)"
  shows "k_br (s_ked srd) = Some cuts \<and> k_ba (s_ked srd) = Some adds \<and>
         distinct bs \<and> distinct (t_baks t) \<and> set cuts \<subseteq> set (t_baks t) \<and>
         set cuts \<inter> set adds = {} \<and> set (t_baks t) \<inter> set adds = {} \<and>
         bs = filter (\<lambda>b. b \<notin> set cuts) (t_baks t) @ adds \<and>
         set bs = (set (t_baks t) - set cuts) \<union> set adds \<and>
         int (length bs) = int (length (t_baks t)) - int (length cuts) + int (length adds)"
proof -
  from Tever_rotate_Inr [OF assms] have
    c: "k_br (s_ked srd) = Some cuts" "k_ba (s_ked srd) = Some adds"
       "distinct cuts" "distinct adds" "set cuts \<subseteq> set (t_baks t)"
       "set cuts \<inter> set adds = {}" "set (t_baks t) \<inter> set adds = {}"
       "int (length (rotate_baks (t_baks t) cuts adds)) =
             int (length (t_baks t)) - int (length cuts) + int (length adds)"
       "bs = rotate_baks (t_baks t) cuts adds"
    by auto
  have d: "distinct (t_baks t)" using c(3-8) by (rule rotate_baks_props(1))
  have e: "bs = filter (\<lambda>b. b \<notin> set cuts) (t_baks t) @ adds"
    unfolding c(9) using c(3-8) by (rule rotate_baks_props(2))
  have "distinct bs" unfolding e using d c(4,7) by auto
  moreover have "set bs = (set (t_baks t) - set cuts) \<union> set adds" unfolding e by auto
  ultimately show ?thesis using c d e by simp
qed

lemma rotate_ctor_newbakset:
  assumes "rotate E regk dig sn toad baks cuts adds vs = Inr k"
  shows "rotate_newbakset (olist baks) (olist cuts) (olist adds) =
           filter (\<lambda>b. b \<notin> set (olist cuts)) (olist baks) @ olist adds \<and>
         distinct (rotate_newbakset (olist baks) (olist cuts) (olist adds)) \<and>
         set (rotate_newbakset (olist baks) (olist cuts) (olist adds)) =
           (set (olist baks) - set (olist cuts)) \<union> set (olist adds) \<and>
         int (length (rotate_newbakset (olist baks) (olist cuts) (olist adds))) =
           int (length (olist baks)) - int (length (olist cuts)) + int (length (olist adds))"
proof -
  let ?B = "olist baks" and ?C = "olist cuts" and ?A = "olist adds"
  from rotate_ctor_accept [OF assms] have
    c: "distinct ?B" "distinct ?C" "distinct ?A" "set ?C \<subseteq> set ?B" "set ?C \<inter> set ?A = {}"
       "set ?B \<inter> set ?A = {}"
    by auto
  have l: "int (length (rotate_baks ?B ?C ?A)) = int (length ?B) - int (length ?C) + int (length ?A)"
    using c by (rule rotate_baks_len)
  have e: "rotate_baks ?B ?C ?A = filter (\<lambda>b. b \<notin> set ?C) ?B @ ?A"
    using c(2,3,4,5,6) l by (rule rotate_baks_props(2))
  have "distinct (filter (\<lambda>b. b \<notin> set ?C) ?B @ ?A)" using c by auto
  moreover have "set (filter (\<lambda>b. b \<notin> set ?C) ?B @ ?A) = (set ?B - set ?C) \<union> set ?A" by auto
  ultimately show ?thesis using l e by (simp add: rotate_newbakset_eq)
qed

text \<open>
  Claim C5, for the constructor \<open>rotate\<close> and for \<open>Tever.rotate\<close>. An accepted rotation has
  duplicate-free previous backers, cuts that are all previous backers, cuts disjoint from
  adds and previous backers disjoint from adds; the new list is the previous backers
  without the cuts, followed by the adds, it has no duplicates and its length is
  \<open>|baks| - |br| + |ba|\<close>. A rotation that breaks one of the conditions raises: the
  constructor \<open>ValueError\<close>, \<open>Tever.rotate\<close> an exception that is \<open>ValidationError\<close> when the
  event has its labels, and \<open>update\<close> on such a \<open>vrt\<close> raises and leaves the verifier, the
  store and the cues as they were.
\<close>

theorem rotation_backers:
  "(rotate E regk dig sn toad baks cuts adds vs = Inr k \<longrightarrow>
      k_br k = Some (olist cuts) \<and> k_ba k = Some (olist adds) \<and>
      distinct (olist baks) \<and> set (olist cuts) \<subseteq> set (olist baks) \<and>
      set (olist cuts) \<inter> set (olist adds) = {} \<and> set (olist baks) \<inter> set (olist adds) = {} \<and>
      rotate_newbakset (olist baks) (olist cuts) (olist adds) =
        filter (\<lambda>b. b \<notin> set (olist cuts)) (olist baks) @ olist adds \<and>
      distinct (rotate_newbakset (olist baks) (olist cuts) (olist adds)) \<and>
      set (rotate_newbakset (olist baks) (olist cuts) (olist adds)) =
        (set (olist baks) - set (olist cuts)) \<union> set (olist adds) \<and>
      int (length (rotate_newbakset (olist baks) (olist cuts) (olist adds))) =
        int (length (olist baks)) - int (length (olist cuts)) + int (length (olist adds))) \<and>
   (\<not> (distinct (olist baks) \<and> set (olist cuts) \<subseteq> set (olist baks) \<and>
        set (olist cuts) \<inter> set (olist adds) = {} \<and> set (olist baks) \<inter> set (olist adds) = {}) \<longrightarrow>
      rotate E regk dig sn toad baks cuts adds vs = Inl ValueError) \<and>
   (Tever_rotate E t srd n = Inr (toad', bs, cs, as) \<longrightarrow>
      k_br (s_ked srd) = Some cs \<and> k_ba (s_ked srd) = Some as \<and>
      distinct bs \<and> distinct (t_baks t) \<and> set cs \<subseteq> set (t_baks t) \<and>
      set cs \<inter> set as = {} \<and> set (t_baks t) \<inter> set as = {} \<and>
      bs = filter (\<lambda>b. b \<notin> set cs) (t_baks t) @ as \<and>
      set bs = (set (t_baks t) - set cs) \<union> set as \<and>
      int (length bs) = int (length (t_baks t)) - int (length cs) + int (length as)) \<and>
   (\<not> (distinct (t_baks t) \<and> set (olist (k_br (s_ked srd))) \<subseteq> set (t_baks t) \<and>
        set (olist (k_br (s_ked srd))) \<inter> set (olist (k_ba (s_ked srd))) = {} \<and>
        set (t_baks t) \<inter> set (olist (k_ba (s_ked srd))) = {}) \<longrightarrow>
      (\<exists>e. Tever_rotate E t srd n = Inl e) \<and>
      (k_p (s_ked srd) \<noteq> None \<and> k_i (s_ked srd) \<noteq> None \<and> k_br (s_ked srd) \<noteq> None \<and>
       k_ba (s_ked srd) \<noteq> None \<longrightarrow> Tever_rotate E t srd n = Inl ValidationError) \<and>
      (k_t (s_ked srd) = Some Ilks_vrt \<and> c_tever c = t \<longrightarrow>
         (\<exists>e. update E db srd seqner diger bigers c = (Inl e, c))))"
proof -
  have p1: "rotate E regk dig sn toad baks cuts adds vs = Inr k \<longrightarrow>
      k_br k = Some (olist cuts) \<and> k_ba k = Some (olist adds) \<and>
      distinct (olist baks) \<and> set (olist cuts) \<subseteq> set (olist baks) \<and>
      set (olist cuts) \<inter> set (olist adds) = {} \<and> set (olist baks) \<inter> set (olist adds) = {} \<and>
      rotate_newbakset (olist baks) (olist cuts) (olist adds) =
        filter (\<lambda>b. b \<notin> set (olist cuts)) (olist baks) @ olist adds \<and>
      distinct (rotate_newbakset (olist baks) (olist cuts) (olist adds)) \<and>
      set (rotate_newbakset (olist baks) (olist cuts) (olist adds)) =
        (set (olist baks) - set (olist cuts)) \<union> set (olist adds) \<and>
      int (length (rotate_newbakset (olist baks) (olist cuts) (olist adds))) =
        int (length (olist baks)) - int (length (olist cuts)) + int (length (olist adds))"
  proof
    assume a: "rotate E regk dig sn toad baks cuts adds vs = Inr k"
    show "k_br k = Some (olist cuts) \<and> k_ba k = Some (olist adds) \<and>
      distinct (olist baks) \<and> set (olist cuts) \<subseteq> set (olist baks) \<and>
      set (olist cuts) \<inter> set (olist adds) = {} \<and> set (olist baks) \<inter> set (olist adds) = {} \<and>
      rotate_newbakset (olist baks) (olist cuts) (olist adds) =
        filter (\<lambda>b. b \<notin> set (olist cuts)) (olist baks) @ olist adds \<and>
      distinct (rotate_newbakset (olist baks) (olist cuts) (olist adds)) \<and>
      set (rotate_newbakset (olist baks) (olist cuts) (olist adds)) =
        (set (olist baks) - set (olist cuts)) \<union> set (olist adds) \<and>
      int (length (rotate_newbakset (olist baks) (olist cuts) (olist adds))) =
        int (length (olist baks)) - int (length (olist cuts)) + int (length (olist adds))"
      by (insert rotate_ctor_accept [OF a] rotate_ctor_newbakset [OF a], elim conjE,
          intro conjI; assumption)
  qed
  have p2: "\<not> (distinct (olist baks) \<and> set (olist cuts) \<subseteq> set (olist baks) \<and>
        set (olist cuts) \<inter> set (olist adds) = {} \<and> set (olist baks) \<inter> set (olist adds) = {}) \<longrightarrow>
      rotate E regk dig sn toad baks cuts adds vs = Inl ValueError"
    using rotate_ctor_reject [of baks cuts adds E regk dig sn toad vs] by (rule impI)
  have p3: "Tever_rotate E t srd n = Inr (toad', bs, cs, as) \<longrightarrow>
      k_br (s_ked srd) = Some cs \<and> k_ba (s_ked srd) = Some as \<and>
      distinct bs \<and> distinct (t_baks t) \<and> set cs \<subseteq> set (t_baks t) \<and>
      set cs \<inter> set as = {} \<and> set (t_baks t) \<inter> set as = {} \<and>
      bs = filter (\<lambda>b. b \<notin> set cs) (t_baks t) @ as \<and>
      set bs = (set (t_baks t) - set cs) \<union> set as \<and>
      int (length bs) = int (length (t_baks t)) - int (length cs) + int (length as)"
    using Tever_rotate_accept [of E t srd n toad' bs cs as] by (rule impI)
  have p4: "\<not> (distinct (t_baks t) \<and> set (olist (k_br (s_ked srd))) \<subseteq> set (t_baks t) \<and>
        set (olist (k_br (s_ked srd))) \<inter> set (olist (k_ba (s_ked srd))) = {} \<and>
        set (t_baks t) \<inter> set (olist (k_ba (s_ked srd))) = {}) \<longrightarrow>
      (\<exists>e. Tever_rotate E t srd n = Inl e) \<and>
      (k_p (s_ked srd) \<noteq> None \<and> k_i (s_ked srd) \<noteq> None \<and> k_br (s_ked srd) \<noteq> None \<and>
       k_ba (s_ked srd) \<noteq> None \<longrightarrow> Tever_rotate E t srd n = Inl ValidationError) \<and>
      (k_t (s_ked srd) = Some Ilks_vrt \<and> c_tever c = t \<longrightarrow>
         (\<exists>e. update E db srd seqner diger bigers c = (Inl e, c)))"
  proof (intro impI conjI)
    assume v: "\<not> (distinct (t_baks t) \<and> set (olist (k_br (s_ked srd))) \<subseteq> set (t_baks t) \<and>
        set (olist (k_br (s_ked srd))) \<inter> set (olist (k_ba (s_ked srd))) = {} \<and>
        set (t_baks t) \<inter> set (olist (k_ba (s_ked srd))) = {})"
    show "\<exists>e. Tever_rotate E t srd n = Inl e"
      using v by (rule Tever_rotate_violation)
    {
      assume l: "k_p (s_ked srd) \<noteq> None \<and> k_i (s_ked srd) \<noteq> None \<and> k_br (s_ked srd) \<noteq> None \<and>
         k_ba (s_ked srd) \<noteq> None"
      then obtain cuts' adds' where
        ca: "k_br (s_ked srd) = Some cuts'" "k_ba (s_ked srd) = Some adds'" by auto
      have "\<not> (distinct (t_baks t) \<and> set cuts' \<subseteq> set (t_baks t) \<and> set cuts' \<inter> set adds' = {} \<and>
           set (t_baks t) \<inter> set adds' = {})"
        using v ca by (simp add: olist_def)
      with l ca show "Tever_rotate E t srd n = Inl ValidationError"
        by (intro Tever_rotate_reject [where cuts = cuts' and adds = adds']) simp_all
    }
    {
      assume u: "k_t (s_ked srd) = Some Ilks_vrt \<and> c_tever c = t"
      have "\<And>sn. \<exists>e. Tever_rotate E (c_tever c) srd sn = Inl e"
        using v u by (simp add: Tever_rotate_violation)
      with u show "\<exists>e. update E db srd seqner diger bigers c = (Inl e, c)"
        by (intro update_vrt_rotate_fails) simp_all
    }
  qed
  show ?thesis
    by (intro conjI) (rule p1, rule p2, rule p3, rule p4)
qed

theorem rotation_backers_witness:
  "rotate ex_env ''Ebackreg'' ''Dvcpb'' 1 ToadNone (Some [''B1'', ''B2'', ''B3'']) (Some [''B2''])
       (Some [''B4'']) ''KERI10JSON000000_''
     = Inr (rotate_ked ''KERI10JSON000000_'' ''Ebackreg'' ''Dvcpb'' 1 3 [''B2''] [''B4'']) \<and>
   rotate_newbakset [''B1'', ''B2'', ''B3''] [''B2''] [''B4''] = [''B1'', ''B3'', ''B4''] \<and>
   rotate ex_env ''Ebackreg'' ''Dvcpb'' 1 ToadNone (Some [''B1'', ''B2'', ''B3'']) (Some [''B9''])
       (Some [''B4'']) ''KERI10JSON000000_'' = Inl ValueError \<and>
   Tever_rotate ex_env ex_tever_b ex_vrt 1 = Inr (2, [''B1'', ''B3'', ''B4''], [''B2''], [''B4'']) \<and>
   t_baks ex_tever_b = [''B1'', ''B2'', ''B3''] \<and>
   Tever_rotate ex_env ex_tever_b ex_vrt_bad 1 = Inl ValidationError \<and>
   update ex_env ex_db ex_vrt_bad 5 ''K5'' None ctx_b = (Inl ValidationError, ctx_b)"
proof -
  note T = rotation_backers [where E = ex_env and regk = "''Ebackreg''" and dig = "''Dvcpb''" and sn = 1
      and toad = ToadNone and baks = "Some [''B1'', ''B2'', ''B3'']" and cuts = "Some [''B2'']"
      and adds = "Some [''B4'']" and vs = "''KERI10JSON000000_''"
      and k = "rotate_ked ''KERI10JSON000000_'' ''Ebackreg'' ''Dvcpb'' 1 3 [''B2''] [''B4'']"
      and t = ex_tever_b and srd = ex_vrt and n = 1 and toad' = 2
      and bs = "[''B1'', ''B3'', ''B4'']" and cs = "[''B2'']" and as = "[''B4'']"]
  note U = rotation_backers [where E = ex_env and regk = "''Ebackreg''" and dig = "''Dvcpb''" and sn = 1
      and toad = ToadNone and baks = "Some [''B1'', ''B2'', ''B3'']" and cuts = "Some [''B9'']"
      and adds = "Some [''B4'']" and vs = "''KERI10JSON000000_''"
      and t = ex_tever_b and srd = ex_vrt_bad and n = 1 and c = ctx_b and db = ex_db
      and seqner = 5 and diger = "''K5''" and bigers = None]
  have a1: "rotate ex_env ''Ebackreg'' ''Dvcpb'' 1 ToadNone (Some [''B1'', ''B2'', ''B3'']) (Some [''B2''])
       (Some [''B4'']) ''KERI10JSON000000_''
     = Inr (rotate_ked ''KERI10JSON000000_'' ''Ebackreg'' ''Dvcpb'' 1 3 [''B2''] [''B4''])"
    by (simp add: rotate_def rotate_toad_def rotate_newbakset_def toad_default_def toad_bad_def
        oset_def oset_or_def oset_sub_def oset_and_def ex_env_def)
  have n1: "rotate_newbakset [''B1'', ''B2'', ''B3''] [''B2''] [''B4''] = [''B1'', ''B3'', ''B4'']"
    using T [THEN conjunct1, THEN mp, OF a1] by (simp add: olist_def)
  have a2: "\<not> (distinct (olist (Some [''B1'', ''B2'', ''B3''])) \<and>
              set (olist (Some [''B9''])) \<subseteq> set (olist (Some [''B1'', ''B2'', ''B3''])) \<and>
              set (olist (Some [''B9''])) \<inter> set (olist (Some [''B4''])) = {} \<and>
              set (olist (Some [''B1'', ''B2'', ''B3''])) \<inter> set (olist (Some [''B4''])) = {})"
    by (simp add: olist_def)
  have r2: "rotate ex_env ''Ebackreg'' ''Dvcpb'' 1 ToadNone (Some [''B1'', ''B2'', ''B3'']) (Some [''B9''])
       (Some [''B4'']) ''KERI10JSON000000_'' = Inl ValueError"
    using U [THEN conjunct2, THEN conjunct1, THEN mp, OF a2] .
  have a3: "Tever_rotate ex_env ex_tever_b ex_vrt 1 = Inr (2, [''B1'', ''B3'', ''B4''], [''B2''], [''B4''])"
    by (simp add: Tever_rotate_def ex_tever_b_def ex_vrt_def ex_vcp_b_def ked0_def Serder_pre_def
        Serder_compare_def getitem_def oset_def oset_and_def oset_or_def oset_sub_def
        rotate_baks_def hex_toad_def toad_bad_def ex_env_def ex_int16_def hexdig_def)
  have b3: "t_baks ex_tever_b = [''B1'', ''B2'', ''B3'']"
    using T [THEN conjunct2, THEN conjunct2, THEN conjunct1, THEN mp, OF a3]
    by (simp add: ex_tever_b_def)
  have a4: "\<not> (distinct (t_baks ex_tever_b) \<and>
              set (olist (k_br (s_ked ex_vrt_bad))) \<subseteq> set (t_baks ex_tever_b) \<and>
              set (olist (k_br (s_ked ex_vrt_bad))) \<inter> set (olist (k_ba (s_ked ex_vrt_bad))) = {} \<and>
              set (t_baks ex_tever_b) \<inter> set (olist (k_ba (s_ked ex_vrt_bad))) = {})"
    by (simp add: olist_def ex_tever_b_def ex_vrt_bad_def ked0_def)
  note V = U [THEN conjunct2, THEN conjunct2, THEN conjunct2, THEN mp, OF a4]
  have l4: "k_p (s_ked ex_vrt_bad) \<noteq> None \<and> k_i (s_ked ex_vrt_bad) \<noteq> None \<and>
            k_br (s_ked ex_vrt_bad) \<noteq> None \<and> k_ba (s_ked ex_vrt_bad) \<noteq> None"
    by (simp add: ex_vrt_bad_def ked0_def)
  have r4: "Tever_rotate ex_env ex_tever_b ex_vrt_bad 1 = Inl ValidationError"
    using V [THEN conjunct2, THEN conjunct1, THEN mp, OF l4] .
  have u4: "k_t (s_ked ex_vrt_bad) = Some Ilks_vrt \<and> c_tever ctx_b = ex_tever_b"
    by (simp add: ex_vrt_bad_def ked0_def Ilks_vrt_def ctx_b_def)
  from V [THEN conjunct2, THEN conjunct2, THEN mp, OF u4]
  obtain e where e: "update ex_env ex_db ex_vrt_bad 5 ''K5'' None ctx_b = (Inl e, ctx_b)" by blast
  have "fst (update ex_env ex_db ex_vrt_bad 5 ''K5'' None ctx_b) = Inl ValidationError"
    using r4
    by (simp add: update_def update_vrt_def monad_defs ex_vrt_bad_def ked0_def Ilks_defs ex_env_def
        ex_validateSN_def ex_int16_def hexdig_def ctx_b_def ex_tever_b_def)
  with e have r5: "update ex_env ex_db ex_vrt_bad 5 ''K5'' None ctx_b = (Inl ValidationError, ctx_b)"
    by simp
  show ?thesis
    by (intro conjI) (rule a1, rule n1, rule r2, rule a3, rule b3, rule r4, rule r5)
qed

section \<open>The query constructor\<close>

text \<open>
  Claim C9 says that the \<open>dta\<close> field of the query mapping carries the \<open>dta\<close> argument and
  the \<open>dtb\<close> field the \<open>dtb\<close> argument. The code assigns \<open>dt\<close> to both: called with no
  \<open>dt\<close>, a \<open>dta\<close> and a \<open>dtb\<close>, \<open>query\<close> builds a mapping whose \<open>dta\<close> and \<open>dtb\<close> are
  \<open>None\<close>, and neither argument appears in it.
\<close>

theorem query_dta_dtb_carry_dt:
  "q_q (query ''Eregistry'' ''Ecredential'' ''tels'' '''' None
          (Some ''2021-01-01T00:00:00.000000+00:00'') (Some ''2021-12-31T00:00:00.000000+00:00'') None)
     = [(''i'', Some ''Ecredential''), (''ri'', Some ''Eregistry''), (''dta'', None), (''dtb'', None)]"
  by (simp add: query_def core_query_def)

section \<open>A string threshold in the constructors\<close>

text \<open>
  Claim C10: \<open>incept\<close> and \<open>rotate\<close> called with a \<open>toad\<close> that is a string raise before
  they build the event, whatever the string and the other arguments are; so only an
  integer or an omitted \<open>toad\<close> can produce an event.
\<close>

theorem toad_str_raises:
  "incept E pre (ToadStr s) baks cnfg vs = Inl ValueError \<and>
   rotate E regk dig sn (ToadStr s) baks cuts adds vs = Inl ValueError"
  by (simp add: incept_def rotate_def rotate_toad_def toad_default_def Let_def)

theorem toad_str_raises_witness:
  "incept ex_env ''Eissuer'' (ToadStr ''1'') (Some [''B1'']) None ''KERI10JSON000000_'' = Inl ValueError \<and>
   rotate ex_env ''Eregistry'' ''Dvcp'' 1 (ToadStr ''1'') (Some [''B1'']) None None ''KERI10JSON000000_'' = Inl ValueError \<and>
   (\<exists>k. incept ex_env ''Eissuer'' (ToadInt 1) (Some [''B1'']) None ''KERI10JSON000000_'' = Inr k) \<and>
   (\<exists>k. incept ex_env ''Eissuer'' ToadNone (Some [''B1'']) None ''KERI10JSON000000_'' = Inr k)"
  using toad_str_raises [where E = ex_env and pre = "''Eissuer''" and s = "''1''"
      and baks = "Some [''B1'']" and cnfg = None and vs = "''KERI10JSON000000_''"
      and regk = "''Eregistry''" and dig = "''Dvcp''" and sn = 1 and cuts = None and adds = None]
  by (simp add: incept_def incept_derive_def toad_default_def toad_bad_def oset_def ex_env_def NoBackers_def)

section \<open>verifyAnchor\<close>

lemma seal_matches_True:
  "seal_matches seal srd = Inr True \<longleftrightarrow>
     (\<exists>i s. map_of seal ''i'' = Some i \<and> k_i (s_ked srd) = Some i \<and>
            map_of seal ''s'' = Some s \<and> k_s (s_ked srd) = Some s \<and>
            map_of seal ''d'' = Some (s_dig srd))"
  by (auto simp: seal_matches_def split: option.splits)

lemma verifyAnchor_True:
  "verifyAnchor db t srd seqner diger = Inr True \<longleftrightarrow>
     (\<exists>dig e seal i s.
        kels db (t_pre t, seqner) = Some dig \<and> dig \<noteq> [] \<and>
        evts db (t_pre t, dig) = Some e \<and> ke_dig e = diger \<and>
        ke_a e = ASeals [seal] \<and>
        map_of seal ''i'' = Some i \<and> k_i (s_ked srd) = Some i \<and>
        map_of seal ''s'' = Some s \<and> k_s (s_ked srd) = Some s \<and>
        map_of seal ''d'' = Some (s_dig srd))"
  unfolding verifyAnchor_def
  by (auto simp: seal_matches_True length_Suc_conv split: option.splits anchors.splits)

text \<open>
  Claim C3 says that \<open>verifyAnchor\<close> returns \<open>True\<close> exactly when the key event exists, its
  digest is \<open>diger\<close>, its \<open>a\<close> holds exactly one seal and that seal matches the event, and
  \<open>False\<close> in every other case. The first half is \<open>verifyAnchor_True\<close>. The second half
  fails: for a key event whose single seal is a digest seal \<open>{d}\<close>, \<open>seal["i"]\<close> raises
  \<open>KeyError\<close> and \<open>verifyAnchor\<close> returns nothing.
\<close>

theorem verifyAnchor_digest_seal:
  "verifyAnchor ex_db ex_tever_b ex_vrt 6 ''K6'' = Inl KeyError"
  by (simp add: verifyAnchor_def seal_matches_def ex_db_def ex_tever_b_def)

section \<open>Backerless and backer-based registries\<close>

lemma update_vrt_noBackers:
  assumes "t_noBackers (c_tever c)" "k_t (s_ked srd) = Some Ilks_vrt"
  shows "\<exists>e. update E db srd seqner diger bigers c = (Inl e, c)"
  using assms
  by (auto simp: update_def update_vrt_def getitem_def bnd_pure_case bnd_raise_if split: option.splits sum.splits)

lemma issue_wrong_kind:
  assumes "k_t (s_ked srd) = Some ilk"
    and "(ilk = Ilks_bis \<and> t_noBackers (c_tever c)) \<or> (ilk = Ilks_iss \<and> \<not> t_noBackers (c_tever c))"
  shows "\<exists>e. issue E db srd seqner diger sn bigers c = (Inl e, c)"
  using assms
  by (auto simp: issue_def issue_iss_def issue_bis_def getitem_def bnd_pure_case bnd_raise_if bnd_reading
      raise_def Ilks_defs split: option.splits sum.splits)

lemma revoke_wrong_kind:
  assumes "k_t (s_ked srd) = Some ilk"
    and "(ilk = Ilks_brv \<and> t_noBackers (c_tever c)) \<or> (ilk = Ilks_rev \<and> \<not> t_noBackers (c_tever c))"
  shows "\<exists>e. revoke E db srd seqner diger sn bigers c = (Inl e, c)"
  using assms
  by (auto simp: revoke_def revoke_rev_def revoke_brv_def getitem_def bnd_pure_case bnd_raise_if bnd_reading
      raise_def Ilks_defs split: option.splits sum.splits)

lemma update_wrong_kind:
  assumes "k_t (s_ked srd) = Some ilk"
    and "(t_noBackers (c_tever c) \<and> ilk \<in> {Ilks_vrt, Ilks_bis, Ilks_brv}) \<or>
         (\<not> t_noBackers (c_tever c) \<and> ilk \<in> {Ilks_iss, Ilks_rev})"
  shows "\<exists>e. update E db srd seqner diger bigers c = (Inl e, c)"
proof (cases "k_s (s_ked srd)")
  case None
  then show ?thesis using assms(1) by (simp add: update_def getitem_def)
next
  case (Some s)
  show ?thesis
  proof (cases "validateSN E s (ilk \<in> {Ilks_iss, Ilks_bis})")
    case (Inl e)
    then show ?thesis using assms(1) Some by (simp add: update_def getitem_def)
  next
    case (Inr sn)
    have u: "update E db srd seqner diger bigers c =
        (if ilk = Ilks_vrt then update_vrt E db srd seqner diger bigers ilk sn c
         else if ilk \<in> {Ilks_iss, Ilks_bis} then issue E db srd seqner diger sn bigers c
         else if ilk \<in> {Ilks_rev, Ilks_brv} then revoke E db srd seqner diger sn bigers c
         else raise ValidationError c)"
      using assms(1) Some Inr by (simp add: update_def getitem_def)
    consider "ilk = Ilks_vrt" "t_noBackers (c_tever c)"
      | "ilk = Ilks_bis \<and> t_noBackers (c_tever c) \<or> ilk = Ilks_iss \<and> \<not> t_noBackers (c_tever c)"
      | "ilk = Ilks_brv \<and> t_noBackers (c_tever c) \<or> ilk = Ilks_rev \<and> \<not> t_noBackers (c_tever c)"
      using assms(2) by auto
    then show ?thesis
    proof cases
      case 1
      then show ?thesis using update_vrt_noBackers [of c srd E db seqner diger bigers] assms(1)
        by simp
    next
      case 2
      from issue_wrong_kind [OF assms(1) 2]
      obtain e where "issue E db srd seqner diger sn bigers c = (Inl e, c)" by blast
      with 2 u show ?thesis by (auto simp: Ilks_defs)
    next
      case 3
      from revoke_wrong_kind [OF assms(1) 3]
      obtain e where "revoke E db srd seqner diger sn bigers c = (Inl e, c)" by blast
      with 3 u show ?thesis by (auto simp: Ilks_defs)
    qed
  qed
qed

lemma labels_have_p:
  "k_p k = None \<Longrightarrow> missing_label k REV_LABELS"
  "k_p k = None \<Longrightarrow> missing_label k BRV_LABELS"
  by (simp_all add: missing_label_def REV_LABELS_def BRV_LABELS_def has_label_def)

lemma update_wrong_kind_ValidationError:
  assumes "k_t (s_ked srd) = Some ilk"
    and "(t_noBackers (c_tever c) \<and> ilk \<in> {Ilks_vrt, Ilks_bis, Ilks_brv}) \<or>
         (\<not> t_noBackers (c_tever c) \<and> ilk \<in> {Ilks_iss, Ilks_rev})"
    and "k_s (s_ked srd) = Some s" "validateSN E s (ilk \<in> {Ilks_iss, Ilks_bis}) = Inr sn"
    and "k_i (s_ked srd) = Some vcpre"
    and "ilk \<in> {Ilks_rev, Ilks_brv} \<longrightarrow>
           map_of (tels (c_reger c)) (nsKey (t_prefixer (c_tever c)) vcpre, sn - 1) \<noteq> None"
  shows "update E db srd seqner diger bigers c = (Inl ValidationError, c)"
proof -
  have u: "update E db srd seqner diger bigers c =
        (if ilk = Ilks_vrt then update_vrt E db srd seqner diger bigers ilk sn c
         else if ilk \<in> {Ilks_iss, Ilks_bis} then issue E db srd seqner diger sn bigers c
         else if ilk \<in> {Ilks_rev, Ilks_brv} then revoke E db srd seqner diger sn bigers c
         else raise ValidationError c)"
    using assms(1,3,4) by (simp add: update_def getitem_def)
  consider "ilk = Ilks_vrt" "t_noBackers (c_tever c)"
    | "ilk = Ilks_bis \<and> t_noBackers (c_tever c) \<or> ilk = Ilks_iss \<and> \<not> t_noBackers (c_tever c)"
    | "ilk = Ilks_brv \<and> t_noBackers (c_tever c) \<or> ilk = Ilks_rev \<and> \<not> t_noBackers (c_tever c)"
    using assms(2) by auto
  then show ?thesis
  proof cases
    case 1
    then show ?thesis unfolding u by (simp add: update_vrt_def bnd_raise_if)
  next
    case 2
    then have "issue E db srd seqner diger sn bigers c = (Inl ValidationError, c)"
      using assms(1,5)
      by (auto simp: issue_def issue_iss_def issue_bis_def getitem_def bnd_raise_if bnd_reading
          raise_def Ilks_defs)
    with 2 u show ?thesis by (auto simp: Ilks_defs)
  next
    case 3
    then have "revoke E db srd seqner diger sn bigers c = (Inl ValidationError, c)"
      using assms(1,5,6)
      by (auto simp: labels_have_p revoke_def revoke_rev_def revoke_brv_def getitem_def bnd_raise_if bnd_reading
          bnd_pure_case prior_event_def raise_def Ilks_defs split: option.splits)
    with 3 u show ?thesis by (auto simp: Ilks_defs)
  qed
qed

text \<open>
  Claim C6: on a registry with \<open>noBackers\<close>, \<open>update\<close> raises on every \<open>vrt\<close>, \<open>bis\<close> and
  \<open>brv\<close> event, and on a registry without it on every \<open>iss\<close> and \<open>rev\<close> event; the verifier,
  the store and the cues are left as they were, so no such event is logged as first seen.
  The exception is \<open>ValidationError\<close> as soon as the event has its sequence number and its
  identifier, \<open>validateSN\<close> accepts the number and, for a revocation, the credential has
  an entry at the number before.
\<close>

theorem wrong_kind_never_first_seen:
  assumes "k_t (s_ked srd) = Some ilk"
    and "(t_noBackers (c_tever c) \<and> ilk \<in> {Ilks_vrt, Ilks_bis, Ilks_brv}) \<or>
         (\<not> t_noBackers (c_tever c) \<and> ilk \<in> {Ilks_iss, Ilks_rev})"
  shows "(\<exists>e. update E db srd seqner diger bigers c = (Inl e, c)) \<and>
         (k_s (s_ked srd) = Some s \<and> validateSN E s (ilk \<in> {Ilks_iss, Ilks_bis}) = Inr sn \<and>
          k_i (s_ked srd) = Some vcpre \<and>
          (ilk \<in> {Ilks_rev, Ilks_brv} \<longrightarrow>
             map_of (tels (c_reger c)) (nsKey (t_prefixer (c_tever c)) vcpre, sn - 1) \<noteq> None) \<longrightarrow>
          update E db srd seqner diger bigers c = (Inl ValidationError, c))"
proof (intro conjI impI)
  show "\<exists>e. update E db srd seqner diger bigers c = (Inl e, c)"
    using assms by (rule update_wrong_kind)
next
  assume h: "k_s (s_ked srd) = Some s \<and> validateSN E s (ilk \<in> {Ilks_iss, Ilks_bis}) = Inr sn \<and>
          k_i (s_ked srd) = Some vcpre \<and>
          (ilk \<in> {Ilks_rev, Ilks_brv} \<longrightarrow>
             map_of (tels (c_reger c)) (nsKey (t_prefixer (c_tever c)) vcpre, sn - 1) \<noteq> None)"
  show "update E db srd seqner diger bigers c = (Inl ValidationError, c)"
    using assms h by (intro update_wrong_kind_ValidationError [where s = s and sn = sn and vcpre = vcpre and ilk = ilk]) simp_all
qed

theorem wrong_kind_never_first_seen_witness:
  "t_noBackers (c_tever ctx_nb) \<and>
   update ex_env ex_db ex_vrt 5 ''K5'' None ctx_nb = (Inl ValidationError, ctx_nb) \<and>
   \<not> t_noBackers (c_tever ctx_b) \<and>
   update ex_env ex_db ex_iss 2 ''K2'' None ctx_b = (Inl ValidationError, ctx_b)"
proof -
  have k1: "k_t (s_ked ex_vrt) = Some Ilks_vrt" by (simp add: ex_vrt_def ked0_def Ilks_vrt_def)
  have n1: "t_noBackers (c_tever ctx_nb)" by (simp add: ctx_nb_def ex_tever_nb_def)
  have a1: "(t_noBackers (c_tever ctx_nb) \<and> Ilks_vrt \<in> {Ilks_vrt, Ilks_bis, Ilks_brv}) \<or>
         (\<not> t_noBackers (c_tever ctx_nb) \<and> Ilks_vrt \<in> {Ilks_iss, Ilks_rev})"
    using n1 by simp
  have h1: "k_s (s_ked ex_vrt) = Some ''1'' \<and>
            validateSN ex_env ''1'' (Ilks_vrt \<in> {Ilks_iss, Ilks_bis}) = Inr 1 \<and>
            k_i (s_ked ex_vrt) = Some ''Ebackreg'' \<and>
            (Ilks_vrt \<in> {Ilks_rev, Ilks_brv} \<longrightarrow>
               map_of (tels (c_reger ctx_nb)) (nsKey (t_prefixer (c_tever ctx_nb)) ''Ebackreg'', 1 - 1) \<noteq> None)"
    by (simp add: ex_vrt_def ked0_def Ilks_defs ex_env_def ex_validateSN_def ex_int16_def hexdig_def)
  have r1: "update ex_env ex_db ex_vrt 5 ''K5'' None ctx_nb = (Inl ValidationError, ctx_nb)"
    using wrong_kind_never_first_seen [OF k1 a1, THEN conjunct2, THEN mp, OF h1] .
  have k2: "k_t (s_ked ex_iss) = Some Ilks_iss" by (simp add: ex_iss_def ked0_def Ilks_iss_def)
  have n2: "\<not> t_noBackers (c_tever ctx_b)" by (simp add: ctx_b_def ex_tever_b_def)
  have a2: "(t_noBackers (c_tever ctx_b) \<and> Ilks_iss \<in> {Ilks_vrt, Ilks_bis, Ilks_brv}) \<or>
         (\<not> t_noBackers (c_tever ctx_b) \<and> Ilks_iss \<in> {Ilks_iss, Ilks_rev})"
    using n2 by simp
  have h2: "k_s (s_ked ex_iss) = Some ''0'' \<and>
            validateSN ex_env ''0'' (Ilks_iss \<in> {Ilks_iss, Ilks_bis}) = Inr 0 \<and>
            k_i (s_ked ex_iss) = Some ''Ecredential'' \<and>
            (Ilks_iss \<in> {Ilks_rev, Ilks_brv} \<longrightarrow>
               map_of (tels (c_reger ctx_b)) (nsKey (t_prefixer (c_tever ctx_b)) ''Ecredential'', 0 - 1) \<noteq> None)"
    by (simp add: ex_iss_def ked0_def Ilks_defs ex_env_def ex_validateSN_def ex_int16_def hexdig_def)
  have r2: "update ex_env ex_db ex_iss 2 ''K2'' None ctx_b = (Inl ValidationError, ctx_b)"
    using wrong_kind_never_first_seen [OF k2 a2, THEN conjunct2, THEN mp, OF h2] .
  show ?thesis by (intro conjI) (rule n1, rule r1, rule n2, rule r2)
qed

section \<open>processEvent on a known registry\<close>

lemma escrowOOEvent_ok:
  assumes "\<not> wfail r" "Serder_pre srd = Inr pre"
  shows "escrowOOEvent srd seqner diger r =
           (Inr (), r\<lparr>tvts := put_new (tvts r) (pre, s_dig srd) srd,
                      ancs := put_new (ancs r) (pre, s_dig srd) (seqner, diger),
                      oots := aput_new (oots r) (pre, s_sn srd) (s_dig srd)\<rparr>)"
  using assms
  by (simp add: escrowOOEvent_def putTvt_def putAnc_def putOot_def writing_def
      bnd_def ret_def pure_def)

lemma valid_pre_Inr: "valid_pre E srd = Inr pre \<Longrightarrow> Serder_pre srd = Inr pre"
  by (auto simp: valid_pre_def split: sum.splits if_splits)

lemma map_of_aput_new:
  "map_of (aput_new al k v) k = Some (case map_of al k of None \<Rightarrow> v | Some w \<Rightarrow> w)"
  by (auto simp: aput_new_def map_add_def split: option.splits)

lemma put_new_same:
  "put_new m k v k = Some (case m k of None \<Rightarrow> v | Some w \<Rightarrow> w)"
  by (auto simp: put_new_def split: option.splits)

lemma processEvent_known:
  assumes "valid_pre E srd = Inr pre" "registryKey srd = Inr regk"
    and "k_s (s_ked srd) = Some s" "k_t (s_ked srd) = Some ilk"
    and "validateSN E s (ilk \<in> {Ilks_vcp, Ilks_iss, Ilks_bis}) = Inr sn"
    and "\<not> nonlocal_event y regk" "y_tevers y regk = Some t"
  shows "processEvent E db srd seqner diger wigers y =
           known E db srd seqner diger wigers regk pre ilk sn t y"
  using assms by (simp add: processEvent_def getitem_def bnd_raise_if)

lemma escrow_then_raise:
  assumes "\<not> wfail (y_reger y)" "Serder_pre srd = Inr pre"
  shows "bnd (on_yreger (escrowOOEvent srd seqner diger)) (\<lambda>_. raise OutOfOrderError) y =
           (Inl OutOfOrderError,
            y\<lparr>y_reger := (y_reger y)
                 \<lparr>tvts := put_new (tvts (y_reger y)) (pre, s_dig srd) srd,
                  ancs := put_new (ancs (y_reger y)) (pre, s_dig srd) (seqner, diger),
                  oots := aput_new (oots (y_reger y)) (pre, s_sn srd) (s_dig srd)\<rparr>\<rparr>)"
  using escrowOOEvent_ok [OF assms, of seqner diger]
  by (simp add: bnd_def on_yreger_def raise_def)

text \<open>
  Claim C1: an event that has passed the checks of its identifier, registry key, sequence
  number and locality, for a registry that is in the cache, on a store whose writes
  succeed. A \<open>vcp\<close> raises \<open>LikelyDuplicitousError\<close>. Otherwise the expected number \<open>sno\<close> is
  \<open>tever.sn + 1\<close> for a \<open>vrt\<close> and, for a credential event, 0 when the credential has no
  entry in the log and its current number plus one when it has; a later number escrows the
  event out of order (its body, its anchor and its digest under \<open>oot\<close>) and raises
  \<open>OutOfOrderError\<close>, the expected number hands the event to \<open>tever.update\<close>, an earlier
  number raises \<open>LikelyDuplicitousError\<close> and changes nothing.
\<close>

theorem processEvent_known_registry:
  assumes "valid_pre E srd = Inr pre" "registryKey srd = Inr regk"
    and "k_s (s_ked srd) = Some s" "k_t (s_ked srd) = Some ilk"
    and "validateSN E s (ilk \<in> {Ilks_vcp, Ilks_iss, Ilks_bis}) = Inr sn"
    and "\<not> nonlocal_event y regk" "y_tevers y regk = Some t"
    and "\<not> wfail (y_reger y)"
    and "sno = (if ilk = Ilks_vrt then t_sn t + 1
                else if cntTels (y_reger y) (nsKey (t_prefixer t) pre) = 0 then 0
                else (int (cntTels (y_reger y) (nsKey (t_prefixer t) pre)) - 1) + 1)"
    and "r' = (y_reger y)
                 \<lparr>tvts := put_new (tvts (y_reger y)) (pre, s_dig srd) srd,
                  ancs := put_new (ancs (y_reger y)) (pre, s_dig srd) (seqner, diger),
                  oots := aput_new (oots (y_reger y)) (pre, s_sn srd) (s_dig srd)\<rparr>"
  shows "(ilk = Ilks_vcp \<longrightarrow>
            processEvent E db srd seqner diger wigers y = (Inl LikelyDuplicitousError, y)) \<and>
         (ilk \<noteq> Ilks_vcp \<and> sn > sno \<longrightarrow>
            processEvent E db srd seqner diger wigers y = (Inl OutOfOrderError, y\<lparr>y_reger := r'\<rparr>) \<and>
            map_of (oots r') (pre, s_sn srd) \<noteq> None \<and> tvts r' (pre, s_dig srd) \<noteq> None \<and>
            ancs r' (pre, s_dig srd) \<noteq> None \<and>
            (map_of (oots (y_reger y)) (pre, s_sn srd) = None \<longrightarrow>
               map_of (oots r') (pre, s_sn srd) = Some (s_dig srd))) \<and>
         (ilk \<noteq> Ilks_vcp \<and> sn = sno \<longrightarrow>
            processEvent E db srd seqner diger wigers y =
              with_tever regk t (update E db srd seqner diger wigers) y) \<and>
         (ilk \<noteq> Ilks_vcp \<and> sn < sno \<longrightarrow>
            processEvent E db srd seqner diger wigers y = (Inl LikelyDuplicitousError, y))"
proof -
  have p: "processEvent E db srd seqner diger wigers y =
           known E db srd seqner diger wigers regk pre ilk sn t y"
    using assms(1-7) by (rule processEvent_known)
  have e: "expected_sn t (y_reger y) ilk pre = sno"
    unfolding assms(9) by (simp add: expected_sn_def vcSn_def Let_def)
  have sp: "Serder_pre srd = Inr pre" using assms(1) by (rule valid_pre_Inr)
  have esc: "bnd (on_yreger (escrowOOEvent srd seqner diger)) (\<lambda>_. raise OutOfOrderError) y =
           (Inl OutOfOrderError, y\<lparr>y_reger := r'\<rparr>)"
    unfolding assms(10) using assms(8) sp by (rule escrow_then_raise)
  have c1: "ilk = Ilks_vcp \<longrightarrow>
            processEvent E db srd seqner diger wigers y = (Inl LikelyDuplicitousError, y)"
    unfolding p by (simp add: known_def raise_def)
  have c2: "ilk \<noteq> Ilks_vcp \<and> sn > sno \<longrightarrow>
            processEvent E db srd seqner diger wigers y = (Inl OutOfOrderError, y\<lparr>y_reger := r'\<rparr>) \<and>
            map_of (oots r') (pre, s_sn srd) \<noteq> None \<and> tvts r' (pre, s_dig srd) \<noteq> None \<and>
            ancs r' (pre, s_dig srd) \<noteq> None \<and>
            (map_of (oots (y_reger y)) (pre, s_sn srd) = None \<longrightarrow>
               map_of (oots r') (pre, s_sn srd) = Some (s_dig srd))"
  proof (intro impI)
    assume a: "ilk \<noteq> Ilks_vcp \<and> sn > sno"
    have "known E db srd seqner diger wigers regk pre ilk sn t y =
            bnd (on_yreger (escrowOOEvent srd seqner diger)) (\<lambda>_. raise OutOfOrderError) y"
      using a e by (simp add: known_def)
    also note esc
    finally have 1: "processEvent E db srd seqner diger wigers y =
                       (Inl OutOfOrderError, y\<lparr>y_reger := r'\<rparr>)"
      using p by simp
    have 2: "map_of (oots r') (pre, s_sn srd) \<noteq> None \<and> tvts r' (pre, s_dig srd) \<noteq> None \<and>
            ancs r' (pre, s_dig srd) \<noteq> None \<and>
            (map_of (oots (y_reger y)) (pre, s_sn srd) = None \<longrightarrow>
               map_of (oots r') (pre, s_sn srd) = Some (s_dig srd))"
      by (simp add: assms(10) map_of_aput_new put_new_same)
    from 1 2 show "processEvent E db srd seqner diger wigers y = (Inl OutOfOrderError, y\<lparr>y_reger := r'\<rparr>) \<and>
            map_of (oots r') (pre, s_sn srd) \<noteq> None \<and> tvts r' (pre, s_dig srd) \<noteq> None \<and>
            ancs r' (pre, s_dig srd) \<noteq> None \<and>
            (map_of (oots (y_reger y)) (pre, s_sn srd) = None \<longrightarrow>
               map_of (oots r') (pre, s_sn srd) = Some (s_dig srd))"
      by (rule conjI)
  qed
  have c3: "ilk \<noteq> Ilks_vcp \<and> sn = sno \<longrightarrow>
            processEvent E db srd seqner diger wigers y =
              with_tever regk t (update E db srd seqner diger wigers) y"
    unfolding p using e by (simp add: known_def)
  have c4: "ilk \<noteq> Ilks_vcp \<and> sn < sno \<longrightarrow>
            processEvent E db srd seqner diger wigers y = (Inl LikelyDuplicitousError, y)"
    unfolding p using e by (simp add: known_def raise_def)
  show ?thesis by (intro conjI) (rule c1, rule c2, rule c3, rule c4)
qed

lemma iss_applied:
  "with_tever ''Eregistry'' ex_tever_nb (update ex_env ex_db ex_iss 2 ''K2'' None) tevery_nb
     = (Inr (), tevery_iss)"
  by (simp add: with_tever_def update_def issue_def issue_iss_def monad_defs ex_defs Ilks_defs
      missing_label_def has_label_def ISS_LABELS_def nsKey_def verifyAnchor_def seal_matches_def
      logEvent_def putAnc_def putTvt_def putTel_def pinTets_def truthy_def put_new_def aput_new_def)

theorem processEvent_known_registry_witness:
  "processEvent ex_env ex_db ex_vcp 1 ''K1'' None tevery_nb = (Inl LikelyDuplicitousError, tevery_nb) \<and>
   fst (processEvent ex_env ex_db ex_rev 3 ''K3'' None tevery_nb) = Inl OutOfOrderError \<and>
   map_of (oots (y_reger (snd (processEvent ex_env ex_db ex_rev 3 ''K3'' None tevery_nb))))
     (''Ecredential'', 1) = Some ''Drev'' \<and>
   processEvent ex_env ex_db ex_iss 2 ''K2'' None tevery_nb =
     with_tever ''Eregistry'' ex_tever_nb (update ex_env ex_db ex_iss 2 ''K2'' None) tevery_nb \<and>
   with_tever ''Eregistry'' ex_tever_nb (update ex_env ex_db ex_iss 2 ''K2'' None) tevery_nb
     = (Inr (), tevery_iss) \<and>
   processEvent ex_env ex_db ex_iss 2 ''K2'' None tevery_iss = (Inl LikelyDuplicitousError, tevery_iss)"
proof -
  have nl: "\<not> nonlocal_event tevery_nb ''Eregistry''" "\<not> nonlocal_event tevery_iss ''Eregistry''"
    by (simp_all add: nonlocal_event_def tevery_nb_def tevery_iss_def truthy_str_def)
  have tv: "y_tevers tevery_nb ''Eregistry'' = Some ex_tever_nb"
    "y_tevers tevery_iss ''Eregistry'' = Some ex_tever_nb"
    by (simp_all add: tevery_nb_def tevery_iss_def)
  have wf: "\<not> wfail (y_reger tevery_nb)" "\<not> wfail (y_reger tevery_iss)"
    by (simp_all add: tevery_nb_def tevery_iss_def reger_iss_def reger_nb_def reger0_def)
  have vcp: "valid_pre ex_env ex_vcp = Inr ''Eregistry''" "registryKey ex_vcp = Inr ''Eregistry''"
    "k_s (s_ked ex_vcp) = Some ''0''" "k_t (s_ked ex_vcp) = Some Ilks_vcp"
    "validateSN ex_env ''0'' (Ilks_vcp \<in> {Ilks_vcp, Ilks_iss, Ilks_bis}) = Inr 0"
    by (simp_all add: valid_pre_def registryKey_def Serder_pre_def getitem_def ebind_def ex_vcp_def
        ked0_def Ilks_defs ex_env_def ex_validateSN_def ex_int16_def hexdig_def)
  have rev: "valid_pre ex_env ex_rev = Inr ''Ecredential''" "registryKey ex_rev = Inr ''Eregistry''"
    "k_s (s_ked ex_rev) = Some ''1''" "k_t (s_ked ex_rev) = Some Ilks_rev"
    "validateSN ex_env ''1'' (Ilks_rev \<in> {Ilks_vcp, Ilks_iss, Ilks_bis}) = Inr 1"
    by (simp_all add: valid_pre_def registryKey_def Serder_pre_def getitem_def ebind_def ex_rev_def
        ked0_def Ilks_defs ex_env_def ex_validateSN_def ex_int16_def hexdig_def)
  have iss: "valid_pre ex_env ex_iss = Inr ''Ecredential''" "registryKey ex_iss = Inr ''Eregistry''"
    "k_s (s_ked ex_iss) = Some ''0''" "k_t (s_ked ex_iss) = Some Ilks_iss"
    "validateSN ex_env ''0'' (Ilks_iss \<in> {Ilks_vcp, Ilks_iss, Ilks_bis}) = Inr 0"
    by (simp_all add: valid_pre_def registryKey_def Serder_pre_def getitem_def ebind_def ex_iss_def
        ked0_def Ilks_defs ex_env_def ex_validateSN_def ex_int16_def hexdig_def)
  have cnt: "cntTels (y_reger tevery_nb) (nsKey (t_prefixer ex_tever_nb) ''Ecredential'') = 0"
    "cntTels (y_reger tevery_iss) (nsKey (t_prefixer ex_tever_nb) ''Ecredential'') = 1"
    "cntTels (y_reger tevery_nb) (nsKey (t_prefixer ex_tever_nb) ''Eregistry'') = 0"
    by (simp_all add: cntTels_def nsKey_def tevery_nb_def tevery_iss_def reger_iss_def reger_nb_def
        reger0_def ex_tever_nb_def)
  have s1: "0 = (if Ilks_vcp = Ilks_vrt then t_sn ex_tever_nb + 1
                else if cntTels (y_reger tevery_nb) (nsKey (t_prefixer ex_tever_nb) ''Eregistry'') = 0 then 0
                else (int (cntTels (y_reger tevery_nb) (nsKey (t_prefixer ex_tever_nb) ''Eregistry'')) - 1) + 1)"
    by (simp add: cnt Ilks_defs)
  have w1: "processEvent ex_env ex_db ex_vcp 1 ''K1'' None tevery_nb = (Inl LikelyDuplicitousError, tevery_nb)"
    using processEvent_known_registry [OF vcp nl(1) tv(1) wf(1) s1 refl, THEN conjunct1] by simp
  have s2: "0 = (if Ilks_rev = Ilks_vrt then t_sn ex_tever_nb + 1
                else if cntTels (y_reger tevery_nb) (nsKey (t_prefixer ex_tever_nb) ''Ecredential'') = 0 then 0
                else (int (cntTels (y_reger tevery_nb) (nsKey (t_prefixer ex_tever_nb) ''Ecredential'')) - 1) + 1)"
    by (simp add: cnt Ilks_defs)
  have c2: "Ilks_rev \<noteq> Ilks_vcp \<and> (1::int) > 0" by (simp add: Ilks_defs)
  note W2 = processEvent_known_registry [where seqner = 3 and diger = "''K3''" and db = ex_db
      and wigers = None, OF rev nl(1) tv(1) wf(1) s2 refl, THEN conjunct2,
      THEN conjunct1, THEN mp, OF c2]
  have w2: "fst (processEvent ex_env ex_db ex_rev 3 ''K3'' None tevery_nb) = Inl OutOfOrderError"
    using W2 by simp
  have w2': "map_of (oots (y_reger (snd (processEvent ex_env ex_db ex_rev 3 ''K3'' None tevery_nb))))
     (''Ecredential'', 1) = Some ''Drev''"
    using W2 by (simp add: ex_rev_def tevery_nb_def reger_nb_def reger0_def aput_new_def)
  have s3: "0 = (if Ilks_iss = Ilks_vrt then t_sn ex_tever_nb + 1
                else if cntTels (y_reger tevery_nb) (nsKey (t_prefixer ex_tever_nb) ''Ecredential'') = 0 then 0
                else (int (cntTels (y_reger tevery_nb) (nsKey (t_prefixer ex_tever_nb) ''Ecredential'')) - 1) + 1)"
    by (simp add: cnt Ilks_defs)
  have c3: "Ilks_iss \<noteq> Ilks_vcp \<and> (0::int) = 0" by (simp add: Ilks_defs)
  have w3: "processEvent ex_env ex_db ex_iss 2 ''K2'' None tevery_nb =
     with_tever ''Eregistry'' ex_tever_nb (update ex_env ex_db ex_iss 2 ''K2'' None) tevery_nb"
    using processEvent_known_registry [OF iss nl(1) tv(1) wf(1) s3 refl, THEN conjunct2,
      THEN conjunct2, THEN conjunct1, THEN mp, OF c3] .
  have s4: "1 = (if Ilks_iss = Ilks_vrt then t_sn ex_tever_nb + 1
                else if cntTels (y_reger tevery_iss) (nsKey (t_prefixer ex_tever_nb) ''Ecredential'') = 0 then 0
                else (int (cntTels (y_reger tevery_iss) (nsKey (t_prefixer ex_tever_nb) ''Ecredential'')) - 1) + 1)"
    by (simp add: cnt Ilks_defs)
  have c4: "Ilks_iss \<noteq> Ilks_vcp \<and> (0::int) < 1" by (simp add: Ilks_defs)
  have w4: "processEvent ex_env ex_db ex_iss 2 ''K2'' None tevery_iss = (Inl LikelyDuplicitousError, tevery_iss)"
    using processEvent_known_registry [OF iss nl(2) tv(2) wf(2) s4 refl, THEN conjunct2,
      THEN conjunct2, THEN conjunct2, THEN mp, OF c4] .
  show ?thesis by (intro conjI) (rule w1, rule w2, rule w2', rule w3, rule iss_applied, rule w4)
qed

section \<open>Hash chain\<close>

lemma Tever_rotate_prior_mismatch:
  assumes "k_p (s_ked srd) = Some p" "p \<noteq> s_dig (t_serder t)"
  shows "\<exists>e. Tever_rotate E t srd sn = Inl e"
    and "k_i (s_ked srd) \<noteq> None \<Longrightarrow> Tever_rotate E t srd sn = Inl ValidationError"
  using assms
  by (auto simp: Tever_rotate_def Serder_pre_def Serder_compare_def getitem_def
      split: option.splits)

lemma update_vrt_accepted:
  assumes "update E db srd seqner diger bigers c = (Inr (), c')"
    and "k_t (s_ked srd) = Some Ilks_vrt"
  shows "\<exists>s sn. k_s (s_ked srd) = Some s \<and> validateSN E s False = Inr sn \<and>
                sn = t_sn (c_tever c) + 1 \<and>
                k_p (s_ked srd) = Some (s_dig (t_serder (c_tever c))) \<and>
                k_i (s_ked srd) = Some (t_prefixer (c_tever c))"
proof -
  from assms obtain s sn where
    s: "k_s (s_ked srd) = Some s" "validateSN E s (Ilks_vrt \<in> {Ilks_iss, Ilks_bis}) = Inr sn"
    and u: "update_vrt E db srd seqner diger bigers Ilks_vrt sn c = (Inr (), c')"
    by (auto simp: update_def bnd_Inr pure_Inr getitem_def split: option.splits)
  from u obtain rot where "Tever_rotate E (c_tever c) srd sn = Inr rot"
    by (auto simp: update_vrt_def bnd_Inr reading_Inr raise_if_Inr)
  from Tever_rotate_Inr [OF this] s show ?thesis by (auto simp: Ilks_defs)
qed

lemma revoke_accepted:
  assumes "revoke E db srd seqner diger sn bigers c = (Inr (), c')"
  shows "\<exists>vcpre d ie. k_i (s_ked srd) = Some vcpre \<and>
           map_of (tels (c_reger c)) (nsKey (t_prefixer (c_tever c)) vcpre, sn - 1) = Some d \<and>
           tvts (c_reger c) (nsKey (t_prefixer (c_tever c)) vcpre, d) = Some ie \<and>
           k_p (s_ked srd) = Some (s_dig ie)"
  using assms
  by (auto simp: revoke_def bnd_Inr pure_Inr reading_Inr raise_if_Inr getitem_def prior_event_def
      Serder_compare_def split: option.splits)

lemma update_rev_accepted:
  assumes "update E db srd seqner diger bigers c = (Inr (), c')"
    and "k_t (s_ked srd) = Some ilk" "ilk \<in> {Ilks_rev, Ilks_brv}"
  shows "\<exists>s sn vcpre d ie. k_s (s_ked srd) = Some s \<and> validateSN E s False = Inr sn \<and>
           k_i (s_ked srd) = Some vcpre \<and>
           map_of (tels (c_reger c)) (nsKey (t_prefixer (c_tever c)) vcpre, sn - 1) = Some d \<and>
           tvts (c_reger c) (nsKey (t_prefixer (c_tever c)) vcpre, d) = Some ie \<and>
           k_p (s_ked srd) = Some (s_dig ie)"
proof -
  from assms obtain s sn where
    s: "k_s (s_ked srd) = Some s" "validateSN E s (ilk \<in> {Ilks_iss, Ilks_bis}) = Inr sn"
    and u: "revoke E db srd seqner diger sn bigers c = (Inr (), c')"
    by (auto simp: update_def bnd_Inr pure_Inr getitem_def Ilks_defs split: option.splits if_splits)
  from revoke_accepted [OF u] s assms(3) show ?thesis by (auto simp: Ilks_defs)
qed

lemma revoke_prior_mismatch:
  assumes "k_i (s_ked srd) = Some vcpre"
    and "\<not> (\<exists>d ie. map_of (tels (c_reger c)) (nsKey (t_prefixer (c_tever c)) vcpre, sn - 1) = Some d \<and>
           tvts (c_reger c) (nsKey (t_prefixer (c_tever c)) vcpre, d) = Some ie \<and>
           k_p (s_ked srd) = Some (s_dig ie))"
  shows "\<exists>e. revoke E db srd seqner diger sn bigers c = (Inl e, c)"
  using assms
  by (auto simp: revoke_def bnd_pure_case bnd_reading bnd_raise_if getitem_def prior_event_def
      Serder_compare_def raise_def split: option.splits sum.splits)

text \<open>
  Claim C2, the hash chain. \<open>Tever.rotate\<close> rejects a \<open>vrt\<close> whose \<open>p\<close> is not the digest of
  the current event of the registry, and \<open>Tever.revoke\<close> rejects, without any write, a
  \<open>rev\<close> or \<open>brv\<close> for which the log of the credential holds no event at \<open>sn - 1\<close> whose
  digest is \<open>p\<close>. Hence every event that \<open>update\<close> accepts at a number above 0 is chained:
  an accepted \<open>vrt\<close> has the number after the registry's and \<open>p\<close> equal to the digest of
  the registry's current event, an accepted \<open>rev\<close> or \<open>brv\<close> has \<open>p\<close> equal to the digest
  of the event that the log of its credential holds at \<open>sn - 1\<close>.
\<close>

theorem hash_chain_continuity:
  "(k_p (s_ked srd) = Some p \<and> p \<noteq> s_dig (t_serder t) \<longrightarrow>
      (\<exists>e. Tever_rotate E t srd n = Inl e) \<and>
      (k_i (s_ked srd) \<noteq> None \<longrightarrow> Tever_rotate E t srd n = Inl ValidationError)) \<and>
   (k_i (s_ked srd) = Some vcpre \<and>
    \<not> (\<exists>d ie. map_of (tels (c_reger c)) (nsKey (t_prefixer (c_tever c)) vcpre, n - 1) = Some d \<and>
           tvts (c_reger c) (nsKey (t_prefixer (c_tever c)) vcpre, d) = Some ie \<and>
           k_p (s_ked srd) = Some (s_dig ie)) \<longrightarrow>
      (\<exists>e. revoke E db srd seqner diger n bigers c = (Inl e, c))) \<and>
   (update E db srd seqner diger bigers c = (Inr (), c') \<and> k_t (s_ked srd) = Some Ilks_vrt \<longrightarrow>
      (\<exists>s sn. k_s (s_ked srd) = Some s \<and> validateSN E s False = Inr sn \<and>
              sn = t_sn (c_tever c) + 1 \<and>
              k_p (s_ked srd) = Some (s_dig (t_serder (c_tever c))) \<and>
              k_i (s_ked srd) = Some (t_prefixer (c_tever c)))) \<and>
   (update E db srd seqner diger bigers c = (Inr (), c') \<and> k_t (s_ked srd) = Some ilk \<and>
    ilk \<in> {Ilks_rev, Ilks_brv} \<longrightarrow>
      (\<exists>s sn vcpre' d ie. k_s (s_ked srd) = Some s \<and> validateSN E s False = Inr sn \<and>
           k_i (s_ked srd) = Some vcpre' \<and>
           map_of (tels (c_reger c)) (nsKey (t_prefixer (c_tever c)) vcpre', sn - 1) = Some d \<and>
           tvts (c_reger c) (nsKey (t_prefixer (c_tever c)) vcpre', d) = Some ie \<and>
           k_p (s_ked srd) = Some (s_dig ie)))"
proof -
  have p1: "k_p (s_ked srd) = Some p \<and> p \<noteq> s_dig (t_serder t) \<longrightarrow>
      (\<exists>e. Tever_rotate E t srd n = Inl e) \<and>
      (k_i (s_ked srd) \<noteq> None \<longrightarrow> Tever_rotate E t srd n = Inl ValidationError)"
    using Tever_rotate_prior_mismatch [of srd p t E n] by blast
  have p2: "k_i (s_ked srd) = Some vcpre \<and>
    \<not> (\<exists>d ie. map_of (tels (c_reger c)) (nsKey (t_prefixer (c_tever c)) vcpre, n - 1) = Some d \<and>
           tvts (c_reger c) (nsKey (t_prefixer (c_tever c)) vcpre, d) = Some ie \<and>
           k_p (s_ked srd) = Some (s_dig ie)) \<longrightarrow>
      (\<exists>e. revoke E db srd seqner diger n bigers c = (Inl e, c))"
    using revoke_prior_mismatch [of srd vcpre c n E db seqner diger bigers] by blast
  have p3: "update E db srd seqner diger bigers c = (Inr (), c') \<and> k_t (s_ked srd) = Some Ilks_vrt \<longrightarrow>
      (\<exists>s sn. k_s (s_ked srd) = Some s \<and> validateSN E s False = Inr sn \<and>
              sn = t_sn (c_tever c) + 1 \<and>
              k_p (s_ked srd) = Some (s_dig (t_serder (c_tever c))) \<and>
              k_i (s_ked srd) = Some (t_prefixer (c_tever c)))"
    using update_vrt_accepted [of E db srd seqner diger bigers c c'] by blast
  have p4: "update E db srd seqner diger bigers c = (Inr (), c') \<and> k_t (s_ked srd) = Some ilk \<and>
    ilk \<in> {Ilks_rev, Ilks_brv} \<longrightarrow>
      (\<exists>s sn vcpre' d ie. k_s (s_ked srd) = Some s \<and> validateSN E s False = Inr sn \<and>
           k_i (s_ked srd) = Some vcpre' \<and>
           map_of (tels (c_reger c)) (nsKey (t_prefixer (c_tever c)) vcpre', sn - 1) = Some d \<and>
           tvts (c_reger c) (nsKey (t_prefixer (c_tever c)) vcpre', d) = Some ie \<and>
           k_p (s_ked srd) = Some (s_dig ie))"
    using update_rev_accepted [of E db srd seqner diger bigers c c' ilk] by blast
  show ?thesis by (intro conjI) (rule p1, rule p2, rule p3, rule p4)
qed

lemma ex_vrt_accepted:
  "fst (update ex_env ex_db ex_vrt 5 ''K5'' (Some [(0, ''sig0''), (2, ''sig2'')]) ctx_b) = Inr ()"
  by (simp add: eval_defs monad_defs ex_defs)

lemma ex_rev_accepted:
  "fst (update ex_env ex_db ex_rev 3 ''K3'' None ctx_iss) = Inr ()"
  by (simp add: eval_defs monad_defs ex_defs)

lemma ex_rev_unchained_rejected:
  "update ex_env ex_db ex_rev_unchained 3 ''K3'' None ctx_iss = (Inl ValidationError, ctx_iss)"
  by (simp add: eval_defs monad_defs ex_defs)

lemma ex_vrt_unchained_rejected:
  "update ex_env ex_db ex_vrt_unchained 5 ''K5'' (Some [(0, ''sig0''), (2, ''sig2'')]) ctx_b = (Inl ValidationError, ctx_b)"
  by (simp add: eval_defs monad_defs ex_defs)

theorem hash_chain_continuity_witness:
  "Tever_rotate ex_env ex_tever_b ex_vrt_unchained 1 = Inl ValidationError \<and>
   update ex_env ex_db ex_vrt_unchained 5 ''K5'' (Some [(0, ''sig0''), (2, ''sig2'')]) ctx_b
     = (Inl ValidationError, ctx_b) \<and>
   (\<exists>e. revoke ex_env ex_db ex_rev_unchained 3 ''K3'' 1 None ctx_iss = (Inl e, ctx_iss)) \<and>
   fst (update ex_env ex_db ex_vrt 5 ''K5'' (Some [(0, ''sig0''), (2, ''sig2'')]) ctx_b) = Inr () \<and>
   k_p (s_ked ex_vrt) = Some (s_dig (t_serder (c_tever ctx_b))) \<and>
   fst (update ex_env ex_db ex_rev 3 ''K3'' None ctx_iss) = Inr () \<and>
   map_of (tels (c_reger ctx_iss)) (''Eregistry:Ecredential'', 0) = Some ''Diss'' \<and>
   tvts (c_reger ctx_iss) (''Eregistry:Ecredential'', ''Diss'') = Some ex_iss \<and>
   k_p (s_ked ex_rev) = Some (s_dig ex_iss)"
proof -
  note T = hash_chain_continuity [where E = ex_env and db = ex_db]
  have a1: "k_p (s_ked ex_vrt_unchained) = Some ''Dother'' \<and> ''Dother'' \<noteq> s_dig (t_serder ex_tever_b)"
    by (simp add: ex_defs)
  have i1: "k_i (s_ked ex_vrt_unchained) \<noteq> None" by (simp add: ex_defs)
  have w1: "Tever_rotate ex_env ex_tever_b ex_vrt_unchained 1 = Inl ValidationError"
    using T [THEN conjunct1, THEN mp, OF a1, THEN conjunct2, THEN mp, OF i1] .
  have a2: "k_i (s_ked ex_rev_unchained) = Some ''Ecredential'' \<and>
    \<not> (\<exists>d ie. map_of (tels (c_reger ctx_iss)) (nsKey (t_prefixer (c_tever ctx_iss)) ''Ecredential'', 1 - 1) = Some d \<and>
           tvts (c_reger ctx_iss) (nsKey (t_prefixer (c_tever ctx_iss)) ''Ecredential'', d) = Some ie \<and>
           k_p (s_ked ex_rev_unchained) = Some (s_dig ie))"
    by (simp add: ex_defs nsKey_def)
  have w2: "\<exists>e. revoke ex_env ex_db ex_rev_unchained 3 ''K3'' 1 None ctx_iss = (Inl e, ctx_iss)"
    using T [THEN conjunct2, THEN conjunct1, THEN mp, OF a2] .
  have a3: "update ex_env ex_db ex_vrt 5 ''K5'' (Some [(0, ''sig0''), (2, ''sig2'')]) ctx_b
              = (Inr (), snd (update ex_env ex_db ex_vrt 5 ''K5'' (Some [(0, ''sig0''), (2, ''sig2'')]) ctx_b)) \<and>
            k_t (s_ked ex_vrt) = Some Ilks_vrt"
    using ex_vrt_accepted by (simp add: prod_eq_iff ex_vrt_def ked0_def Ilks_defs)
  have w3: "k_p (s_ked ex_vrt) = Some (s_dig (t_serder (c_tever ctx_b)))"
    using T [THEN conjunct2, THEN conjunct2, THEN conjunct1, THEN mp, OF a3] by blast
  have a4: "update ex_env ex_db ex_rev 3 ''K3'' None ctx_iss
              = (Inr (), snd (update ex_env ex_db ex_rev 3 ''K3'' None ctx_iss)) \<and>
            k_t (s_ked ex_rev) = Some Ilks_rev \<and> Ilks_rev \<in> {Ilks_rev, Ilks_brv}"
    using ex_rev_accepted by (simp add: prod_eq_iff ex_rev_def ked0_def Ilks_defs)
  from T [THEN conjunct2, THEN conjunct2, THEN conjunct2, THEN mp, OF a4]
  obtain d ie where
    l: "map_of (tels (c_reger ctx_iss)) (nsKey (t_prefixer (c_tever ctx_iss)) ''Ecredential'', 1 - 1) = Some d"
       "tvts (c_reger ctx_iss) (nsKey (t_prefixer (c_tever ctx_iss)) ''Ecredential'', d) = Some ie"
       "k_p (s_ked ex_rev) = Some (s_dig ie)"
    by (auto simp: ex_rev_def ked0_def ex_env_def ex_validateSN_def ex_int16_def hexdig_def)
  have t4: "map_of (tels (c_reger ctx_iss)) (''Eregistry:Ecredential'', 0) = Some ''Diss''"
    by (simp add: ex_defs)
  have v4: "tvts (c_reger ctx_iss) (''Eregistry:Ecredential'', ''Diss'') = Some ex_iss"
    by (simp add: ctx_iss_def reger_iss_def)
  have w4: "k_p (s_ked ex_rev) = Some (s_dig ex_iss)"
    using l t4 v4 by (simp add: nsKey_def ctx_iss_def ex_tever_nb_def)
  show ?thesis
    by (intro conjI) (rule w1, rule ex_vrt_unchained_rejected, rule w2, rule ex_vrt_accepted,
        rule w3, rule ex_rev_accepted, rule t4, rule v4, rule w4)
qed

section \<open>valAnchorBigs\<close>

lemma encode_all_str [simp]: "encode_all (map PStr xs) = Inr xs"
  by (induction xs) simp_all

lemma escrowALEvent_ok:
  assumes "\<not> wfail r" "Serder_pre srd = Inr pre"
  shows "\<exists>r'. escrowALEvent srd seqner diger bigers (Some (map PStr bs)) r =
                 (Inr (map_of (taes r) (pre, s_sn srd) = None), r') \<and>
              map_of (taes r') (pre, s_sn srd) \<noteq> None \<and> tvts r' (pre, s_dig srd) \<noteq> None \<and>
              ancs r' (pre, s_dig srd) \<noteq> None \<and> tels r' = tels r \<and> \<not> wfail r'"
  using assms
  by (simp add: escrowALEvent_def replace_baks_def putAnc_def putTibs_def putTvt_def putTae_def
      delBaks_def putBaks_def writing_def bnd_def ret_def pure_def truthy_def olist_def
      map_of_aput_new put_new_same)

lemma escrowPWEvent_ok:
  assumes "\<not> wfail r" "Serder_pre srd = Inr pre"
  shows "\<exists>r'. escrowPWEvent srd seqner diger vb r = (Inr (), r') \<and>
              twes r' (pre, s_sn srd) \<noteq> None \<and> tvts r' (pre, s_dig srd) \<noteq> None \<and>
              ancs r' (pre, s_dig srd) \<noteq> None \<and> tels r' = tels r \<and> \<not> wfail r'"
  using assms
  by (simp add: escrowPWEvent_def putAnc_def putTibs_def putTvt_def putTwe_def
      writing_def bnd_def ret_def pure_def put_new_same)

lemma missing_anchor_result:
  assumes "escrowALEvent srd seqner diger bigers bs (c_reger c) = (Inr ok, r')"
  shows "(missing_anchor srd seqner diger bigers bs c :: (error + 'a) \<times> tctx) =
           (Inl MissingAnchorError,
            c\<lparr>c_reger := r',
              c_cues := c_cues c @ (if ok then [CueQuery (t_pre (c_tever c)) seqner] else [])\<rparr>)"
  using assms
  by (simp add: missing_anchor_def bnd_def on_reger_def append_cue_def ret_def raise_def)

lemma bnd_if:
  "bnd (\<lambda>c. if P c then f c else g c) h c = (if P c then bnd f h c else bnd g h c)"
  by (simp add: bnd_def)

lemma bnd_then_ret:
  "bnd m (\<lambda>_. ret v) c = (case m c of (Inl e, c') \<Rightarrow> (Inl e, c') | (Inr u, c') \<Rightarrow> (Inr v, c'))"
  by (simp add: bnd_def ret_def split: prod.splits sum.splits)

lemma valAnchorBigs_unfold:
  assumes "verifySigs E srd bigers bs = Inr (vb, vi)"
  shows "valAnchorBigs E db srd seqner diger bigers toad bs c =
    (case verifyAnchor db (c_tever c) srd seqner diger of
       Inl e \<Rightarrow> (Inl e, c)
     | Inr anchored \<Rightarrow>
        (if \<not> anchored then missing_anchor srd seqner diger (Some vb) (Some bs) c
         else if external_event (c_tever c) bs
           then (case check_witnessed E srd seqner diger vb vi toad bs c of
                   (Inl e, c') \<Rightarrow> (Inl e, c') | (Inr u, c') \<Rightarrow> (Inr vb, c'))
         else (Inr vb, c)))"
proof (cases "verifyAnchor db (c_tever c) srd seqner diger")
  case (Inl e)
  then show ?thesis using assms by (simp add: valAnchorBigs_def bnd_reading)
next
  case (Inr anchored)
  then show ?thesis using assms
    by (simp add: valAnchorBigs_def bnd_reading bnd_if bnd_then_ret ret_def)
qed

lemma bnd_on_reger_raise:
  "bnd (on_reger f) (\<lambda>_. raise e) c =
     (case f (c_reger c) of
        (Inl e', r') \<Rightarrow> (Inl e', c\<lparr>c_reger := r'\<rparr>)
      | (Inr u, r') \<Rightarrow> (Inl e, c\<lparr>c_reger := r'\<rparr>))"
  by (simp add: bnd_def on_reger_def raise_def split: prod.splits sum.splits)

lemma check_witnessed_unfold:
  assumes "toad_int E toad = Inr n"
  shows "check_witnessed E srd seqner diger vb vi toad bs c =
    (if n < 0 \<or> int (length bs) < n then (Inl ValidationError, c)
     else if int (length vi) < n
       then (case escrowPWEvent srd seqner diger vb (c_reger c) of
               (Inl e, r') \<Rightarrow> (Inl e, c\<lparr>c_reger := r'\<rparr>)
             | (Inr u, r') \<Rightarrow> (Inl MissingWitnessSignatureError, c\<lparr>c_reger := r'\<rparr>))
     else (Inr (), c))"
  using assms
  by (simp add: check_witnessed_def bnd_on_reger_raise raise_def ret_def)

text \<open>
  Claim C4, as the code has it. \<open>valAnchorBigs\<close> first calls \<open>verifySigs\<close> on the verifiers
  of the backers, and an exception of it ends the call. With its result \<open>(vb, vi)\<close>, on a
  store whose writes succeed and backers given as \<open>str\<close>: when \<open>verifyAnchor\<close> is false, the
  event is escrowed anchorless, the query cue is appended only if the escrow entry is
  new, and \<open>MissingAnchorError\<close> is raised; when it is true and the event is external with
  backers, a threshold outside \<open>0..|baks|\<close> raises \<open>ValidationError\<close>, fewer valid indices
  than the threshold escrow the event partially witnessed and raise
  \<open>MissingWitnessSignatureError\<close>, and otherwise, as for an event that is not external, the
  verified signatures \<open>vb\<close> are returned and nothing is written.
\<close>

theorem valAnchorBigs_outcomes:
  assumes "\<not> wfail (c_reger c)" "Serder_pre srd = Inr pre" "bs = map PStr baks"
  shows
  "(verifySigs E srd bigers bs = Inl e \<longrightarrow>
      valAnchorBigs E db srd seqner diger bigers toad bs c = (Inl e, c)) \<and>
   (verifySigs E srd bigers bs = Inr (vb, vi) \<and>
    verifyAnchor db (c_tever c) srd seqner diger = Inr False \<longrightarrow>
      (\<exists>r'. escrowALEvent srd seqner diger (Some vb) (Some bs) (c_reger c) =
               (Inr (map_of (taes (c_reger c)) (pre, s_sn srd) = None), r') \<and>
            map_of (taes r') (pre, s_sn srd) \<noteq> None \<and> tvts r' (pre, s_dig srd) \<noteq> None \<and>
            ancs r' (pre, s_dig srd) \<noteq> None \<and>
            valAnchorBigs E db srd seqner diger bigers toad bs c =
              (Inl MissingAnchorError,
               c\<lparr>c_reger := r',
                 c_cues := c_cues c @
                   (if map_of (taes (c_reger c)) (pre, s_sn srd) = None
                    then [CueQuery (t_pre (c_tever c)) seqner] else [])\<rparr>))) \<and>
   (verifySigs E srd bigers bs = Inr (vb, vi) \<and>
    verifyAnchor db (c_tever c) srd seqner diger = Inr True \<and> \<not> external_event (c_tever c) bs \<longrightarrow>
      valAnchorBigs E db srd seqner diger bigers toad bs c = (Inr vb, c)) \<and>
   (verifySigs E srd bigers bs = Inr (vb, vi) \<and>
    verifyAnchor db (c_tever c) srd seqner diger = Inr True \<and> external_event (c_tever c) bs \<and>
    toad_int E toad = Inr n \<longrightarrow>
      (n < 0 \<or> int (length bs) < n \<longrightarrow>
         valAnchorBigs E db srd seqner diger bigers toad bs c = (Inl ValidationError, c)) \<and>
      (0 \<le> n \<and> n \<le> int (length bs) \<and> int (length vi) < n \<longrightarrow>
         (\<exists>r'. escrowPWEvent srd seqner diger vb (c_reger c) = (Inr (), r') \<and>
               twes r' (pre, s_sn srd) \<noteq> None \<and> tvts r' (pre, s_dig srd) \<noteq> None \<and>
               valAnchorBigs E db srd seqner diger bigers toad bs c =
                 (Inl MissingWitnessSignatureError, c\<lparr>c_reger := r'\<rparr>))) \<and>
      (0 \<le> n \<and> n \<le> int (length bs) \<and> n \<le> int (length vi) \<longrightarrow>
         valAnchorBigs E db srd seqner diger bigers toad bs c = (Inr vb, c)))"
proof -
  have p0: "verifySigs E srd bigers bs = Inl e \<longrightarrow>
      valAnchorBigs E db srd seqner diger bigers toad bs c = (Inl e, c)"
    by (simp add: valAnchorBigs_def)
  have p1: "verifySigs E srd bigers bs = Inr (vb, vi) \<and>
    verifyAnchor db (c_tever c) srd seqner diger = Inr False \<longrightarrow>
      (\<exists>r'. escrowALEvent srd seqner diger (Some vb) (Some bs) (c_reger c) =
               (Inr (map_of (taes (c_reger c)) (pre, s_sn srd) = None), r') \<and>
            map_of (taes r') (pre, s_sn srd) \<noteq> None \<and> tvts r' (pre, s_dig srd) \<noteq> None \<and>
            ancs r' (pre, s_dig srd) \<noteq> None \<and>
            valAnchorBigs E db srd seqner diger bigers toad bs c =
              (Inl MissingAnchorError,
               c\<lparr>c_reger := r',
                 c_cues := c_cues c @
                   (if map_of (taes (c_reger c)) (pre, s_sn srd) = None
                    then [CueQuery (t_pre (c_tever c)) seqner] else [])\<rparr>))"
  proof
    assume a: "verifySigs E srd bigers bs = Inr (vb, vi) \<and>
               verifyAnchor db (c_tever c) srd seqner diger = Inr False"
    from escrowALEvent_ok [OF assms(1,2), of seqner diger "Some vb" baks]
    obtain r' where r:
      "escrowALEvent srd seqner diger (Some vb) (Some bs) (c_reger c) =
               (Inr (map_of (taes (c_reger c)) (pre, s_sn srd) = None), r')"
      "map_of (taes r') (pre, s_sn srd) \<noteq> None" "tvts r' (pre, s_dig srd) \<noteq> None"
      "ancs r' (pre, s_dig srd) \<noteq> None"
      unfolding assms(3) by blast
    have "valAnchorBigs E db srd seqner diger bigers toad bs c =
            missing_anchor srd seqner diger (Some vb) (Some bs) c"
      using a by (simp add: valAnchorBigs_unfold)
    also note missing_anchor_result [OF r(1)]
    finally show "\<exists>r'. escrowALEvent srd seqner diger (Some vb) (Some bs) (c_reger c) =
               (Inr (map_of (taes (c_reger c)) (pre, s_sn srd) = None), r') \<and>
            map_of (taes r') (pre, s_sn srd) \<noteq> None \<and> tvts r' (pre, s_dig srd) \<noteq> None \<and>
            ancs r' (pre, s_dig srd) \<noteq> None \<and>
            valAnchorBigs E db srd seqner diger bigers toad bs c =
              (Inl MissingAnchorError,
               c\<lparr>c_reger := r',
                 c_cues := c_cues c @
                   (if map_of (taes (c_reger c)) (pre, s_sn srd) = None
                    then [CueQuery (t_pre (c_tever c)) seqner] else [])\<rparr>)"
      using r by blast
  qed
  have p2: "verifySigs E srd bigers bs = Inr (vb, vi) \<and>
    verifyAnchor db (c_tever c) srd seqner diger = Inr True \<and> \<not> external_event (c_tever c) bs \<longrightarrow>
      valAnchorBigs E db srd seqner diger bigers toad bs c = (Inr vb, c)"
    by (simp add: valAnchorBigs_unfold)
  have p3: "verifySigs E srd bigers bs = Inr (vb, vi) \<and>
    verifyAnchor db (c_tever c) srd seqner diger = Inr True \<and> external_event (c_tever c) bs \<and>
    toad_int E toad = Inr n \<longrightarrow>
      (n < 0 \<or> int (length bs) < n \<longrightarrow>
         valAnchorBigs E db srd seqner diger bigers toad bs c = (Inl ValidationError, c)) \<and>
      (0 \<le> n \<and> n \<le> int (length bs) \<and> int (length vi) < n \<longrightarrow>
         (\<exists>r'. escrowPWEvent srd seqner diger vb (c_reger c) = (Inr (), r') \<and>
               twes r' (pre, s_sn srd) \<noteq> None \<and> tvts r' (pre, s_dig srd) \<noteq> None \<and>
               valAnchorBigs E db srd seqner diger bigers toad bs c =
                 (Inl MissingWitnessSignatureError, c\<lparr>c_reger := r'\<rparr>))) \<and>
      (0 \<le> n \<and> n \<le> int (length bs) \<and> n \<le> int (length vi) \<longrightarrow>
         valAnchorBigs E db srd seqner diger bigers toad bs c = (Inr vb, c))"
  proof
    assume a: "verifySigs E srd bigers bs = Inr (vb, vi) \<and>
      verifyAnchor db (c_tever c) srd seqner diger = Inr True \<and> external_event (c_tever c) bs \<and>
      toad_int E toad = Inr n"
    from escrowPWEvent_ok [OF assms(1,2), of seqner diger vb]
    obtain r' where r: "escrowPWEvent srd seqner diger vb (c_reger c) = (Inr (), r')"
      "twes r' (pre, s_sn srd) \<noteq> None" "tvts r' (pre, s_dig srd) \<noteq> None"
      by blast
    have v: "valAnchorBigs E db srd seqner diger bigers toad bs c =
        (if n < 0 \<or> int (length bs) < n then (Inl ValidationError, c)
         else if int (length vi) < n then (Inl MissingWitnessSignatureError, c\<lparr>c_reger := r'\<rparr>)
         else (Inr vb, c))"
      using a r(1) by (simp add: valAnchorBigs_unfold check_witnessed_unfold)
    show "(n < 0 \<or> int (length bs) < n \<longrightarrow>
         valAnchorBigs E db srd seqner diger bigers toad bs c = (Inl ValidationError, c)) \<and>
      (0 \<le> n \<and> n \<le> int (length bs) \<and> int (length vi) < n \<longrightarrow>
         (\<exists>r'. escrowPWEvent srd seqner diger vb (c_reger c) = (Inr (), r') \<and>
               twes r' (pre, s_sn srd) \<noteq> None \<and> tvts r' (pre, s_dig srd) \<noteq> None \<and>
               valAnchorBigs E db srd seqner diger bigers toad bs c =
                 (Inl MissingWitnessSignatureError, c\<lparr>c_reger := r'\<rparr>))) \<and>
      (0 \<le> n \<and> n \<le> int (length bs) \<and> n \<le> int (length vi) \<longrightarrow>
         valAnchorBigs E db srd seqner diger bigers toad bs c = (Inr vb, c))"
      unfolding v using r by auto
  qed
  show ?thesis by (intro conjI) (rule p0, rule p1, rule p2, rule p3)
qed

text \<open>
  Claim C4 as the specification words it asks for the query cue at every anchorless
  escrow and for \<open>MissingWitnessSignatureError\<close> whenever the threshold is unmet. For the
  rotation that the anchorless escrow already holds, \<open>valAnchorBigs\<close> raises
  \<open>MissingAnchorError\<close> and appends no cue; for an external event with three backers and the
  threshold 5 it raises \<open>ValidationError\<close> and escrows nothing.
\<close>

theorem valAnchorBigs_counterexample:
  "verifyAnchor ex_db (c_tever ctx_b_escrowed) ex_vrt 9 ''K9'' = Inr False \<and>
   fst (valAnchorBigs ex_env ex_db ex_vrt 9 ''K9'' None (TInt 2)
          [PStr ''B1'', PStr ''B3'', PStr ''B4''] ctx_b_escrowed) = Inl MissingAnchorError \<and>
   c_cues (snd (valAnchorBigs ex_env ex_db ex_vrt 9 ''K9'' None (TInt 2)
          [PStr ''B1'', PStr ''B3'', PStr ''B4''] ctx_b_escrowed)) = [] \<and>
   verifyAnchor ex_db (c_tever ctx_b) ex_vrt 5 ''K5'' = Inr True \<and>
   external_event (c_tever ctx_b) [PStr ''B1'', PStr ''B3'', PStr ''B4''] \<and>
   valAnchorBigs ex_env ex_db ex_vrt 5 ''K5'' None (TInt 5)
          [PStr ''B1'', PStr ''B3'', PStr ''B4''] ctx_b = (Inl ValidationError, ctx_b)"
  by (simp add: eval_defs monad_defs ex_defs)

theorem valAnchorBigs_outcomes_witness:
  "valAnchorBigs (ex_env\<lparr>verifySigs := \<lambda>s g b. Inl ValidationError\<rparr>) ex_db ex_vrt 5 ''K5'' None (TInt 2)
          [PStr ''B1'', PStr ''B3'', PStr ''B4''] ctx_b = (Inl ValidationError, ctx_b) \<and>
   fst (valAnchorBigs ex_env ex_db ex_vrt 9 ''K9'' None (TInt 2)
          [PStr ''B1'', PStr ''B3'', PStr ''B4''] ctx_b) = Inl MissingAnchorError \<and>
   c_cues (snd (valAnchorBigs ex_env ex_db ex_vrt 9 ''K9'' None (TInt 2)
          [PStr ''B1'', PStr ''B3'', PStr ''B4''] ctx_b)) = [CueQuery ''Eissuer'' 9] \<and>
   valAnchorBigs ex_env ex_db ex_vrt 5 ''K5'' None (TInt 2)
          [PStr ''B1'', PStr ''B3'', PStr ''B4''] (ctx_b\<lparr>c_tever := ex_tever_b\<lparr>t_local := True\<rparr>\<rparr>)
     = (Inr [], ctx_b\<lparr>c_tever := ex_tever_b\<lparr>t_local := True\<rparr>\<rparr>) \<and>
   fst (valAnchorBigs ex_env ex_db ex_vrt 5 ''K5'' (Some [(0, ''sig0'')]) (TInt 2)
          [PStr ''B1'', PStr ''B3'', PStr ''B4''] ctx_b) = Inl MissingWitnessSignatureError \<and>
   valAnchorBigs ex_env ex_db ex_vrt 5 ''K5'' (Some [(0, ''sig0''), (2, ''sig2'')]) (TInt 2)
          [PStr ''B1'', PStr ''B3'', PStr ''B4''] ctx_b
     = (Inr [(0, ''sig0''), (2, ''sig2'')], ctx_b)"
proof -
  let ?bs = "[PStr ''B1'', PStr ''B3'', PStr ''B4'']"
  have wf: "\<not> wfail (c_reger ctx_b)" by (simp add: ex_defs)
  have wl: "\<not> wfail (c_reger (ctx_b\<lparr>c_tever := ex_tever_b\<lparr>t_local := True\<rparr>\<rparr>))" by (simp add: ex_defs)
  have sp: "Serder_pre ex_vrt = Inr ''Ebackreg''" by (simp add: Serder_pre_def getitem_def ex_defs)
  have bs: "?bs = map PStr [''B1'', ''B3'', ''B4'']" by simp
  note T = valAnchorBigs_outcomes [where db = ex_db and toad = "TInt 2", OF wf sp bs]
  have a0: "verifySigs (ex_env\<lparr>verifySigs := \<lambda>s g b. Inl ValidationError\<rparr>) ex_vrt None ?bs = Inl ValidationError"
    by simp
  have w0: "valAnchorBigs (ex_env\<lparr>verifySigs := \<lambda>s g b. Inl ValidationError\<rparr>) ex_db ex_vrt 5 ''K5'' None (TInt 2)
          ?bs ctx_b = (Inl ValidationError, ctx_b)"
    using T [THEN conjunct1, THEN mp, OF a0] .
  have a1: "verifySigs ex_env ex_vrt None ?bs = Inr ([], []) \<and>
            verifyAnchor ex_db (c_tever ctx_b) ex_vrt 9 ''K9'' = Inr False"
    by (simp add: eval_defs ex_defs)
  from T [THEN conjunct2, THEN conjunct1, THEN mp, OF a1]
  obtain r' where r1: "valAnchorBigs ex_env ex_db ex_vrt 9 ''K9'' None (TInt 2) ?bs ctx_b =
              (Inl MissingAnchorError,
               ctx_b\<lparr>c_reger := r',
                 c_cues := c_cues ctx_b @
                   (if map_of (taes (c_reger ctx_b)) (''Ebackreg'', s_sn ex_vrt) = None
                    then [CueQuery (t_pre (c_tever ctx_b)) 9] else [])\<rparr>)"
    by blast
  have w1: "fst (valAnchorBigs ex_env ex_db ex_vrt 9 ''K9'' None (TInt 2) ?bs ctx_b) = Inl MissingAnchorError"
    unfolding r1 by simp
  have w1': "c_cues (snd (valAnchorBigs ex_env ex_db ex_vrt 9 ''K9'' None (TInt 2) ?bs ctx_b))
               = [CueQuery ''Eissuer'' 9]"
    unfolding r1 by (simp add: ex_defs)
  have a2: "verifySigs ex_env ex_vrt None ?bs = Inr ([], []) \<and>
            verifyAnchor ex_db (c_tever (ctx_b\<lparr>c_tever := ex_tever_b\<lparr>t_local := True\<rparr>\<rparr>)) ex_vrt 5 ''K5'' = Inr True \<and>
            \<not> external_event (c_tever (ctx_b\<lparr>c_tever := ex_tever_b\<lparr>t_local := True\<rparr>\<rparr>)) ?bs"
    by (simp add: eval_defs ex_defs)
  have w2: "valAnchorBigs ex_env ex_db ex_vrt 5 ''K5'' None (TInt 2) ?bs
              (ctx_b\<lparr>c_tever := ex_tever_b\<lparr>t_local := True\<rparr>\<rparr>)
            = (Inr [], ctx_b\<lparr>c_tever := ex_tever_b\<lparr>t_local := True\<rparr>\<rparr>)"
    using valAnchorBigs_outcomes [where db = ex_db, OF wl sp bs, THEN conjunct2, THEN conjunct2,
        THEN conjunct1, THEN mp, OF a2] .
  have a3: "verifySigs ex_env ex_vrt (Some [(0, ''sig0'')]) ?bs = Inr ([(0, ''sig0'')], [0]) \<and>
            verifyAnchor ex_db (c_tever ctx_b) ex_vrt 5 ''K5'' = Inr True \<and>
            external_event (c_tever ctx_b) ?bs \<and> toad_int ex_env (TInt 2) = Inr 2"
    by (simp add: eval_defs ex_defs)
  have c3: "(0::int) \<le> 2 \<and> 2 \<le> int (length ?bs) \<and> int (length [0::nat]) < 2" by simp
  from T [THEN conjunct2, THEN conjunct2, THEN conjunct2, THEN mp, OF a3, THEN conjunct2,
      THEN conjunct1, THEN mp, OF c3]
  have w3: "fst (valAnchorBigs ex_env ex_db ex_vrt 5 ''K5'' (Some [(0, ''sig0'')]) (TInt 2) ?bs ctx_b)
              = Inl MissingWitnessSignatureError"
    by auto
  have a4: "verifySigs ex_env ex_vrt (Some [(0, ''sig0''), (2, ''sig2'')]) ?bs
              = Inr ([(0, ''sig0''), (2, ''sig2'')], [0, 2]) \<and>
            verifyAnchor ex_db (c_tever ctx_b) ex_vrt 5 ''K5'' = Inr True \<and>
            external_event (c_tever ctx_b) ?bs \<and> toad_int ex_env (TInt 2) = Inr 2"
    by (simp add: eval_defs ex_defs)
  have c4: "(0::int) \<le> 2 \<and> 2 \<le> int (length ?bs) \<and> 2 \<le> int (length [0::nat, 2])" by simp
  have w4: "valAnchorBigs ex_env ex_db ex_vrt 5 ''K5'' (Some [(0, ''sig0''), (2, ''sig2'')]) (TInt 2)
          ?bs ctx_b = (Inr [(0, ''sig0''), (2, ''sig2'')], ctx_b)"
    using T [THEN conjunct2, THEN conjunct2, THEN conjunct2, THEN mp, OF a4, THEN conjunct2,
      THEN conjunct2, THEN mp, OF c4] .
  show ?thesis by (intro conjI) (rule w0, rule w1, rule w1', rule w2, rule w3, rule w4)
qed

section \<open>When update assigns the in-memory fields\<close>

lemma tever_bnd:
  assumes "\<And>c. c_tever (snd (m c)) = c_tever c" "\<And>a c. c_tever (snd (f a c)) = c_tever c"
  shows "c_tever (snd (bnd m f c)) = c_tever c"
proof (cases "m c")
  case (Pair x c1)
  have 1: "c_tever c1 = c_tever c" using assms(1) [of c] Pair by simp
  show ?thesis
  proof (cases x)
    case (Inl e)
    then show ?thesis using Pair 1 by (simp add: bnd_def)
  next
    case (Inr a)
    then show ?thesis using Pair 1 assms(2) [of a c1] by (simp add: bnd_def)
  qed
qed

lemma tever_basic [simp]:
  "c_tever (snd (pure v c)) = c_tever c"
  "c_tever (snd (reading g c)) = c_tever c"
  "c_tever (snd (ret a c)) = c_tever c"
  "c_tever (snd (raise e c)) = c_tever c"
  "c_tever (snd (raise_if b e c)) = c_tever c"
  "c_tever (snd (on_reger h c)) = c_tever c"
  "c_tever (snd (append_cue q c)) = c_tever c"
  by (simp_all add: pure_def reading_def ret_def raise_def raise_if_def on_reger_def append_cue_def
      split: prod.splits)

lemma tever_missing_anchor [simp]:
  "c_tever (snd (missing_anchor srd seqner diger bigers bs c :: (error + 'a) \<times> tctx)) = c_tever c"
  unfolding missing_anchor_def
  by (intro tever_bnd) simp_all

lemma tever_check_witnessed [simp]:
  "c_tever (snd (check_witnessed E srd seqner diger vb vi toad bs c)) = c_tever c"
  unfolding check_witnessed_def
  by (intro tever_bnd) (simp_all add: tever_bnd)

lemma tever_valAnchorBigs [simp]:
  "c_tever (snd (valAnchorBigs E db srd seqner diger bigers toad bs c)) = c_tever c"
  unfolding valAnchorBigs_def
  by (intro tever_bnd) (simp_all add: tever_bnd)

lemma tever_pin_state [simp]: "c_tever (snd (pin_state c)) = c_tever c"
  unfolding pin_state_def
  by (intro tever_bnd) simp_all

lemma tever_issue [simp]:
  "c_tever (snd (issue E db srd seqner diger sn bigers c)) = c_tever c"
  unfolding issue_def issue_iss_def issue_bis_def
  by (intro tever_bnd) (simp_all add: tever_bnd)

lemma tever_revoke [simp]:
  "c_tever (snd (revoke E db srd seqner diger sn bigers c)) = c_tever c"
  unfolding revoke_def revoke_rev_def revoke_brv_def
  by (intro tever_bnd) (simp_all add: tever_bnd)

lemma update_not_vrt:
  assumes "k_t (s_ked srd) \<noteq> Some Ilks_vrt"
  shows "c_tever (snd (update E db srd seqner diger bigers c)) = c_tever c"
proof (cases "k_t (s_ked srd)")
  case None
  then show ?thesis by (simp add: update_def getitem_def)
next
  case (Some ilk)
  with assms have n: "ilk \<noteq> Ilks_vrt" by simp
  have "update E db srd seqner diger bigers c =
          bnd (pure (getitem (k_s (s_ked srd)))) (\<lambda>s.
          bnd (pure (validateSN E s (ilk \<in> {Ilks_iss, Ilks_bis}))) (\<lambda>sn.
            if ilk \<in> {Ilks_iss, Ilks_bis} then issue E db srd seqner diger sn bigers
            else if ilk \<in> {Ilks_rev, Ilks_brv} then revoke E db srd seqner diger sn bigers
            else raise ValidationError)) c"
    using Some n by (simp add: update_def getitem_def)
  also have "c_tever (snd \<dots>) = c_tever c"
    by (intro tever_bnd) simp_all
  finally show ?thesis .
qed

lemma update_vrt_validated:
  assumes "k_t (s_ked srd) = Some Ilks_vrt" "k_s (s_ked srd) = Some s"
    and "validateSN E s False = Inr sn" "\<not> t_noBackers (c_tever c)"
    and "Tever_rotate E (c_tever c) srd sn = Inr rot"
    and "valAnchorBigs E db srd seqner diger bigers (TInt (fst rot)) (map PStr (fst (snd rot))) c
           = (Inr vb, c1)"
  shows "update E db srd seqner diger bigers c =
           bnd (on_reger (logEvent (t_prefixer (c_tever c)) sn srd seqner diger (Some vb)
                            (Some (fst (snd rot)))))
               (\<lambda>_. pin_state)
               (c1\<lparr>c_tever := assign_rotation sn srd Ilks_vrt rot (c_tever c)\<rparr>)"
proof -
  have t1: "c_tever c1 = c_tever c"
    using tever_valAnchorBigs [of E db srd seqner diger bigers "TInt (fst rot)"
        "map PStr (fst (snd rot))" c] assms(6) by simp
  have b: "t_baks (assign_rotation sn srd Ilks_vrt rot (c_tever c)) = fst (snd rot)"
    "t_prefixer (assign_rotation sn srd Ilks_vrt rot (c_tever c)) = t_prefixer (c_tever c)"
    by (simp_all add: assign_rotation_def split: prod.splits)
  have "update E db srd seqner diger bigers c =
          update_vrt E db srd seqner diger bigers Ilks_vrt sn c"
    using assms(1-3) by (simp add: update_def getitem_def Ilks_defs)
  also have "\<dots> =
      bnd (valAnchorBigs E db srd seqner diger bigers (TInt (fst rot)) (map PStr (fst (snd rot))))
       (\<lambda>vbigers.
     bnd (\<lambda>c. ret () (c\<lparr>c_tever := assign_rotation sn srd Ilks_vrt rot (c_tever c)\<rparr>)) (\<lambda>_.
     bnd (\<lambda>c. on_reger (logEvent (t_prefixer (c_tever c)) sn srd seqner diger (Some vbigers)
                           (Some (t_baks (c_tever c)))) c) (\<lambda>_.
     pin_state))) c"
    using assms(4,5) by (simp add: update_vrt_def bnd_raise_if bnd_reading)
  also have "\<dots> = bnd (on_reger (logEvent (t_prefixer (c_tever c)) sn srd seqner diger (Some vb)
                            (Some (fst (snd rot)))))
               (\<lambda>_. pin_state)
               (c1\<lparr>c_tever := assign_rotation sn srd Ilks_vrt rot (c_tever c)\<rparr>)"
    using assms(6) t1 b by (simp add: bnd_def ret_def)
  finally show ?thesis .
qed

lemma update_vrt_not_validated:
  assumes "k_t (s_ked srd) = Some Ilks_vrt"
    and "\<not> (\<exists>s sn rot vb c1. k_s (s_ked srd) = Some s \<and> validateSN E s False = Inr sn \<and>
             \<not> t_noBackers (c_tever c) \<and> Tever_rotate E (c_tever c) srd sn = Inr rot \<and>
             valAnchorBigs E db srd seqner diger bigers (TInt (fst rot)) (map PStr (fst (snd rot))) c
               = (Inr vb, c1))"
  shows "(\<exists>e. fst (update E db srd seqner diger bigers c) = Inl e) \<and>
         c_tever (snd (update E db srd seqner diger bigers c)) = c_tever c"
proof (cases "k_s (s_ked srd)")
  case None
  then show ?thesis using assms(1) by (simp add: update_def getitem_def)
next
  case (Some s)
  show ?thesis
  proof (cases "validateSN E s False")
    case (Inl e)
    then show ?thesis using assms(1) Some by (simp add: update_def getitem_def Ilks_defs)
  next
    case (Inr sn)
    have u: "update E db srd seqner diger bigers c =
          update_vrt E db srd seqner diger bigers Ilks_vrt sn c"
      using assms(1) Some Inr by (simp add: update_def getitem_def Ilks_defs)
    show ?thesis
    proof (cases "t_noBackers (c_tever c)")
      case True
      then show ?thesis unfolding u by (simp add: update_vrt_def bnd_raise_if)
    next
      case False
      show ?thesis
      proof (cases "Tever_rotate E (c_tever c) srd sn")
        case (Inl e)
        then show ?thesis unfolding u using False
          by (simp add: update_vrt_def bnd_raise_if bnd_reading)
      next
        case rot: (Inr rot)
        obtain x c1 where v: "valAnchorBigs E db srd seqner diger bigers (TInt (fst rot))
            (map PStr (fst (snd rot))) c = (x, c1)"
          by (cases "valAnchorBigs E db srd seqner diger bigers (TInt (fst rot))
            (map PStr (fst (snd rot))) c") blast
        have t1: "c_tever c1 = c_tever c"
          using tever_valAnchorBigs [of E db srd seqner diger bigers "TInt (fst rot)"
            "map PStr (fst (snd rot))" c] v by simp
        have "\<not> (\<exists>vb. x = Inr vb)"
        proof
          assume "\<exists>vb. x = Inr vb"
          then obtain vb where "x = Inr vb" ..
          with v Some Inr False rot have "\<exists>s sn rot vb c1. k_s (s_ked srd) = Some s \<and>
             validateSN E s False = Inr sn \<and>
             \<not> t_noBackers (c_tever c) \<and> Tever_rotate E (c_tever c) srd sn = Inr rot \<and>
             valAnchorBigs E db srd seqner diger bigers (TInt (fst rot)) (map PStr (fst (snd rot))) c
               = (Inr vb, c1)"
            by blast
          with assms(2) show False ..
        qed
        then obtain e where x: "x = Inl e" by (cases x) blast+
        have "update_vrt E db srd seqner diger bigers Ilks_vrt sn c =
          bnd (valAnchorBigs E db srd seqner diger bigers (TInt (fst rot)) (map PStr (fst (snd rot))))
           (\<lambda>vbigers.
           bnd (\<lambda>c. ret () (c\<lparr>c_tever := assign_rotation sn srd Ilks_vrt rot (c_tever c)\<rparr>)) (\<lambda>_.
           bnd (\<lambda>c. on_reger (logEvent (t_prefixer (c_tever c)) sn srd seqner diger (Some vbigers)
                           (Some (t_baks (c_tever c)))) c) (\<lambda>_.
           pin_state))) c"
          using False rot by (simp add: update_vrt_def bnd_raise_if bnd_reading)
        also have "\<dots> = (Inl e, c1)"
          using v x by (simp add: bnd_def)
        finally show ?thesis unfolding u using t1 by simp
      qed
    qed
  qed
qed

lemma logEvent_wfail:
  "wfail r \<Longrightarrow> logEvent pre sn srd seqner diger bigers bs r = (Inl DatabaseError, r)"
  by (simp add: logEvent_def putAnc_def writing_def bnd_def)

text \<open>
  Claim C8, as the code has it. \<open>update\<close> assigns the in-memory fields only for a \<open>vrt\<close>, after
  every validation step (\<open>validateSN\<close>, the \<open>noBackers\<close> check, \<open>rotate\<close>, \<open>valAnchorBigs\<close>) has
  succeeded and before it calls \<open>logEvent\<close>: for another kind of event, and for a \<open>vrt\<close> that
  a validation step rejects, the fields are unchanged; for a validated \<open>vrt\<close> the fields are
  those of the rotation whatever \<open>logEvent\<close> and the pin of the state do afterwards, also
  when the store write raises.
\<close>

theorem update_assigns_before_logEvent:
  "(k_t (s_ked srd) \<noteq> Some Ilks_vrt \<longrightarrow>
      c_tever (snd (update E db srd seqner diger bigers c)) = c_tever c) \<and>
   (k_t (s_ked srd) = Some Ilks_vrt \<and>
    \<not> (\<exists>s sn rot vb c1. k_s (s_ked srd) = Some s \<and> validateSN E s False = Inr sn \<and>
             \<not> t_noBackers (c_tever c) \<and> Tever_rotate E (c_tever c) srd sn = Inr rot \<and>
             valAnchorBigs E db srd seqner diger bigers (TInt (fst rot)) (map PStr (fst (snd rot))) c
               = (Inr vb, c1)) \<longrightarrow>
      (\<exists>e. fst (update E db srd seqner diger bigers c) = Inl e) \<and>
      c_tever (snd (update E db srd seqner diger bigers c)) = c_tever c) \<and>
   (k_t (s_ked srd) = Some Ilks_vrt \<and> k_s (s_ked srd) = Some s \<and>
    validateSN E s False = Inr sn \<and> \<not> t_noBackers (c_tever c) \<and>
    Tever_rotate E (c_tever c) srd sn = Inr rot \<and>
    valAnchorBigs E db srd seqner diger bigers (TInt (fst rot)) (map PStr (fst (snd rot))) c
      = (Inr vb, c1) \<longrightarrow>
      update E db srd seqner diger bigers c =
        bnd (on_reger (logEvent (t_prefixer (c_tever c)) sn srd seqner diger (Some vb)
                         (Some (fst (snd rot)))))
            (\<lambda>_. pin_state)
            (c1\<lparr>c_tever := assign_rotation sn srd Ilks_vrt rot (c_tever c)\<rparr>) \<and>
      c_tever (snd (update E db srd seqner diger bigers c)) =
        assign_rotation sn srd Ilks_vrt rot (c_tever c) \<and>
      (wfail (c_reger c1) \<longrightarrow>
         update E db srd seqner diger bigers c =
           (Inl DatabaseError, c1\<lparr>c_tever := assign_rotation sn srd Ilks_vrt rot (c_tever c)\<rparr>)))"
proof -
  have p1: "k_t (s_ked srd) \<noteq> Some Ilks_vrt \<longrightarrow>
      c_tever (snd (update E db srd seqner diger bigers c)) = c_tever c"
    using update_not_vrt [of srd E db seqner diger bigers c] by (rule impI)
  have p2: "k_t (s_ked srd) = Some Ilks_vrt \<and>
    \<not> (\<exists>s sn rot vb c1. k_s (s_ked srd) = Some s \<and> validateSN E s False = Inr sn \<and>
             \<not> t_noBackers (c_tever c) \<and> Tever_rotate E (c_tever c) srd sn = Inr rot \<and>
             valAnchorBigs E db srd seqner diger bigers (TInt (fst rot)) (map PStr (fst (snd rot))) c
               = (Inr vb, c1)) \<longrightarrow>
      (\<exists>e. fst (update E db srd seqner diger bigers c) = Inl e) \<and>
      c_tever (snd (update E db srd seqner diger bigers c)) = c_tever c"
    using update_vrt_not_validated [of srd E c db seqner diger bigers] by blast
  have p3: "k_t (s_ked srd) = Some Ilks_vrt \<and> k_s (s_ked srd) = Some s \<and>
    validateSN E s False = Inr sn \<and> \<not> t_noBackers (c_tever c) \<and>
    Tever_rotate E (c_tever c) srd sn = Inr rot \<and>
    valAnchorBigs E db srd seqner diger bigers (TInt (fst rot)) (map PStr (fst (snd rot))) c
      = (Inr vb, c1) \<longrightarrow>
      update E db srd seqner diger bigers c =
        bnd (on_reger (logEvent (t_prefixer (c_tever c)) sn srd seqner diger (Some vb)
                         (Some (fst (snd rot)))))
            (\<lambda>_. pin_state)
            (c1\<lparr>c_tever := assign_rotation sn srd Ilks_vrt rot (c_tever c)\<rparr>) \<and>
      c_tever (snd (update E db srd seqner diger bigers c)) =
        assign_rotation sn srd Ilks_vrt rot (c_tever c) \<and>
      (wfail (c_reger c1) \<longrightarrow>
         update E db srd seqner diger bigers c =
           (Inl DatabaseError, c1\<lparr>c_tever := assign_rotation sn srd Ilks_vrt rot (c_tever c)\<rparr>))"
  proof
    assume a: "k_t (s_ked srd) = Some Ilks_vrt \<and> k_s (s_ked srd) = Some s \<and>
      validateSN E s False = Inr sn \<and> \<not> t_noBackers (c_tever c) \<and>
      Tever_rotate E (c_tever c) srd sn = Inr rot \<and>
      valAnchorBigs E db srd seqner diger bigers (TInt (fst rot)) (map PStr (fst (snd rot))) c
        = (Inr vb, c1)"
    let ?c2 = "c1\<lparr>c_tever := assign_rotation sn srd Ilks_vrt rot (c_tever c)\<rparr>"
    have u: "update E db srd seqner diger bigers c =
        bnd (on_reger (logEvent (t_prefixer (c_tever c)) sn srd seqner diger (Some vb)
                         (Some (fst (snd rot)))))
            (\<lambda>_. pin_state) ?c2"
      using update_vrt_validated [OF a [THEN conjunct1] a [THEN conjunct2, THEN conjunct1]
          a [THEN conjunct2, THEN conjunct2, THEN conjunct1]
          a [THEN conjunct2, THEN conjunct2, THEN conjunct2, THEN conjunct1]
          a [THEN conjunct2, THEN conjunct2, THEN conjunct2, THEN conjunct2, THEN conjunct1]
          a [THEN conjunct2, THEN conjunct2, THEN conjunct2, THEN conjunct2, THEN conjunct2]] .
    have "c_tever (snd (bnd (on_reger (logEvent (t_prefixer (c_tever c)) sn srd seqner diger (Some vb)
                         (Some (fst (snd rot)))))
            (\<lambda>_. pin_state) ?c2)) = c_tever ?c2"
      by (intro tever_bnd) simp_all
    then have t: "c_tever (snd (update E db srd seqner diger bigers c)) =
        assign_rotation sn srd Ilks_vrt rot (c_tever c)"
      unfolding u by simp
    have w: "wfail (c_reger c1) \<longrightarrow>
         update E db srd seqner diger bigers c = (Inl DatabaseError, ?c2)"
      unfolding u by (simp add: bnd_def on_reger_def logEvent_wfail)
    from u t w show "update E db srd seqner diger bigers c =
        bnd (on_reger (logEvent (t_prefixer (c_tever c)) sn srd seqner diger (Some vb)
                         (Some (fst (snd rot)))))
            (\<lambda>_. pin_state)
            (c1\<lparr>c_tever := assign_rotation sn srd Ilks_vrt rot (c_tever c)\<rparr>) \<and>
      c_tever (snd (update E db srd seqner diger bigers c)) =
        assign_rotation sn srd Ilks_vrt rot (c_tever c) \<and>
      (wfail (c_reger c1) \<longrightarrow>
         update E db srd seqner diger bigers c =
           (Inl DatabaseError, c1\<lparr>c_tever := assign_rotation sn srd Ilks_vrt rot (c_tever c)\<rparr>))"
      by (intro conjI)
  qed
  show ?thesis by (intro conjI) (rule p1, rule p2, rule p3)
qed

text \<open>
  Claim C8 as the specification words it says that the fields change only after the
  writes of \<open>logEvent\<close> have succeeded. On a store whose writes raise, \<open>update\<close> on the
  anchored and witnessed rotation of \<open>Ebackreg\<close> raises from \<open>logEvent\<close>, nothing is written,
  and the verifier is already at the sequence number 1 with the new backers.
\<close>

theorem update_assigns_counterexample:
  "fst (update ex_env ex_db ex_vrt 5 ''K5'' (Some [(0, ''sig0''), (2, ''sig2'')]) ctx_b_wfail)
     = Inl DatabaseError \<and>
   c_reger (snd (update ex_env ex_db ex_vrt 5 ''K5'' (Some [(0, ''sig0''), (2, ''sig2'')]) ctx_b_wfail))
     = c_reger ctx_b_wfail \<and>
   t_sn (c_tever ctx_b_wfail) = 0 \<and>
   t_sn (c_tever (snd (update ex_env ex_db ex_vrt 5 ''K5'' (Some [(0, ''sig0''), (2, ''sig2'')])
                        ctx_b_wfail))) = 1 \<and>
   t_baks (c_tever ctx_b_wfail) = [''B1'', ''B2'', ''B3''] \<and>
   t_baks (c_tever (snd (update ex_env ex_db ex_vrt 5 ''K5'' (Some [(0, ''sig0''), (2, ''sig2'')])
                        ctx_b_wfail))) = [''B1'', ''B3'', ''B4'']"
  by (simp add: eval_defs monad_defs ex_defs)

theorem update_assigns_before_logEvent_witness:
  "c_tever (snd (update ex_env ex_db ex_iss 2 ''K2'' None ctx_nb)) = c_tever ctx_nb \<and>
   (\<exists>e. fst (update ex_env ex_db ex_vrt_bad 5 ''K5'' None ctx_b) = Inl e) \<and>
   c_tever (snd (update ex_env ex_db ex_vrt_bad 5 ''K5'' None ctx_b)) = c_tever ctx_b \<and>
   c_tever (snd (update ex_env ex_db ex_vrt 5 ''K5'' (Some [(0, ''sig0''), (2, ''sig2'')]) ctx_b))
     = assign_rotation 1 ex_vrt Ilks_vrt (2, [''B1'', ''B3'', ''B4''], [''B2''], [''B4'']) ex_tever_b \<and>
   update ex_env ex_db ex_vrt 5 ''K5'' (Some [(0, ''sig0''), (2, ''sig2'')]) ctx_b_wfail
     = (Inl DatabaseError,
        ctx_b_wfail\<lparr>c_tever := assign_rotation 1 ex_vrt Ilks_vrt
                       (2, [''B1'', ''B3'', ''B4''], [''B2''], [''B4'']) ex_tever_b\<rparr>)"
proof -
  let ?sigs = "Some [(0::nat, ''sig0''), (2, ''sig2'')]"
  let ?rot = "(2::int, [''B1'', ''B3'', ''B4''], [''B2''], [''B4''])"
  have a1: "k_t (s_ked ex_iss) \<noteq> Some Ilks_vrt" by (simp add: ex_defs Ilks_defs)
  have w1: "c_tever (snd (update ex_env ex_db ex_iss 2 ''K2'' None ctx_nb)) = c_tever ctx_nb"
    using update_assigns_before_logEvent [THEN conjunct1, THEN mp, OF a1] .
  have r: "\<And>sn. Tever_rotate ex_env ex_tever_b ex_vrt_bad sn = Inl ValidationError"
    by (rule Tever_rotate_reject [where cuts = "[''B9'']" and adds = "[''B4'']"])
       (simp_all add: ex_defs)
  have a2: "k_t (s_ked ex_vrt_bad) = Some Ilks_vrt \<and>
    \<not> (\<exists>s sn rot vb c1. k_s (s_ked ex_vrt_bad) = Some s \<and> validateSN ex_env s False = Inr sn \<and>
             \<not> t_noBackers (c_tever ctx_b) \<and> Tever_rotate ex_env (c_tever ctx_b) ex_vrt_bad sn = Inr rot \<and>
             valAnchorBigs ex_env ex_db ex_vrt_bad 5 ''K5'' None (TInt (fst rot)) (map PStr (fst (snd rot))) ctx_b
               = (Inr vb, c1))"
    using r by (simp add: ctx_b_def ex_vrt_bad_def ked0_def Ilks_defs)
  note W2 = update_assigns_before_logEvent [THEN conjunct2, THEN conjunct1, THEN mp, OF a2]
  have a3: "k_t (s_ked ex_vrt) = Some Ilks_vrt \<and> k_s (s_ked ex_vrt) = Some ''1'' \<and>
    validateSN ex_env ''1'' False = Inr 1 \<and> \<not> t_noBackers (c_tever ctx_b) \<and>
    Tever_rotate ex_env (c_tever ctx_b) ex_vrt 1 = Inr ?rot \<and>
    valAnchorBigs ex_env ex_db ex_vrt 5 ''K5'' ?sigs (TInt (fst ?rot)) (map PStr (fst (snd ?rot))) ctx_b
      = (Inr [(0, ''sig0''), (2, ''sig2'')], ctx_b)"
    by (simp add: eval_defs monad_defs ex_defs)
  have t3: "c_tever ctx_b = ex_tever_b" by (simp add: ctx_b_def)
  have w3: "c_tever (snd (update ex_env ex_db ex_vrt 5 ''K5'' ?sigs ctx_b))
     = assign_rotation 1 ex_vrt Ilks_vrt ?rot ex_tever_b"
    using update_assigns_before_logEvent [THEN conjunct2, THEN conjunct2, THEN mp, OF a3,
        THEN conjunct2, THEN conjunct1] unfolding t3 .
  have a4: "k_t (s_ked ex_vrt) = Some Ilks_vrt \<and> k_s (s_ked ex_vrt) = Some ''1'' \<and>
    validateSN ex_env ''1'' False = Inr 1 \<and> \<not> t_noBackers (c_tever ctx_b_wfail) \<and>
    Tever_rotate ex_env (c_tever ctx_b_wfail) ex_vrt 1 = Inr ?rot \<and>
    valAnchorBigs ex_env ex_db ex_vrt 5 ''K5'' ?sigs (TInt (fst ?rot)) (map PStr (fst (snd ?rot))) ctx_b_wfail
      = (Inr [(0, ''sig0''), (2, ''sig2'')], ctx_b_wfail)"
    by (simp add: eval_defs monad_defs ex_defs)
  have f4: "wfail (c_reger ctx_b_wfail)" by (simp add: ex_defs)
  have t4: "c_tever ctx_b_wfail = ex_tever_b" by (simp add: ctx_b_wfail_def ctx_b_def)
  have w4: "update ex_env ex_db ex_vrt 5 ''K5'' ?sigs ctx_b_wfail
     = (Inl DatabaseError, ctx_b_wfail\<lparr>c_tever := assign_rotation 1 ex_vrt Ilks_vrt ?rot ex_tever_b\<rparr>)"
    using update_assigns_before_logEvent [THEN conjunct2, THEN conjunct2, THEN mp, OF a4,
        THEN conjunct2, THEN conjunct2, THEN mp, OF f4] unfolding t4 .
  show ?thesis
    by (intro conjI) (rule w1, rule W2 [THEN conjunct1], rule W2 [THEN conjunct2], rule w3, rule w4)
qed

section \<open>An issuance that arrives before its registry\<close>

lemmas tevery_defs = processEvent_def valid_pre_def registryKey_def nonlocal_event_def first_seen_def
  known_def expected_sn_def vcSn_def cntTels_def with_tever_def on_yreger_def escrowOOEvent_def
  Tever_init_def Tever_incept_def Tever_first_def processEscrows_def processEscrowAnchorless_def
  processEscrowOutOfOrders_def unescrow_tae_def reload_escrowed_def delTae_def

lemma early_iss:
  "processEvent ex_env ex_db ex_iss 2 ''K2'' None tevery0 =
     (Inl OutOfOrderError,
      tevery0\<lparr>y_reger := reger0\<lparr>tvts := [(''Ecredential'', ''Diss'') \<mapsto> ex_iss],
                                ancs := [(''Ecredential'', ''Diss'') \<mapsto> (2, ''K2'')],
                                oots := [((''Ecredential'', 0), ''Diss'')]\<rparr>\<rparr>)"
  by (simp add: tevery_defs eval_defs monad_defs ex_defs)

lemma then_vcp:
  "fst (processEvent ex_env ex_db ex_vcp 1 ''K1'' None tevery_early_iss) = Inr ()"
  "tels (y_reger tevery_then_vcp) = [((''Eregistry'', 0), ''Dvcp'')]"
  "oots (y_reger tevery_then_vcp) = [((''Ecredential'', 0), ''Diss'')]"
  "taes (y_reger tevery_then_vcp) = []"
  "y_tevers tevery_then_vcp ''Eregistry'' \<noteq> None"
  unfolding tevery_then_vcp_def tevery_early_iss_def early_iss
  by (simp_all add: tevery_defs eval_defs monad_defs ex_defs)

lemma drained: "tevery_drained = tevery_then_vcp"
  unfolding tevery_drained_def
  by (simp add: processEscrows_def processEscrowAnchorless_def processEscrowOutOfOrders_def
      then_vcp bnd_def)

lemma processEvent_first_seen:
  assumes "valid_pre E srd = Inr pre" "registryKey srd = Inr regk"
    and "k_s (s_ked srd) = Some s" "k_t (s_ked srd) = Some ilk"
    and "validateSN E s (ilk \<in> {Ilks_vcp, Ilks_iss, Ilks_bis}) = Inr sn"
    and "\<not> nonlocal_event y regk" "y_tevers y regk = None"
  shows "processEvent E db srd seqner diger wigers y =
           first_seen E db srd seqner diger wigers regk ilk y"
  using assms by (simp add: processEvent_def getitem_def bnd_raise_if)

text \<open>
  Claim C7, as the code has it. An event that is not a \<open>vcp\<close> and whose registry is not in
  the cache (an \<open>iss\<close> for the credential \<open>V\<close> that arrives before the \<open>vcp\<close> of its registry
  \<open>R\<close>), on a store whose writes succeed, raises \<open>OutOfOrderError\<close>; its body and its anchor are
  stored under its own identifier and digest, and the out-of-order escrow holds an entry at
  its own identifier and sequence number, \<open>oot[snKey(V, 0)]\<close> for the \<open>iss\<close>: the digest of
  the event when the key was free. No entry is made under the identifier of the registry.
\<close>

theorem early_event_escrowed:
  assumes "valid_pre E srd = Inr pre" "registryKey srd = Inr regk"
    and "k_s (s_ked srd) = Some s" "k_t (s_ked srd) = Some ilk" "ilk \<noteq> Ilks_vcp"
    and "validateSN E s (ilk \<in> {Ilks_vcp, Ilks_iss, Ilks_bis}) = Inr sn"
    and "\<not> nonlocal_event y regk" "y_tevers y regk = None"
    and "\<not> wfail (y_reger y)"
    and "r' = (y_reger y)
                 \<lparr>tvts := put_new (tvts (y_reger y)) (pre, s_dig srd) srd,
                  ancs := put_new (ancs (y_reger y)) (pre, s_dig srd) (seqner, diger),
                  oots := aput_new (oots (y_reger y)) (pre, s_sn srd) (s_dig srd)\<rparr>"
  shows "processEvent E db srd seqner diger wigers y = (Inl OutOfOrderError, y\<lparr>y_reger := r'\<rparr>) \<and>
         k_i (s_ked srd) = Some pre \<and>
         map_of (oots r') (pre, s_sn srd) \<noteq> None \<and>
         tvts r' (pre, s_dig srd) \<noteq> None \<and> ancs r' (pre, s_dig srd) \<noteq> None \<and>
         tels r' = tels (y_reger y) \<and>
         (map_of (oots (y_reger y)) (pre, s_sn srd) = None \<longrightarrow>
            map_of (oots r') (pre, s_sn srd) = Some (s_dig srd)) \<and>
         (regk \<noteq> pre \<longrightarrow>
            map_of (oots r') (regk, s_sn srd) = map_of (oots (y_reger y)) (regk, s_sn srd))"
proof -
  have sp: "Serder_pre srd = Inr pre" using assms(1) by (rule valid_pre_Inr)
  have "processEvent E db srd seqner diger wigers y =
          first_seen E db srd seqner diger wigers regk ilk y"
    using assms(1-4,6-8) by (rule processEvent_first_seen)
  also have "\<dots> = bnd (on_yreger (escrowOOEvent srd seqner diger)) (\<lambda>_. raise OutOfOrderError) y"
    using assms(5) by (simp add: first_seen_def)
  also have "\<dots> = (Inl OutOfOrderError, y\<lparr>y_reger := r'\<rparr>)"
    unfolding assms(10) using assms(9) sp by (rule escrow_then_raise)
  finally have 1: "processEvent E db srd seqner diger wigers y = (Inl OutOfOrderError, y\<lparr>y_reger := r'\<rparr>)" .
  have 2: "k_i (s_ked srd) = Some pre"
    using sp by (simp add: Serder_pre_def getitem_def split: option.splits)
  have 3: "map_of (oots r') (pre, s_sn srd) \<noteq> None" "tvts r' (pre, s_dig srd) \<noteq> None"
    "ancs r' (pre, s_dig srd) \<noteq> None" "tels r' = tels (y_reger y)"
    "map_of (oots (y_reger y)) (pre, s_sn srd) = None \<longrightarrow>
            map_of (oots r') (pre, s_sn srd) = Some (s_dig srd)"
    by (simp_all add: assms(10) map_of_aput_new put_new_same)
  have 4: "regk \<noteq> pre \<longrightarrow>
            map_of (oots r') (regk, s_sn srd) = map_of (oots (y_reger y)) (regk, s_sn srd)"
    by (auto simp add: assms(10) aput_new_def map_add_def split: option.splits)
  show ?thesis
    by (intro conjI) (rule 1, rule 2, rule 3(1), rule 3(2), rule 3(3), rule 3(4), rule 3(5), rule 4)
qed

text \<open>
  Claim C7 as the specification words it puts the entry under \<open>oot[snKey(R, 0)]\<close> and has
  \<open>processEscrows\<close> apply the escrowed \<open>iss\<close> once the \<open>vcp\<close> is in. In the scenario the entry
  is under the credential's identifier and none is under the registry's; after the \<open>vcp\<close>
  is accepted and \<open>processEscrows\<close> has run, the log holds no event of the credential and
  the entry is still in the escrow.
\<close>

theorem early_iss_counterexample:
  "fst (processEvent ex_env ex_db ex_iss 2 ''K2'' None tevery0) = Inl OutOfOrderError \<and>
   map_of (oots (y_reger tevery_early_iss)) (''Eregistry'', 0) = None \<and>
   map_of (oots (y_reger tevery_early_iss)) (''Ecredential'', 0) = Some ''Diss'' \<and>
   fst (processEvent ex_env ex_db ex_vcp 1 ''K1'' None tevery_early_iss) = Inr () \<and>
   tels (y_reger tevery_drained) = [((''Eregistry'', 0), ''Dvcp'')] \<and>
   vcSn ex_tever_nb (y_reger tevery_drained) ''Ecredential'' = None \<and>
   map_of (oots (y_reger tevery_drained)) (''Ecredential'', 0) = Some ''Diss''"
proof -
  have c1: "fst (processEvent ex_env ex_db ex_iss 2 ''K2'' None tevery0) = Inl OutOfOrderError"
    by (simp add: early_iss)
  have c2: "map_of (oots (y_reger tevery_early_iss)) (''Eregistry'', 0) = None"
    "map_of (oots (y_reger tevery_early_iss)) (''Ecredential'', 0) = Some ''Diss''"
    by (simp_all add: tevery_early_iss_def early_iss)
  have c3: "fst (processEvent ex_env ex_db ex_vcp 1 ''K1'' None tevery_early_iss) = Inr ()"
    by (rule then_vcp(1))
  have c4: "tels (y_reger tevery_drained) = [((''Eregistry'', 0), ''Dvcp'')]"
    "map_of (oots (y_reger tevery_drained)) (''Ecredential'', 0) = Some ''Diss''"
    by (simp_all add: drained then_vcp)
  have c5: "vcSn ex_tever_nb (y_reger tevery_drained) ''Ecredential'' = None"
    by (simp add: drained vcSn_def cntTels_def nsKey_def ex_tever_nb_def then_vcp)
  show ?thesis
    by (intro conjI) (rule c1, rule c2(1), rule c2(2), rule c3, rule c4(1), rule c5, rule c4(2))
qed

theorem early_event_escrowed_witness:
  "processEvent ex_env ex_db ex_iss 2 ''K2'' None tevery0 =
     (Inl OutOfOrderError,
      tevery0\<lparr>y_reger := (y_reger tevery0)
         \<lparr>tvts := put_new (tvts (y_reger tevery0)) (''Ecredential'', s_dig ex_iss) ex_iss,
          ancs := put_new (ancs (y_reger tevery0)) (''Ecredential'', s_dig ex_iss) (2, ''K2''),
          oots := aput_new (oots (y_reger tevery0)) (''Ecredential'', s_sn ex_iss) (s_dig ex_iss)\<rparr>\<rparr>) \<and>
   s_sn ex_iss = 0 \<and> s_dig ex_iss = ''Diss'' \<and>
   aput_new (oots (y_reger tevery0)) (''Ecredential'', s_sn ex_iss) (s_dig ex_iss)
     = [((''Ecredential'', 0), ''Diss'')]"
proof -
  have h: "valid_pre ex_env ex_iss = Inr ''Ecredential''" "registryKey ex_iss = Inr ''Eregistry''"
    "k_s (s_ked ex_iss) = Some ''0''" "k_t (s_ked ex_iss) = Some Ilks_iss" "Ilks_iss \<noteq> Ilks_vcp"
    "validateSN ex_env ''0'' (Ilks_iss \<in> {Ilks_vcp, Ilks_iss, Ilks_bis}) = Inr 0"
    "\<not> nonlocal_event tevery0 ''Eregistry''" "y_tevers tevery0 ''Eregistry'' = None"
    "\<not> wfail (y_reger tevery0)"
    by (simp_all add: valid_pre_def registryKey_def Serder_pre_def getitem_def ebind_def
        nonlocal_event_def truthy_str_def ex_defs Ilks_defs)
  have w1: "processEvent ex_env ex_db ex_iss 2 ''K2'' None tevery0 =
     (Inl OutOfOrderError,
      tevery0\<lparr>y_reger := (y_reger tevery0)
         \<lparr>tvts := put_new (tvts (y_reger tevery0)) (''Ecredential'', s_dig ex_iss) ex_iss,
          ancs := put_new (ancs (y_reger tevery0)) (''Ecredential'', s_dig ex_iss) (2, ''K2''),
          oots := aput_new (oots (y_reger tevery0)) (''Ecredential'', s_sn ex_iss) (s_dig ex_iss)\<rparr>\<rparr>)"
    using early_event_escrowed [OF h refl, THEN conjunct1] .
  have w2: "s_sn ex_iss = 0" "s_dig ex_iss = ''Diss''"
    "aput_new (oots (y_reger tevery0)) (''Ecredential'', s_sn ex_iss) (s_dig ex_iss)
     = [((''Ecredential'', 0), ''Diss'')]"
    by (simp_all add: ex_defs aput_new_def)
  show ?thesis by (intro conjI) (rule w1, rule w2(1), rule w2(2), rule w2(3))
qed

end
